(* ===== verification/Prelude.thy ===== *)
theory Prelude
  imports Main "HOL-Library.Word"
begin

text \<open>
  What every component of the model shares: the Go values that have no HOL counterpart of
  their own (errors, instants, durations, fallible results), the lemma collections of the
  development, and generic facts on lists and maps.

  A Go \<open>error\<close> is a value of \<open>go_error\<close>: \<open>Errorf m\<close> is \<open>fmt.Errorf\<close> or
  \<open>errors.New\<close> with the formatted message \<open>m\<close>, \<open>Wrapf m e\<close> is a
  \<open>fmt.Errorf\<close> whose \<open>%w\<close> verb wraps \<open>e\<close> (the message \<open>m\<close> is the text before the
  wrapped error), \<open>WrapAfter e m\<close> wraps with \<open>%w: m\<close>, and \<open>ExchError c m e\<close> is a \<open>*perp.Error\<close> with its code, message and
  wrapped error. A call that returns \<open>(T, error)\<close> returns \<open>go_error + T\<close>.

  An instant \<open>time.Time\<close> is its number of nanoseconds since the Unix epoch, a
  \<open>time.Duration\<close> a number of nanoseconds; the clock is an argument of the operations
  that read it.
\<close>

named_theorems go_defs "definitions of the model that proofs unfold together"
named_theorems inv_intros "preservation lemmas of the component invariants"

subsection \<open>Errors, results, instants\<close>

datatype go_error =
    Errorf string
  | Wrapf string go_error
  | WrapAfter go_error string
  | ExchError string string "go_error option"

type_synonym 'a result = "go_error + 'a"

type_synonym go_time = int
type_synonym duration = int

definition zero_time :: go_time where
  "zero_time = - 62135596800 * 10 ^ 9"

definition second :: duration where
  "second = 10 ^ 9"

definition is_ok :: "'a result \<Rightarrow> bool" where
  "is_ok r = (case r of Inl _ \<Rightarrow> False | Inr _ \<Rightarrow> True)"

lemma is_ok_simps [simp]: "\<not> is_ok (Inl e)" "is_ok (Inr v)"
  by (simp_all add: is_ok_def)

text \<open>\<open>errors.As(err, &pe) && pe.Code == c\<close>: the first \<open>*perp.Error\<close> of the chain
  decides, whatever it wraps.\<close>

fun has_code :: "string \<Rightarrow> go_error \<Rightarrow> bool" where
  "has_code c (Errorf m) = False"
| "has_code c (Wrapf m e) = has_code c e"
| "has_code c (WrapAfter e m) = has_code c e"
| "has_code c (ExchError c' m e) = (c' = c)"

text \<open>\<open>errors.Is(err, t)\<close> for a sentinel \<open>t\<close>, and the text \<open>err.Error()\<close>.\<close>

fun error_is :: "go_error \<Rightarrow> go_error \<Rightarrow> bool" where
  "error_is t (Errorf m) = (Errorf m = t)"
| "error_is t (Wrapf m e) = (Wrapf m e = t \<or> error_is t e)"
| "error_is t (WrapAfter e m) = (WrapAfter e m = t \<or> error_is t e)"
| "error_is t (ExchError c m None) = (ExchError c m None = t)"
| "error_is t (ExchError c m (Some e)) = (ExchError c m (Some e) = t \<or> error_is t e)"

fun error_text :: "go_error \<Rightarrow> string" where
  "error_text (Errorf m) = m"
| "error_text (Wrapf m e) = m @ error_text e"
| "error_text (WrapAfter e m) = error_text e @ '': '' @ m"
| "error_text (ExchError c m None) = ''['' @ c @ ''] '' @ m"
| "error_text (ExchError c m (Some e)) = ''['' @ c @ ''] '' @ m @ '': '' @ error_text e"

lemma error_is_refl [simp]: "error_is t t"
  by (cases "(t, t)" rule: error_is.cases) auto

subsection \<open>Lists\<close>

lemma find_Some_mem: "find P xs = Some x \<Longrightarrow> x \<in> set xs \<and> P x"
  by (auto simp: find_Some_iff)

lemma find_None_iff_all: "find P xs = None \<longleftrightarrow> (\<forall>x \<in> set xs. \<not> P x)"
  by (auto simp: find_None_iff)

lemma sorted_wrt_take: "sorted_wrt P xs \<Longrightarrow> sorted_wrt P (take n xs)"
  by (metis append_take_drop_id sorted_wrt_append)

lemma sorted_wrt_drop: "sorted_wrt P xs \<Longrightarrow> sorted_wrt P (drop n xs)"
  by (metis append_take_drop_id sorted_wrt_append)

lemma filter_length_le: "length (filter P xs) \<le> length xs"
  by simp

subsection \<open>Maps\<close>

lemma map_upd_same_dom: "k \<in> dom m \<Longrightarrow> dom (m(k \<mapsto> v)) = dom m"
  by auto

lemma finite_dom_upd [simp]: "finite (dom m) \<Longrightarrow> finite (dom (m(k \<mapsto> v)))"
  by simp

text \<open>A Go \<open>range\<close> over a map visits every key once, in an order the language leaves
  open: an operation that ranges over a map takes that order as an argument, and
  \<open>iterates ks m\<close> says that \<open>ks\<close> is such an order for \<open>m\<close>.\<close>

definition iterates :: "'k list \<Rightarrow> ('k \<rightharpoonup> 'v) \<Rightarrow> bool" where
  "iterates ks m \<longleftrightarrow> distinct ks \<and> set ks = dom m"

lemma iterates_upd: "iterates ks m \<Longrightarrow> k \<in> dom m \<Longrightarrow> iterates ks (m(k \<mapsto> v))"
  by (auto simp: iterates_def)

lemma iterates_mem: "iterates ks m \<Longrightarrow> k \<in> set ks \<longleftrightarrow> k \<in> dom m"
  by (simp add: iterates_def)

lemma iterates_empty [simp]: "iterates [] Map.empty"
  by (simp add: iterates_def)

text \<open>The values a range visits, in its order.\<close>

definition map_values :: "'k list \<Rightarrow> ('k \<rightharpoonup> 'v) \<Rightarrow> 'v list" where
  "map_values ks m = List.map_filter m ks"

lemma map_values_simps [simp]:
  "map_values [] m = []"
  "map_values (k # ks) m = (case m k of None \<Rightarrow> map_values ks m | Some v \<Rightarrow> v # map_values ks m)"
  by (auto simp: map_values_def List.map_filter_simps split: option.splits)

lemma map_values_append [simp]: "map_values (ks @ ls) m = map_values ks m @ map_values ls m"
  by (induction ks) (auto split: option.splits)

lemma set_map_values: "set (map_values ks m) = {v. \<exists>k \<in> set ks. m k = Some v}"
  by (induction ks) (auto split: option.splits)

lemma iterates_ran: "iterates ks m \<Longrightarrow> set (map_values ks m) = ran m"
  by (auto simp: set_map_values iterates_def ran_def)

lemma length_map_values_iterates: "iterates ks m \<Longrightarrow> length (map_values ks m) = card (dom m)"
proof -
  have "length (map_values ks m) = length (filter (\<lambda>k. k \<in> dom m) ks)"
    by (induction ks) (auto split: option.splits)
  then show "iterates ks m \<Longrightarrow> ?thesis"
    by (metis distinct_card filter_True iterates_def)
qed

lemma map_values_upd_notin: "k \<notin> set ks \<Longrightarrow> map_values ks (m(k \<mapsto> v)) = map_values ks m"
  by (induction ks) (auto split: option.splits)

lemma map_values_del_notin: "k \<notin> set ks \<Longrightarrow> map_values ks (m(k := None)) = map_values ks m"
  by (induction ks) (auto split: option.splits)

text \<open>Updating one key of a distinct order changes exactly that key's value.\<close>

lemma length_filter_map_values_upd:
  assumes "distinct ks" and "k \<in> set ks" and "m k = Some v"
  shows "length (filter P (map_values ks (m(k \<mapsto> v')))) + (if P v then 1 else 0)
       = length (filter P (map_values ks m)) + (if P v' then 1 else 0)"
  using assms
proof (induction ks)
  case Nil
  then show ?case by simp
next
  case (Cons a ks)
  show ?case
  proof (cases "a = k")
    case True
    with Cons.prems have "map_values ks (m(k \<mapsto> v')) = map_values ks m"
      by (intro map_values_upd_notin) simp
    with True Cons.prems show ?thesis by (simp del: fun_upd_apply add: fun_upd_same)
  next
    case False
    with Cons show ?thesis by (auto split: option.splits)
  qed
qed

end
