(* ===== verification/GoStrings.thy ===== *)
theory GoStrings
  imports Prelude
begin

text \<open>
  The functions of Go's packages \<open>strings\<close> and \<open>strconv\<close> that the program uses.
  A Go string is a list of bytes, here \<open>string\<close>. \<open>trim_space\<close> removes every code point
  that \<open>unicode.IsSpace\<close> accepts, by its UTF-8 encoding. Upper and lower case are those
  of ASCII: symbols, intervals, market names and codes are ASCII.
\<close>

subsection \<open>TrimSpace\<close>

definition go_spaces :: "string list" where
  "go_spaces =
    [[CHR 0x09], [CHR 0x0A], [CHR 0x0B], [CHR 0x0C], [CHR 0x0D], [CHR 0x20],
     [CHR 0xC2, CHR 0x85], [CHR 0xC2, CHR 0xA0], [CHR 0xE1, CHR 0x9A, CHR 0x80],
     [CHR 0xE2, CHR 0x80, CHR 0x80], [CHR 0xE2, CHR 0x80, CHR 0x81],
     [CHR 0xE2, CHR 0x80, CHR 0x82], [CHR 0xE2, CHR 0x80, CHR 0x83],
     [CHR 0xE2, CHR 0x80, CHR 0x84], [CHR 0xE2, CHR 0x80, CHR 0x85],
     [CHR 0xE2, CHR 0x80, CHR 0x86], [CHR 0xE2, CHR 0x80, CHR 0x87],
     [CHR 0xE2, CHR 0x80, CHR 0x88], [CHR 0xE2, CHR 0x80, CHR 0x89],
     [CHR 0xE2, CHR 0x80, CHR 0x8A], [CHR 0xE2, CHR 0x80, CHR 0xA8],
     [CHR 0xE2, CHR 0x80, CHR 0xA9], [CHR 0xE2, CHR 0x80, CHR 0xAF],
     [CHR 0xE2, CHR 0x81, CHR 0x9F], [CHR 0xE3, CHR 0x80, CHR 0x80]]"

definition lead_of :: "string list \<Rightarrow> string \<Rightarrow> string option" where
  "lead_of rs s = find (\<lambda>r. r \<noteq> [] \<and> take (length r) s = r) rs"

lemma lead_of_Some: "lead_of rs s = Some r \<Longrightarrow> r \<noteq> [] \<and> take (length r) s = r \<and> r \<in> set rs"
  by (auto simp: lead_of_def dest: find_Some_mem)

function trim_by :: "string list \<Rightarrow> string \<Rightarrow> string" where
  "trim_by rs s = (case lead_of rs s of None \<Rightarrow> s | Some r \<Rightarrow> trim_by rs (drop (length r) s))"
  by pat_completeness auto
termination
proof (relation "measure (\<lambda>(rs, s). length s)")
  fix rs s r
  assume "lead_of rs s = Some r"
  then have "r \<noteq> []" and "take (length r) s = r" by (auto dest: lead_of_Some)
  then have "0 < length r" and "length r \<le> length s"
    by (simp, metis length_take min.cobounded1)
  then have "length s - length r < length s" by linarith
  then show "((rs, drop (length r) s), rs, s) \<in> measure (\<lambda>(rs, s). length s)" by simp
qed simp

declare trim_by.simps [simp del]

definition trim_space :: "string \<Rightarrow> string" where
  "trim_space s = rev (trim_by (map rev go_spaces) (rev (trim_by go_spaces s)))"

lemma trim_by_no_lead: "lead_of rs (trim_by rs s) = None"
proof (induction rs s rule: trim_by.induct)
  case (1 rs s)
  then show ?case by (subst trim_by.simps) (simp split: option.split)
qed

lemma trim_by_None: "lead_of rs s = None \<Longrightarrow> trim_by rs s = s"
  by (simp add: trim_by.simps)

text \<open>What is trimmed is a prefix: the result is a suffix of the argument.\<close>

lemma trim_by_suffix: "\<exists>n. trim_by rs s = drop n s"
proof (induction rs s rule: trim_by.induct)
  case (1 rs s)
  show ?case
  proof (cases "lead_of rs s")
    case None
    then have "trim_by rs s = drop 0 s" by (simp add: trim_by_None)
    then show ?thesis ..
  next
    case (Some r)
    with "1" obtain n where "trim_by rs (drop (length r) s) = drop n (drop (length r) s)" by blast
    with Some have "trim_by rs s = drop (n + length r) s" by (simp add: trim_by.simps [of rs s])
    then show ?thesis ..
  qed
qed

lemma lead_of_take: "lead_of rs s = None \<Longrightarrow> lead_of rs (take n s) = None"
  unfolding lead_of_def find_None_iff_all
  by (metis min.absorb1 length_take take_take min.commute nat_le_linear take_all_iff)

lemma trim_space_prefix_of_left: "\<exists>n. trim_space s = take n (trim_by go_spaces s)"
proof -
  let ?l = "trim_by go_spaces s"
  obtain n where "trim_by (map rev go_spaces) (rev ?l) = drop n (rev ?l)"
    using trim_by_suffix by blast
  then have "trim_space s = take (length ?l - n) ?l"
    by (simp add: trim_space_def rev_drop)
  then show ?thesis ..
qed

lemma trim_space_idem [simp]: "trim_space (trim_space s) = trim_space s"
proof -
  obtain n where n: "trim_space s = take n (trim_by go_spaces s)"
    using trim_space_prefix_of_left by blast
  have "lead_of go_spaces (trim_space s) = None"
    unfolding n by (rule lead_of_take) (rule trim_by_no_lead)
  then have l: "trim_by go_spaces (trim_space s) = trim_space s" by (rule trim_by_None)
  have "rev (trim_space s) = trim_by (map rev go_spaces) (rev (trim_by go_spaces s))"
    by (simp add: trim_space_def)
  then have "lead_of (map rev go_spaces) (rev (trim_space s)) = None"
    by (simp add: trim_by_no_lead)
  then show ?thesis by (simp add: trim_space_def [of "trim_space s"] l trim_by_None)
qed

lemma trim_space_Nil [simp]: "trim_space [] = []"
  by code_simp

lemma length_trim_space: "length (trim_space s) \<le> length s"
proof -
  obtain n where "trim_space s = take n (trim_by go_spaces s)"
    using trim_space_prefix_of_left by blast
  moreover obtain m where "trim_by go_spaces s = drop m s" using trim_by_suffix by blast
  ultimately show ?thesis by simp
qed

text \<open>A string whose bytes all lie outside the first and last bytes of the space
  encodings is unchanged. It covers every numeral, symbol and identifier.\<close>

definition plain_char :: "char \<Rightarrow> bool" where
  "plain_char c \<longleftrightarrow> (\<forall>r \<in> set go_spaces. c \<noteq> hd r \<and> c \<noteq> last r)"

lemma lead_of_plain:
  assumes "\<forall>c \<in> set s. \<forall>r \<in> set rs. c \<noteq> hd r"
  shows "lead_of rs s = None"
proof (cases s)
  case Nil
  then show ?thesis by (auto simp: lead_of_def find_None_iff_all)
next
  case (Cons c t)
  have "\<not> (r \<noteq> [] \<and> take (length r) s = r)" if "r \<in> set rs" for r
  proof
    assume "r \<noteq> [] \<and> take (length r) s = r"
    then have "hd r = c" using Cons by (cases r) auto
    with assms Cons that show False by auto
  qed
  then show ?thesis by (simp add: lead_of_def find_None_iff_all)
qed

lemma trim_space_plain:
  assumes "\<forall>c \<in> set s. plain_char c"
  shows "trim_space s = s"
proof -
  have nonempty: "\<forall>r \<in> set go_spaces. r \<noteq> []" by (simp add: go_spaces_def)
  have "lead_of go_spaces s = None"
    by (rule lead_of_plain) (use assms in \<open>auto simp: plain_char_def\<close>)
  moreover have "lead_of (map rev go_spaces) (rev s) = None"
    by (rule lead_of_plain)
       (use assms nonempty in \<open>auto simp: plain_char_def hd_rev\<close>)
  ultimately show ?thesis by (simp add: trim_space_def trim_by_None)
qed

text \<open>What trimming leaves alone, and what stays trimmed when something that is no part of a space
  is put in front.\<close>

lemma trim_space_fixed_iff:
  "trim_space s = s \<longleftrightarrow> lead_of go_spaces s = None \<and> lead_of (map rev go_spaces) (rev s) = None"
proof
  assume t: "trim_space s = s"
  obtain n where n: "trim_space s = take n (trim_by go_spaces s)"
    using trim_space_prefix_of_left by blast
  have l: "lead_of go_spaces s = None"
    using lead_of_take [OF trim_by_no_lead [of go_spaces s], of n] n t by simp
  have "rev s = trim_by (map rev go_spaces) (rev (trim_by go_spaces s))"
    using t unfolding trim_space_def by (metis rev_rev_ident)
  then have "lead_of (map rev go_spaces) (rev s) = None" by (simp add: trim_by_no_lead)
  with l show "lead_of go_spaces s = None \<and> lead_of (map rev go_spaces) (rev s) = None" ..
qed (simp add: trim_space_def trim_by_None)

lemma lead_of_append:
  assumes "lead_of rs s = None" and "\<forall>r \<in> set rs. c \<notin> set r"
  shows "lead_of rs (s @ c # t) = None"
proof -
  have "\<not> (r \<noteq> [] \<and> take (length r) (s @ c # t) = r)" if r: "r \<in> set rs" for r
  proof
    assume a: "r \<noteq> [] \<and> take (length r) (s @ c # t) = r"
    show False
    proof (cases "length r \<le> length s")
      case True
      then show False using a assms(1) r by (auto simp: lead_of_def find_None_iff_all)
    next
      case False
      then have "c \<in> set (take (length r) (s @ c # t))" by (cases "length r - length s") auto
      with a have "c \<in> set r" by (metis (no_types))
      then show False using assms(2) r by blast
    qed
  qed
  then show ?thesis by (auto simp: lead_of_def find_None_iff_all)
qed

lemma trim_space_cons:
  assumes "trim_space s = s" and "\<forall>r \<in> set go_spaces. c \<notin> set r"
  shows "trim_space (c # s) = c # s"
proof -
  have "\<forall>r \<in> set go_spaces. r \<noteq> []" by (simp add: go_spaces_def)
  then have "lead_of go_spaces (c # s) = None"
    using assms(2) by (auto simp: lead_of_def find_None_iff_all) (metis hd_in_set list.sel(1) take_Cons')
  moreover have "lead_of (map rev go_spaces) (rev s @ [c]) = None"
    using assms by (intro lead_of_append) (auto simp: trim_space_fixed_iff)
  ultimately show ?thesis by (simp add: trim_space_fixed_iff)
qed

subsection \<open>Prefixes, suffixes, replacement\<close>

definition has_prefix :: "string \<Rightarrow> string \<Rightarrow> bool" where
  "has_prefix s p \<longleftrightarrow> take (length p) s = p"

definition has_suffix :: "string \<Rightarrow> string \<Rightarrow> bool" where
  "has_suffix s p \<longleftrightarrow> has_prefix (rev s) (rev p)"

definition trim_prefix :: "string \<Rightarrow> string \<Rightarrow> string" where
  "trim_prefix s p = (if has_prefix s p then drop (length p) s else s)"

definition trim_suffix :: "string \<Rightarrow> string \<Rightarrow> string" where
  "trim_suffix s p = (if has_suffix s p then take (length s - length p) s else s)"

lemma has_prefix_append [simp]: "has_prefix (p @ s) p"
  by (simp add: has_prefix_def)

lemma trim_prefix_append [simp]: "trim_prefix (p @ s) p = s"
  by (simp add: trim_prefix_def)

lemma has_suffix_append [simp]: "has_suffix (s @ p) p"
  by (simp add: has_suffix_def)

lemma trim_suffix_append [simp]: "trim_suffix (s @ p) p = s"
  by (simp add: trim_suffix_def)

definition replace_char :: "char \<Rightarrow> char \<Rightarrow> string \<Rightarrow> string" where
  "replace_char a b = map (\<lambda>c. if c = a then b else c)"

text \<open>\<open>strings.Split\<close> with a one-byte separator, and \<open>strings.Join\<close>.\<close>

fun split_on :: "char \<Rightarrow> string \<Rightarrow> string list" where
  "split_on d [] = [[]]"
| "split_on d (c # cs) =
     (if c = d then [] # split_on d cs
      else (case split_on d cs of [] \<Rightarrow> [[c]] | p # ps \<Rightarrow> (c # p) # ps))"

fun join_with :: "string \<Rightarrow> string list \<Rightarrow> string" where
  "join_with d [] = []"
| "join_with d [p] = p"
| "join_with d (p # q # ps) = p @ d @ join_with d (q # ps)"

lemma split_on_nonempty [simp]: "split_on d s \<noteq> []"
  by (induction s) (auto split: list.splits)

lemma join_split: "join_with [d] (split_on d s) = s"
proof (induction s)
  case Nil
  then show ?case by simp
next
  case (Cons c s)
  obtain p ps where ps: "split_on d s = p # ps" by (cases "split_on d s") auto
  with Cons show ?case by (cases ps) auto
qed

lemma split_on_nosep: "d \<notin> set s \<Longrightarrow> split_on d s = [s]"
  by (induction s) auto

lemma split_on_append: "d \<notin> set s \<Longrightarrow> split_on d (s @ d # t) = s # split_on d t"
  by (induction s) auto

lemma split_join: "ps \<noteq> [] \<Longrightarrow> \<forall>p \<in> set ps. c \<notin> set p \<Longrightarrow> split_on c (join_with [c] ps) = ps"
  by (induction "[c]" ps rule: join_with.induct) (auto simp: split_on_nosep split_on_append)

lemma split_on_parts: "p \<in> set (split_on c s) \<Longrightarrow> c \<notin> set p \<and> set p \<subseteq> set s"
proof (induction s arbitrary: p)
  case Nil
  then show ?case by simp
next
  case (Cons d s)
  obtain q qs where q: "split_on c s = q # qs" by (cases "split_on c s") auto
  with Cons show ?case by (fastforce split: if_splits)
qed

subsection \<open>Case mapping\<close>

definition to_lower_char :: "char \<Rightarrow> char" where
  "to_lower_char c = (let n = (of_char c :: nat) in if 65 \<le> n \<and> n \<le> 90 then char_of (n + 32) else c)"

definition to_upper_char :: "char \<Rightarrow> char" where
  "to_upper_char c = (let n = (of_char c :: nat) in if 97 \<le> n \<and> n \<le> 122 then char_of (n - 32) else c)"

definition to_lower :: "string \<Rightarrow> string" where
  "to_lower = map to_lower_char"

definition to_upper :: "string \<Rightarrow> string" where
  "to_upper = map to_upper_char"

definition equal_fold :: "string \<Rightarrow> string \<Rightarrow> bool" where
  "equal_fold a b \<longleftrightarrow> to_lower a = to_lower b"

lemma equal_fold_refl [simp]: "equal_fold a a"
  by (simp add: equal_fold_def)

lemma to_upper_char_idem [simp]: "to_upper_char (to_upper_char c) = to_upper_char c"
proof -
  have "(of_char c :: nat) < 256" by (cases c) (simp add: of_char_def)
  then show ?thesis by (auto simp: to_upper_char_def Let_def)
qed

lemma to_upper_idem [simp]: "to_upper (to_upper s) = to_upper s"
  by (simp add: to_upper_def)

subsection \<open>Decimal digits\<close>

definition digit :: "nat \<Rightarrow> char" where
  "digit n = char_of (48 + n)"

definition digit_val :: "char \<Rightarrow> nat" where
  "digit_val c = of_char c - 48"

definition is_digit :: "char \<Rightarrow> bool" where
  "is_digit c \<longleftrightarrow> 48 \<le> (of_char c :: nat) \<and> (of_char c :: nat) \<le> 57"

lemma digit_val_digit [simp]: "n < 10 \<Longrightarrow> digit_val (digit n) = n"
  by (simp add: digit_def digit_val_def)

lemma is_digit_digit [simp]: "n < 10 \<Longrightarrow> is_digit (digit n)"
  by (simp add: digit_def is_digit_def)

fun show_nat :: "nat \<Rightarrow> string" where
  "show_nat n = (if n < 10 then [digit n] else show_nat (n div 10) @ [digit (n mod 10)])"

declare show_nat.simps [simp del]

text \<open>\<open>strconv.Itoa\<close>.\<close>

definition show_int :: "int \<Rightarrow> string" where
  "show_int i = (if i < 0 then CHR ''-'' # show_nat (nat (- i)) else show_nat (nat i))"

definition nat_of_digits :: "string \<Rightarrow> nat" where
  "nat_of_digits s = foldl (\<lambda>a c. 10 * a + digit_val c) 0 s"

lemma show_nat_nonempty [simp]: "show_nat n \<noteq> []"
  by (subst show_nat.simps) simp

lemma show_nat_digits: "c \<in> set (show_nat n) \<Longrightarrow> is_digit c"
proof (induction n rule: show_nat.induct)
  case (1 n)
  then show ?case by (subst (asm) (2) show_nat.simps) (auto split: if_splits)
qed

lemma nat_of_digits_show_nat [simp]: "nat_of_digits (show_nat n) = n"
proof (induction n rule: show_nat.induct)
  case (1 n)
  show ?case
  proof (cases "n < 10")
    case True
    then show ?thesis by (subst show_nat.simps) (simp add: nat_of_digits_def)
  next
    case False
    with "1" have "nat_of_digits (show_nat (n div 10)) = n div 10" by simp
    with False show ?thesis by (subst show_nat.simps) (simp add: nat_of_digits_def)
  qed
qed

lemma foldl_zeros:
  "foldl (\<lambda>a c. 10 * a + digit_val c) 0 (replicate k (digit 0) @ s)
   = foldl (\<lambda>a c. 10 * a + digit_val c) 0 s"
proof (induction k)
  case 0
  then show ?case by simp
next
  case (Suc k)
  then show ?case by (simp del: foldl_append)
qed

lemma nat_of_digits_pad [simp]: "nat_of_digits (replicate k (digit 0) @ s) = nat_of_digits s"
  by (simp add: nat_of_digits_def foldl_zeros del: foldl_append)

lemma plain_char_digit: "is_digit c \<Longrightarrow> plain_char c"
  unfolding is_digit_def plain_char_def go_spaces_def by auto

lemma plain_char_minus_dot [simp]: "plain_char (CHR ''-'')" "plain_char (CHR ''.'')"
  by (simp_all add: plain_char_def go_spaces_def)

text \<open>The \<open>%q\<close> verb on a string with nothing to escape.\<close>

definition quoted :: "string \<Rightarrow> string" where
  "quoted s = ''\"'' @ s @ ''\"''"

end
