(* ===== verification/Decimals.thy ===== *)
theory Decimals
  imports GoStrings Complex_Main
begin

text \<open>
  The \<open>shopspring/decimal\<close> library the program computes with. A \<open>decimal.Decimal\<close> is
  documented as an arbitrary-precision number of the form coefficient times a power of
  ten: the type \<open>decimal\<close> is the set of these rationals. \<open>Add\<close>, \<open>Sub\<close>, \<open>Mul\<close>,
  \<open>Abs\<close>, \<open>Cmp\<close> and the predicates built on it, \<open>Floor\<close>, \<open>Truncate(0)\<close> and
  \<open>Mod\<close> are exact, and are the operations of the type. What depends on the library's
  own choices is a parameter of the model, a record \<open>decimal_lib\<close>: parsing
  (\<open>NewFromString\<close>), printing (\<open>String\<close>, \<open>StringFixed(2)\<close>) and the rounded
  quotient (\<open>Div\<close>). What the program relies on about these four is the locale
  \<open>decimal_laws\<close>; it is interpreted on a complete implementation, \<open>ref_lib\<close>.
\<close>

subsection \<open>The numbers\<close>

typedef decimal = "{q :: rat. \<exists>(c::int) (n::nat). q = of_int c / 10 ^ n}"
  morphisms val Abs_decimal
proof
  show "0 \<in> {q :: rat. \<exists>(c::int) (n::nat). q = of_int c / 10 ^ n}"
    by (auto intro!: exI [of _ 0])
qed

setup_lifting type_definition_decimal

lemma dec_closed_add:
  "\<exists>(e::int) (k::nat). of_int c / 10 ^ n + of_int d / 10 ^ m = (of_int e / 10 ^ k :: rat)"
proof -
  have "of_int c / 10 ^ n + of_int d / 10 ^ m
      = (of_int (c * 10 ^ m + d * 10 ^ n) / 10 ^ (n + m) :: rat)"
    by (simp add: field_simps power_add)
  then show ?thesis by blast
qed

lemma dec_closed_mult:
  "\<exists>(e::int) (k::nat). of_int c / 10 ^ n * (of_int d / 10 ^ m) = (of_int e / 10 ^ k :: rat)"
proof -
  have "of_int c / 10 ^ n * (of_int d / 10 ^ m) = (of_int (c * d) / 10 ^ (n + m) :: rat)"
    by (simp add: field_simps power_add)
  then show ?thesis by blast
qed

lemma dec_closed_uminus: "\<exists>(e::int) (k::nat). - (of_int c / 10 ^ n) = (of_int e / 10 ^ k :: rat)"
  by (metis minus_divide_left of_int_minus)

lemma dec_closed_int: "\<exists>(e::int) (k::nat). of_int c = (of_int e / 10 ^ k :: rat)"
  by (metis div_by_1 power_0)

instantiation decimal :: linordered_idom
begin
lift_definition zero_decimal :: decimal is "0 :: rat"
  using dec_closed_int [of 0] by simp
lift_definition one_decimal :: decimal is "1 :: rat"
  using dec_closed_int [of 1] by simp
lift_definition plus_decimal :: "decimal \<Rightarrow> decimal \<Rightarrow> decimal" is "\<lambda>x y. x + y"
  using dec_closed_add by blast
lift_definition uminus_decimal :: "decimal \<Rightarrow> decimal" is "\<lambda>x. - x"
  using dec_closed_uminus by blast
lift_definition minus_decimal :: "decimal \<Rightarrow> decimal \<Rightarrow> decimal" is "\<lambda>x y. x - y"
  using dec_closed_add dec_closed_uminus unfolding diff_conv_add_uminus by metis
lift_definition times_decimal :: "decimal \<Rightarrow> decimal \<Rightarrow> decimal" is "\<lambda>x y. x * y"
  using dec_closed_mult by blast
lift_definition less_eq_decimal :: "decimal \<Rightarrow> decimal \<Rightarrow> bool" is "\<lambda>x y. x \<le> y" .
lift_definition less_decimal :: "decimal \<Rightarrow> decimal \<Rightarrow> bool" is "\<lambda>x y. x < y" .
lift_definition abs_decimal :: "decimal \<Rightarrow> decimal" is "\<lambda>x. \<bar>x\<bar>"
  using dec_closed_uminus by (metis abs_if)
lift_definition sgn_decimal :: "decimal \<Rightarrow> decimal" is "\<lambda>x. sgn x"
  using dec_closed_int by (metis of_int_0 of_int_1 of_int_minus sgn_if)
instance
proof
  fix a b c :: decimal
  show "a + b + c = a + (b + c)" by transfer simp
  show "a + b = b + a" by transfer simp
  show "0 + a = a" by transfer simp
  show "- a + a = 0" by transfer simp
  show "a - b = a + - b" by transfer simp
  show "a + b - a = b" by transfer simp
  show "a - b - c = a - (b + c)" by transfer simp
  show "0 * a = 0" by transfer simp
  show "a * 0 = 0" by transfer simp
  show "a * b * c = a * (b * c)" by transfer simp
  show "a * b = b * a" by transfer simp
  show "1 * a = a" by transfer simp
  show "(a + b) * c = a * c + b * c" by transfer (simp add: algebra_simps)
  show "(0::decimal) \<noteq> 1" by transfer simp
  show "(a < b) = (a \<le> b \<and> \<not> b \<le> a)" by transfer (simp add: less_le_not_le)
  show "a \<le> a" by transfer simp
  show "a \<le> b \<Longrightarrow> b \<le> c \<Longrightarrow> a \<le> c" by transfer simp
  show "a \<le> b \<Longrightarrow> b \<le> a \<Longrightarrow> a = b" by transfer simp
  show "a \<le> b \<or> b \<le> a" by transfer (rule linear)
  show "a \<le> b \<Longrightarrow> c + a \<le> c + b" by transfer simp
  show "a < b \<Longrightarrow> 0 < c \<Longrightarrow> c * a < c * b" by transfer simp
  show "\<bar>a\<bar> = (if a < 0 then - a else a)" by transfer (simp add: abs_if)
  show "sgn a = (if a = 0 then 0 else if 0 < a then 1 else - 1)" by transfer (simp add: sgn_if)
qed
end

lemma val_arith [simp]:
  "val 0 = 0" "val 1 = 1" "val (x + y) = val x + val y" "val (x - y) = val x - val y"
  "val (- x) = - val x" "val (x * y) = val x * val y" "val \<bar>x\<bar> = \<bar>val x\<bar>"
  by (simp_all add: zero_decimal.rep_eq one_decimal.rep_eq plus_decimal.rep_eq
        minus_decimal.rep_eq uminus_decimal.rep_eq times_decimal.rep_eq abs_decimal.rep_eq)

lemma val_le_iff: "x \<le> y \<longleftrightarrow> val x \<le> val y"
  by (rule less_eq_decimal.rep_eq)

lemma val_less_iff: "x < y \<longleftrightarrow> val x < val y"
  by (rule less_decimal.rep_eq)

lemma val_eq_iff: "x = y \<longleftrightarrow> val x = val y"
  by (simp add: val_inject)

lemma val_of_nat [simp]: "val (of_nat n) = of_nat n"
  by (induction n) simp_all

lemma val_of_int [simp]: "val (of_int i) = of_int i"
  by (cases i rule: int_diff_cases) simp

lemma val_numeral [simp]: "val (numeral k) = numeral k"
  using val_of_nat [of "numeral k"] by simp

instantiation decimal :: equal
begin
definition equal_decimal :: "decimal \<Rightarrow> decimal \<Rightarrow> bool" where
  "equal_decimal x y \<longleftrightarrow> val x = val y"
instance
  by intro_classes (simp add: equal_decimal_def val_eq_iff)
end

text \<open>\<open>decimal.New(c, -n)\<close>.\<close>

lift_definition dec :: "int \<Rightarrow> nat \<Rightarrow> decimal" is "\<lambda>c n. of_int c / 10 ^ n"
  by blast

lemma val_dec [simp]: "val (dec c n) = of_int c / 10 ^ n"
  by (rule dec.rep_eq)

lemma decimal_cases: obtains c n where "d = dec c n"
  by transfer blast

lemmas val_simps = val_le_iff val_less_iff val_eq_iff

text \<open>\<open>Floor\<close>, \<open>Truncate(0)\<close> and \<open>Mod\<close> (the remainder of the truncated quotient,
  with the sign of the dividend; the callers check that the divisor is positive).\<close>

lift_definition dec_floor :: "decimal \<Rightarrow> decimal" is "\<lambda>x. of_int \<lfloor>x\<rfloor>"
  using dec_closed_int by blast

lift_definition dec_trunc :: "decimal \<Rightarrow> decimal" is
  "\<lambda>x. of_int (if 0 \<le> x then \<lfloor>x\<rfloor> else \<lceil>x\<rceil>)"
  using dec_closed_int by blast

lift_definition dec_mod :: "decimal \<Rightarrow> decimal \<Rightarrow> decimal" is
  "\<lambda>x y. x - y * of_int (if 0 \<le> x / y then \<lfloor>x / y\<rfloor> else \<lceil>x / y\<rceil>)"
proof -
  fix x y :: rat
  assume x: "\<exists>(c::int) (n::nat). x = of_int c / 10 ^ n" and y: "\<exists>(c::int) (n::nat). y = of_int c / 10 ^ n"
  define k where "k = (if 0 \<le> x / y then \<lfloor>x / y\<rfloor> else \<lceil>x / y\<rceil>)"
  from y have "\<exists>(c::int) (n::nat). y * of_int k = of_int c / 10 ^ n"
    by (metis dec_closed_int dec_closed_mult)
  then have "\<exists>(c::int) (n::nat). - (y * of_int k) = of_int c / 10 ^ n"
    using dec_closed_uminus by metis
  with x have "\<exists>(c::int) (n::nat). x - y * of_int k = of_int c / 10 ^ n"
    using dec_closed_add unfolding diff_conv_add_uminus by metis
  then show "\<exists>(c::int) (n::nat). x - y * of_int (if 0 \<le> x / y then \<lfloor>x / y\<rfloor> else \<lceil>x / y\<rceil>) = of_int c / 10 ^ n"
    by (simp add: k_def)
qed

lemma dec_floor_le: "dec_floor x \<le> x"
  by (simp add: val_simps dec_floor.rep_eq)

lemma dec_floor_nonneg: "0 \<le> x \<Longrightarrow> 0 \<le> dec_floor x"
  by (simp add: val_simps dec_floor.rep_eq)

lemma dec_trunc_of_int [simp]: "dec_trunc (of_int k) = of_int k"
  by (simp add: val_simps dec_trunc.rep_eq)

lemma dec_trunc_le: "0 \<le> x \<Longrightarrow> dec_trunc x \<le> x"
  by (simp add: val_simps dec_trunc.rep_eq)

lemma dec_trunc_nonneg: "0 \<le> x \<Longrightarrow> 0 \<le> dec_trunc x"
  by (simp add: val_simps dec_trunc.rep_eq)

lemma dec_trunc_fixed_iff: "x = dec_trunc x \<longleftrightarrow> (\<exists>k. x = of_int k)"
proof
  assume "x = dec_trunc x"
  then have "val x = of_int (if 0 \<le> val x then \<lfloor>val x\<rfloor> else \<lceil>val x\<rceil>)"
    by (metis dec_trunc.rep_eq)
  then show "\<exists>k. x = of_int k" by (metis val_eq_iff val_of_int)
qed (auto simp: val_eq_iff dec_trunc.rep_eq)

lemma dec_floor_int: "\<exists>k. dec_floor x = of_int k"
  by (rule exI [of _ "\<lfloor>val x\<rfloor>"]) (simp add: val_eq_iff dec_floor.rep_eq)

text \<open>A number is aligned to a positive step exactly when it is an integer multiple.\<close>

lemma dec_mod_zero_iff:
  assumes "0 < y"
  shows "dec_mod x y = 0 \<longleftrightarrow> (\<exists>k. x = of_int k * y)"
proof
  assume "dec_mod x y = 0"
  then have "val x = val y * of_int (if 0 \<le> val x / val y then \<lfloor>val x / val y\<rfloor> else \<lceil>val x / val y\<rceil>)"
    by (simp add: val_eq_iff dec_mod.rep_eq)
  then show "\<exists>k. x = of_int k * y"
    by (intro exI [of _ "if 0 \<le> val x / val y then \<lfloor>val x / val y\<rfloor> else \<lceil>val x / val y\<rceil>"])
       (simp only: val_eq_iff val_arith val_of_int mult.commute)
next
  assume "\<exists>k. x = of_int k * y"
  then obtain k where "x = of_int k * y" ..
  with assms show "dec_mod x y = 0"
    by (simp add: val_eq_iff val_less_iff dec_mod.rep_eq)
qed

subsection \<open>The library interface\<close>

record decimal_lib =
  dec_parse :: "string \<Rightarrow> decimal option"
  dec_string :: "decimal \<Rightarrow> string"
  dec_fixed2 :: "decimal \<Rightarrow> string"
  dec_div :: "decimal \<Rightarrow> decimal \<Rightarrow> decimal"

text \<open>\<open>d, _ := decimal.NewFromString(s)\<close>: a failed parse returns the zero value.\<close>

definition parse0 :: "decimal_lib \<Rightarrow> string \<Rightarrow> decimal" where
  "parse0 D s = (case dec_parse D s of None \<Rightarrow> 0 | Some d \<Rightarrow> d)"

text \<open>The laws: printing can be read back, prints neither letters nor spaces, the empty
  string is no number, and a quotient is within half a unit of the sixteenth decimal place
  (\<open>DivisionPrecision\<close>) of the exact one.\<close>

locale decimal_laws =
  fixes D :: decimal_lib
  assumes parse_string: "dec_parse D (dec_string D x) = Some x"
    and string_chars: "set (dec_string D x) \<subseteq> set ''-.0123456789''"
    and parse_empty: "dec_parse D [] = None"
    and div_accuracy: "y \<noteq> 0 \<Longrightarrow> \<bar>val (dec_div D x y) - val x / val y\<bar> \<le> 1 / (2 * 10 ^ 16)"
begin

lemma trim_string: "trim_space (dec_string D x) = dec_string D x"
proof (rule trim_space_plain)
  have "\<forall>c \<in> set ''-.0123456789''. plain_char c"
    by (simp add: plain_char_def go_spaces_def)
  then show "\<forall>c \<in> set (dec_string D x). plain_char c" using string_chars by blast
qed

lemma parse_trim_string: "dec_parse D (trim_space (dec_string D x)) = Some x"
  by (simp add: trim_string parse_string)

lemma parse0_string: "parse0 D (dec_string D x) = x"
  by (simp add: parse0_def parse_string)

lemma string_nonempty: "dec_string D x \<noteq> []"
  using parse_string [of x] parse_empty by auto

lemma string_inj: "dec_string D x = dec_string D y \<Longrightarrow> x = y"
  by (metis option.inject parse_string)

text \<open>A whole number of units below a quotient is below it up to the rounding.\<close>

lemma floor_div_bound:
  assumes "0 < y"
  shows "val (dec_floor (dec_div D x y)) \<le> val x / val y + 1 / (2 * 10 ^ 16)"
proof -
  have "val (dec_floor (dec_div D x y)) \<le> val (dec_div D x y)"
    using dec_floor_le by (simp add: val_le_iff)
  moreover have "\<bar>val (dec_div D x y) - val x / val y\<bar> \<le> 1 / (2 * 10 ^ 16)"
    using assms by (intro div_accuracy) auto
  ultimately show ?thesis by linarith
qed

end

end
