(* ===== verification/RefDecimal.thy ===== *)
theory RefDecimal
  imports Decimals
begin

text \<open>
  A complete implementation of the decimal library's interface: plain notation in and out,
  and a quotient rounded half away from zero to sixteen places. It shows that the laws the
  program relies on can hold together, and the examples of the development run on it.
\<close>

subsection \<open>Least scale\<close>

function scale_of :: "nat \<Rightarrow> nat" where
  "scale_of q = (if q = 0 \<or> gcd q 10 = 1 then 0 else Suc (scale_of (q div gcd q 10)))"
  by pat_completeness auto
termination
proof (relation "measure (\<lambda>q. q)")
  fix q :: nat
  assume a: "\<not> (q = 0 \<or> gcd q 10 = 1)"
  then have "0 < q" by simp
  moreover have "1 < gcd q 10" using a by (metis gcd_eq_0_iff less_one linorder_neqE_nat)
  ultimately show "(q div gcd q 10, q) \<in> measure (\<lambda>q. q)" by (simp add: div_less_dividend)
qed simp

declare scale_of.simps [simp del]

lemma dvd_scale_of: "q dvd 10 ^ m \<Longrightarrow> q dvd 10 ^ scale_of q"
proof (induction q rule: scale_of.induct)
  case (1 q)
  show ?case
  proof (cases "q = 0 \<or> gcd q 10 = 1")
    case True
    moreover have "q \<noteq> 0" using "1.prems" by (metis dvd_0_left_iff power_not_zero zero_neq_numeral)
    ultimately have "coprime q 10" by (simp add: coprime_iff_gcd_eq_1)
    then have "coprime q (10 ^ m)" by simp
    with "1.prems" have "q = 1" by (metis coprime_absorb_left nat_dvd_1_iff_1)
    then show ?thesis by simp
  next
    case False
    let ?g = "gcd q 10"
    have q: "q = ?g * (q div ?g)" by simp
    have "q div ?g dvd 10 ^ m" using "1.prems" q by (metis dvd_mult_right)
    with "1.IH" False have "q div ?g dvd 10 ^ scale_of (q div ?g)" by simp
    then have "?g * (q div ?g) dvd 10 * 10 ^ scale_of (q div ?g)" by (intro mult_dvd_mono) simp_all
    with q False show ?thesis by (simp add: scale_of.simps [of q])
  qed
qed

definition num_of :: "decimal \<Rightarrow> int" where
  "num_of d = fst (quotient_of (val d))"

definition den_of :: "decimal \<Rightarrow> int" where
  "den_of d = snd (quotient_of (val d))"

definition scale :: "decimal \<Rightarrow> nat" where
  "scale d = scale_of (nat (den_of d))"

text \<open>The coefficient at the least scale.\<close>

definition coeff :: "decimal \<Rightarrow> nat" where
  "coeff d = nat \<bar>num_of d\<bar> * (10 ^ scale d div nat (den_of d))"

lemma den_pos: "0 < den_of d"
  by (metis den_of_def quotient_of_denom_pos surjective_pairing)

lemma val_quot: "val d = of_int (num_of d) / of_int (den_of d)"
  unfolding num_of_def den_of_def by (rule quotient_of_div) simp

lemma den_dvd: "\<exists>m. nat (den_of d) dvd 10 ^ m"
proof -
  obtain c m where d: "d = dec c m" by (rule decimal_cases)
  have cop: "coprime (num_of d) (den_of d)"
    unfolding num_of_def den_of_def by (metis quotient_of_coprime surjective_pairing)
  have "of_int (num_of d) / of_int (den_of d) = (of_int c / 10 ^ m :: rat)"
    using val_quot [of d] d by simp
  then have "(of_int (num_of d * 10 ^ m) :: rat) = of_int (c * den_of d)"
    using den_pos [of d] by (simp add: field_simps)
  then have "num_of d * 10 ^ m = c * den_of d" by (simp only: of_int_eq_iff)
  then have "den_of d dvd num_of d * 10 ^ m" by simp
  with cop have "den_of d dvd 10 ^ m" by (metis coprime_commute coprime_dvd_mult_right_iff)
  then have "nat (den_of d) dvd nat (10 ^ m)" using den_pos [of d] by (simp add: nat_dvd_iff)
  then have "nat (den_of d) dvd 10 ^ m" by (simp add: nat_power_eq)
  then show ?thesis ..
qed

lemma val_coeff: "val d = (if num_of d < 0 then - 1 else 1) * of_nat (coeff d) / 10 ^ scale d"
proof -
  let ?q = "nat (den_of d)"
  have "?q dvd 10 ^ scale d" using den_dvd dvd_scale_of unfolding scale_def by blast
  then obtain k where k: "10 ^ scale d = ?q * k" ..
  have q: "0 < ?q" using den_pos [of d] by simp
  have coeff: "coeff d = nat \<bar>num_of d\<bar> * k" using q by (simp add: coeff_def k)
  have k': "(10 ^ scale d :: rat) = of_int (den_of d) * of_nat k"
    using arg_cong [OF k, of "of_nat :: nat \<Rightarrow> rat"] q by simp
  have "k \<noteq> 0" using k by (metis mult_0_right power_not_zero zero_neq_numeral)
  then show ?thesis
    unfolding val_quot [of d] k' coeff using den_pos [of d] by (simp add: field_simps)
qed

subsection \<open>Printing and parsing\<close>

definition place_point :: "nat \<Rightarrow> nat \<Rightarrow> string" where
  "place_point c n =
     (let ds = replicate (Suc n - length (show_nat c)) (digit 0) @ show_nat c;
          k = length ds - n
      in if n = 0 then ds else take k ds @ ''.'' @ drop k ds)"

definition ref_string :: "decimal \<Rightarrow> string" where
  "ref_string d = (if num_of d < 0 then ''-'' else []) @ place_point (coeff d) (scale d)"

definition parse_parts :: "int \<Rightarrow> string list \<Rightarrow> decimal option" where
  "parse_parts sg ps =
     (case ps of
        [i] \<Rightarrow> if i \<noteq> [] \<and> (\<forall>c \<in> set i. is_digit c) then Some (dec (sg * int (nat_of_digits i)) 0) else None
      | [i, f] \<Rightarrow> if i @ f \<noteq> [] \<and> (\<forall>c \<in> set (i @ f). is_digit c)
                  then Some (dec (sg * int (nat_of_digits (i @ f))) (length f)) else None
      | _ \<Rightarrow> None)"

definition ref_parse :: "string \<Rightarrow> decimal option" where
  "ref_parse s =
     (case s of
        [] \<Rightarrow> None
      | c # cs \<Rightarrow> if c = CHR ''-'' then parse_parts (- 1) (split_on (CHR ''.'') cs)
                  else if c = CHR ''+'' then parse_parts 1 (split_on (CHR ''.'') cs)
                  else parse_parts 1 (split_on (CHR ''.'') s))"

lemma dot_no_digit: "is_digit c \<Longrightarrow> c \<noteq> CHR ''.'' \<and> c \<noteq> CHR ''-'' \<and> c \<noteq> CHR ''+''"
  by (auto simp: is_digit_def)

definition padded :: "nat \<Rightarrow> nat \<Rightarrow> string" where
  "padded c n = replicate (Suc n - length (show_nat c)) (digit 0) @ show_nat c"

lemma padded_digits: "x \<in> set (padded c n) \<Longrightarrow> is_digit x"
  by (auto simp: padded_def set_replicate_conv_if intro: show_nat_digits split: if_splits)

lemma padded_length: "n < length (padded c n)"
  by (auto simp: padded_def)

lemma padded_value [simp]: "nat_of_digits (padded c n) = c"
  by (simp add: padded_def)

lemma place_point_padded:
  "place_point c n = (if n = 0 then padded c n
     else take (length (padded c n) - n) (padded c n) @ ''.'' @ drop (length (padded c n) - n) (padded c n))"
  by (simp add: place_point_def padded_def Let_def)

lemma parse_place_point:
  "parse_parts sg (split_on (CHR ''.'') (place_point c n)) = Some (dec (sg * int c) n)"
proof (cases "n = 0")
  case True
  have "CHR ''.'' \<notin> set (padded c 0)" using padded_digits dot_no_digit by blast
  moreover have "padded c 0 \<noteq> []" using padded_length [of 0 c] by auto
  ultimately show ?thesis
    using True padded_digits by (simp add: place_point_padded split_on_nosep parse_parts_def)
next
  case False
  let ?p = "padded c n" and ?k = "length (padded c n) - n"
  have dig: "\<forall>x \<in> set ?p. is_digit x" using padded_digits by blast
  then have d1: "CHR ''.'' \<notin> set (take ?k ?p)" and d2: "CHR ''.'' \<notin> set (drop ?k ?p)"
    by (meson dot_no_digit in_set_takeD in_set_dropD)+
  have ne: "?p \<noteq> []" using padded_length [of n c] by auto
  have "split_on (CHR ''.'') (place_point c n) = [take ?k ?p, drop ?k ?p]"
    using False d1 d2 by (simp add: place_point_padded split_on_append split_on_nosep)
  moreover have "length (drop ?k ?p) = n" using padded_length [of n c] by simp
  moreover have "take ?k ?p @ drop ?k ?p = ?p" by simp
  ultimately show ?thesis using dig ne by (simp only: parse_parts_def list.case append_take_drop_id padded_value) simp
qed

lemma place_point_first: "\<exists>x xs. place_point c n = x # xs \<and> is_digit x"
proof -
  obtain y ys where p: "padded c n = y # ys" using padded_length [of n c] by (cases "padded c n") auto
  then have "is_digit y" using padded_digits [of y c n] by simp
  moreover have "place_point c n = y # tl (place_point c n)"
    using p padded_length [of n c] by (cases "length (padded c n) - n") (auto simp: place_point_padded)
  ultimately show ?thesis by blast
qed

lemma ref_parse_string: "ref_parse (ref_string d) = Some d"
proof -
  let ?sg = "if num_of d < 0 then - 1 else 1 :: int"
  obtain x xs where x: "place_point (coeff d) (scale d) = x # xs" "is_digit x"
    using place_point_first by blast
  have "ref_parse (ref_string d) = parse_parts ?sg (split_on (CHR ''.'') (place_point (coeff d) (scale d)))"
    using x dot_no_digit [OF x(2)] by (auto simp: ref_parse_def ref_string_def)
  also have "\<dots> = Some (dec (?sg * int (coeff d)) (scale d))" by (rule parse_place_point)
  also have "dec (?sg * int (coeff d)) (scale d) = d"
    by (simp add: val_eq_iff val_coeff [of d])
  finally show ?thesis .
qed

lemma digit_char_mem: "is_digit c \<Longrightarrow> c \<in> set ''-.0123456789''"
proof -
  assume "is_digit c"
  then have b: "48 \<le> (of_char c :: nat)" "(of_char c :: nat) \<le> 57" by (simp_all add: is_digit_def)
  define n where "n = (of_char c :: nat)"
  have "48 \<le> n" "n \<le> 57" using b by (simp_all add: n_def)
  then have "n = 48 \<or> n = 49 \<or> n = 50 \<or> n = 51 \<or> n = 52 \<or> n = 53 \<or> n = 54 \<or> n = 55 \<or> n = 56 \<or> n = 57"
    by arith
  then have "n \<in> of_char ` set ''0123456789''" by auto
  then have "(of_char c :: nat) \<in> of_char ` set ''0123456789''" by (simp only: n_def)
  then have "c \<in> set ''0123456789''" by (auto simp only: of_char_eq_iff image_iff)
  then show ?thesis by auto
qed

lemma place_point_chars: "set (place_point c n) \<subseteq> set ''-.0123456789''"
proof -
  have p: "set (padded c n) \<subseteq> set ''-.0123456789''"
    using padded_digits digit_char_mem by blast
  have "set (place_point c n) \<subseteq> set (padded c n) \<union> {CHR ''.''}"
    by (auto simp: place_point_padded dest: in_set_takeD in_set_dropD)
  also have "\<dots> \<subseteq> set ''-.0123456789''" using p by auto
  finally show ?thesis .
qed

lemma ref_string_chars: "set (ref_string d) \<subseteq> set ''-.0123456789''"
  using place_point_chars [of "coeff d" "scale d"] by (auto simp: ref_string_def)

subsection \<open>The quotient\<close>

definition round_away :: "rat \<Rightarrow> int" where
  "round_away x = (if 0 \<le> x then \<lfloor>x + 1 / 2\<rfloor> else - \<lfloor>1 / 2 - x\<rfloor>)"

definition ref_div :: "decimal \<Rightarrow> decimal \<Rightarrow> decimal" where
  "ref_div x y = dec (round_away (val x / val y * 10 ^ 16)) 16"

definition ref_fixed2 :: "decimal \<Rightarrow> string" where
  "ref_fixed2 x = (let r = round_away (val x * 100)
     in (if r < 0 then ''-'' else []) @ place_point (nat \<bar>r\<bar>) 2)"

lemma round_away_near: "\<bar>of_int (round_away x) - x\<bar> \<le> 1 / 2"
proof (cases "0 \<le> x")
  case True
  have "of_int \<lfloor>x + 1 / 2\<rfloor> \<le> x + 1 / 2" "x + 1 / 2 < of_int \<lfloor>x + 1 / 2\<rfloor> + 1"
    using floor_correct [of "x + 1 / 2"] by auto
  then show ?thesis using True unfolding round_away_def by (simp only: if_True, linarith?)
next
  case False
  have "of_int \<lfloor>1 / 2 - x\<rfloor> \<le> 1 / 2 - x" "1 / 2 - x < of_int \<lfloor>1 / 2 - x\<rfloor> + 1"
    using floor_correct [of "1 / 2 - x"] by auto
  then show ?thesis using False unfolding round_away_def by (simp only: if_False of_int_minus, linarith?)
qed

lemma ref_div_accuracy: "\<bar>val (ref_div x y) - val x / val y\<bar> \<le> 1 / (2 * 10 ^ 16)"
proof -
  let ?q = "val x / val y" and ?t = "10 ^ 16 :: rat"
  have "val (ref_div x y) - ?q = (of_int (round_away (?q * ?t)) - ?q * ?t) / ?t"
    by (simp add: ref_div_def diff_divide_distrib)
  then have "\<bar>val (ref_div x y) - ?q\<bar> = \<bar>of_int (round_away (?q * ?t)) - ?q * ?t\<bar> / \<bar>?t\<bar>"
    by (simp only: abs_divide)
  also have "\<dots> \<le> (1 / 2) / \<bar>?t\<bar>"
    by (rule divide_right_mono [OF round_away_near]) simp
  also have "(1 / 2) / \<bar>?t\<bar> = 1 / (2 * ?t)" by simp
  finally show ?thesis .
qed

definition ref_lib :: decimal_lib where
  "ref_lib = \<lparr>dec_parse = ref_parse, dec_string = ref_string, dec_fixed2 = ref_fixed2, dec_div = ref_div\<rparr>"

lemma ref_lib_sel [simp]:
  "dec_parse ref_lib = ref_parse" "dec_string ref_lib = ref_string"
  "dec_fixed2 ref_lib = ref_fixed2" "dec_div ref_lib = ref_div"
  by (simp_all add: ref_lib_def)

interpretation ref: decimal_laws ref_lib
proof unfold_locales
  show "dec_parse ref_lib (dec_string ref_lib x) = Some x" for x
    by (simp add: ref_parse_string)
  show "set (dec_string ref_lib x) \<subseteq> set ''-.0123456789''" for x
    using ref_string_chars by simp
  show "dec_parse ref_lib [] = None" by (simp add: ref_parse_def)
  show "\<bar>val (dec_div ref_lib x y) - val x / val y\<bar> \<le> 1 / (2 * 10 ^ 16)" if "y \<noteq> 0" for x y
    unfolding ref_lib_sel by (rule ref_div_accuracy)
qed

end
