(* ===== verification/PerpTypes.thy ===== *)
theory PerpTypes
  imports Decimals
begin

text \<open>
  The exchange vocabulary of \<open>pkg/exchange/perp\<close>: the snapshots an adapter hands to the
  engine, the tagged public and user events, contract names and exchange errors.

  Go's string-based enumerations become datatypes with a constructor for each declared
  constant and one for any other string, which the code can meet and rejects or ignores.
  \<open>perp.Side\<close>, \<open>perp.OrderType\<close> and \<open>perp.OrderStatus\<close> have the same string values as
  their counterparts in \<open>internal/models\<close>, and the code converts between them by a type
  conversion of the string: one datatype serves both.
\<close>

type_synonym contract = string

datatype order_side = Buy | Sell | OtherSide string
datatype order_type = MarketOrder | LimitOrder | OtherType string
datatype pos_side = PosLong | PosShort | OtherPos string
datatype tif = GTC | IOC | FOK | POC | OtherTif string
datatype order_status =
    Pending | Submitted | PartialFilled | Filled | Cancelled | Rejected | OtherStatus string

fun status_str :: "order_status \<Rightarrow> string" where
  "status_str Pending = ''Pending''"
| "status_str Submitted = ''Submitted''"
| "status_str PartialFilled = ''PartialFilled''"
| "status_str Filled = ''Filled''"
| "status_str Cancelled = ''Cancelled''"
| "status_str Rejected = ''Rejected''"
| "status_str (OtherStatus s) = s"

record place_request =
  pr_contract :: contract
  pr_side :: order_side
  pr_type :: order_type
  pr_size :: string
  pr_price :: "string option"
  pr_tif :: tif
  pr_reduce_only :: bool
  pr_client_id :: string

record balance =
  b_currency :: string
  b_total :: string
  b_available :: string
  b_frozen :: string
  b_updated :: go_time

record contract_meta =
  m_contract :: contract
  m_quanto :: string
  m_size_min :: string
  m_size_max :: string
  m_price_step :: string
  m_size_step :: string
  m_decimal_size :: bool

record subscription =
  sub_channel :: string
  sub_contracts :: "contract list"
  sub_payload :: "string list"

subsection \<open>Snapshots\<close>

record balance_update =
  bu_currency :: string
  bu_balance :: string
  bu_change :: string
  bu_change_type :: string
  bu_text :: string
  bu_user :: string
  bu_updated :: go_time

record trade_snapshot =
  t_id :: string
  t_exchange_id :: string
  t_contract :: contract
  t_side :: order_side
  t_size :: string
  t_price :: string
  t_role :: string
  t_fee :: string
  t_point_fee :: string
  t_text :: string
  t_created :: go_time

record order_snapshot =
  os_exchange_id :: string
  os_contract :: contract
  os_side :: order_side
  os_type :: order_type
  os_size :: string
  os_price :: string
  os_filled :: string
  os_avg :: string
  os_status :: order_status
  os_client :: string
  os_created :: go_time
  os_updated :: go_time

record position =
  p_contract :: contract
  p_side :: pos_side
  p_size :: string
  p_entry :: string
  p_mark :: string
  p_pnl :: string
  p_leverage :: int
  p_updated :: go_time

record ticker_snapshot =
  tk_contract :: contract
  tk_last :: string
  tk_mark :: string
  tk_index :: string
  tk_funding :: string
  tk_change :: string
  tk_volume :: string
  tk_volume_base :: string
  tk_volume_quote :: string
  tk_open_interest :: string
  tk_low :: string
  tk_high :: string
  tk_millis :: int

record candle =
  c_contract :: contract
  c_interval :: string
  c_open :: string
  c_high :: string
  c_low :: string
  c_close :: string
  c_volume :: string
  c_volume_base :: string
  c_sec :: int
  c_closed :: bool

subsection \<open>Events\<close>

text \<open>The payload interfaces can only be implemented in the package, by these types.\<close>

datatype public_payload = TickerP ticker_snapshot | CandleP candle
datatype user_payload =
    OrderP order_snapshot | BalanceP balance_update | TradeP trade_snapshot | PositionP position

datatype public_kind = PublicTicker | PublicCandlestick | OtherPublic string
datatype user_kind =
    UserOrderUpdate | UserBalanceUpdate | UserTradeUpdate | UserPositionUpdate | OtherUser string

record public_event =
  pe_kind :: public_kind
  pe_payload :: "public_payload option"

record user_event =
  ue_kind :: user_kind
  ue_payload :: "user_payload option"

fun public_kind_str :: "public_kind \<Rightarrow> string" where
  "public_kind_str PublicTicker = ''Ticker''"
| "public_kind_str PublicCandlestick = ''Candlestick''"
| "public_kind_str (OtherPublic s) = s"

fun user_kind_str :: "user_kind \<Rightarrow> string" where
  "user_kind_str UserOrderUpdate = ''OrderUpdate''"
| "user_kind_str UserBalanceUpdate = ''BalanceUpdate''"
| "user_kind_str UserTradeUpdate = ''TradeUpdate''"
| "user_kind_str UserPositionUpdate = ''PositionUpdate''"
| "user_kind_str (OtherUser s) = s"

text \<open>The validators return the error, if any.\<close>

fun validate_public_kind :: "public_kind \<Rightarrow> public_payload \<Rightarrow> go_error option" where
  "validate_public_kind PublicTicker p =
     (case p of TickerP _ \<Rightarrow> None
      | _ \<Rightarrow> Some (Errorf (''perp: kind '' @ public_kind_str PublicTicker @ '' requires *TickerSnapshot'')))"
| "validate_public_kind PublicCandlestick p =
     (case p of CandleP _ \<Rightarrow> None
      | _ \<Rightarrow> Some (Errorf (''perp: kind '' @ public_kind_str PublicCandlestick @ '' requires *CandlestickSnapshot'')))"
| "validate_public_kind (OtherPublic s) p = Some (Errorf (''perp: unknown public kind '' @ s))"

fun validate_user_kind :: "user_kind \<Rightarrow> user_payload \<Rightarrow> go_error option" where
  "validate_user_kind UserOrderUpdate p =
     (case p of OrderP _ \<Rightarrow> None
      | _ \<Rightarrow> Some (Errorf (''perp: kind '' @ user_kind_str UserOrderUpdate @ '' requires *OrderSnapshot'')))"
| "validate_user_kind UserBalanceUpdate p =
     (case p of BalanceP _ \<Rightarrow> None
      | _ \<Rightarrow> Some (Errorf (''perp: kind '' @ user_kind_str UserBalanceUpdate @ '' requires *BalanceUpdateSnapshot'')))"
| "validate_user_kind UserTradeUpdate p =
     (case p of TradeP _ \<Rightarrow> None
      | _ \<Rightarrow> Some (Errorf (''perp: kind '' @ user_kind_str UserTradeUpdate @ '' requires *TradeSnapshot'')))"
| "validate_user_kind UserPositionUpdate p =
     (case p of PositionP _ \<Rightarrow> None
      | _ \<Rightarrow> Some (Errorf (''perp: kind '' @ user_kind_str UserPositionUpdate @ '' requires *PositionSnapshot'')))"
| "validate_user_kind (OtherUser s) p = Some (Errorf (''perp: unknown user kind '' @ s))"

definition new_public_event :: "public_kind \<Rightarrow> public_payload option \<Rightarrow> public_event result" where
  "new_public_event k po =
     (case po of None \<Rightarrow> Inl (Errorf ''perp: public event payload is nil'')
      | Some p \<Rightarrow> (case validate_public_kind k p of
          Some e \<Rightarrow> Inl e
        | None \<Rightarrow> Inr \<lparr>pe_kind = k, pe_payload = Some p\<rparr>))"

definition new_user_event :: "user_kind \<Rightarrow> user_payload option \<Rightarrow> user_event result" where
  "new_user_event k po =
     (case po of None \<Rightarrow> Inl (Errorf ''perp: user event payload is nil'')
      | Some p \<Rightarrow> (case validate_user_kind k p of
          Some e \<Rightarrow> Inl e
        | None \<Rightarrow> Inr \<lparr>ue_kind = k, ue_payload = Some p\<rparr>))"

text \<open>The accessors: \<open>None\<close> is the code's \<open>ok = false\<close>.\<close>

definition ev_ticker :: "public_event \<Rightarrow> ticker_snapshot option" where
  "ev_ticker e = (if pe_kind e \<noteq> PublicTicker then None
     else case pe_payload e of Some (TickerP t) \<Rightarrow> Some t | _ \<Rightarrow> None)"

definition ev_candlestick :: "public_event \<Rightarrow> candle option" where
  "ev_candlestick e = (if pe_kind e \<noteq> PublicCandlestick then None
     else case pe_payload e of Some (CandleP c) \<Rightarrow> Some c | _ \<Rightarrow> None)"

definition ev_balance :: "user_event \<Rightarrow> balance_update option" where
  "ev_balance e = (if ue_kind e \<noteq> UserBalanceUpdate then None
     else case ue_payload e of Some (BalanceP b) \<Rightarrow> Some b | _ \<Rightarrow> None)"

definition ev_order :: "user_event \<Rightarrow> order_snapshot option" where
  "ev_order e = (if ue_kind e \<noteq> UserOrderUpdate then None
     else case ue_payload e of Some (OrderP ob) \<Rightarrow> Some ob | _ \<Rightarrow> None)"

definition ev_trade :: "user_event \<Rightarrow> trade_snapshot option" where
  "ev_trade e = (if ue_kind e \<noteq> UserTradeUpdate then None
     else case ue_payload e of Some (TradeP t) \<Rightarrow> Some t | _ \<Rightarrow> None)"

definition ev_position :: "user_event \<Rightarrow> position option" where
  "ev_position e = (if ue_kind e \<noteq> UserPositionUpdate then None
     else case ue_payload e of Some (PositionP p) \<Rightarrow> Some p | _ \<Rightarrow> None)"

lemmas event_defs [go_defs] =
  ev_ticker_def ev_candlestick_def ev_balance_def ev_order_def ev_trade_def ev_position_def
  new_public_event_def new_user_event_def

text \<open>A user event that the constructor accepts is read back by the accessor of its own
  payload type, and by no other: the order, balance, trade and position handlers never see each
  other's payloads, and the constructor accepts a payload exactly under the kind of its type.\<close>

theorem user_event_accessors:
  "new_user_event k (Some p) = Inr e \<longleftrightarrow>
     e = \<lparr>ue_kind = k, ue_payload = Some p\<rparr> \<and>
     (case p of
        OrderP ob \<Rightarrow> k = UserOrderUpdate \<and> (ev_order e, ev_balance e, ev_trade e, ev_position e) = (Some ob, None, None, None)
      | BalanceP b \<Rightarrow> k = UserBalanceUpdate \<and> (ev_order e, ev_balance e, ev_trade e, ev_position e) = (None, Some b, None, None)
      | TradeP t \<Rightarrow> k = UserTradeUpdate \<and> (ev_order e, ev_balance e, ev_trade e, ev_position e) = (None, None, Some t, None)
      | PositionP q \<Rightarrow> k = UserPositionUpdate \<and> (ev_order e, ev_balance e, ev_trade e, ev_position e) = (None, None, None, Some q))"
  by (cases k; cases p) (auto simp: go_defs)

subsection \<open>Exchange errors\<close>

definition is_order_not_found :: "go_error \<Rightarrow> bool" where
  "is_order_not_found e = has_code ''ORDER_NOT_FOUND'' e"

definition is_position_not_found :: "go_error \<Rightarrow> bool" where
  "is_position_not_found e = has_code ''POSITION_NOT_FOUND'' e"

subsection \<open>Contract names\<close>

definition slash_from_compact :: "string \<Rightarrow> string" where
  "slash_from_compact s =
     (let u = to_upper (trim_space s)
      in if has_suffix u ''USDT'' \<and> 4 < length u then trim_suffix u ''USDT'' @ ''/USDT'' else u)"

definition canonical_contract :: "string \<Rightarrow> contract" where
  "canonical_contract s0 =
     (let s = trim_space s0
      in if s = [] then []
         else let s' = replace_char (CHR ''_'') (CHR ''/'') s;
                  s'' = (if CHR ''/'' \<in> set s' then s' else slash_from_compact s')
              in join_with ''/'' (map (\<lambda>p. to_upper (trim_space p)) (split_on (CHR ''/'') s'')))"

end
