(* ===== verification/Models.thy ===== *)
theory Models
  imports PerpTypes
begin

text \<open>
  The market-neutral model layer, \<open>internal/models\<close>: orders, signals and their validation,
  order events, views of balances, positions, tickers and bars, and their construction from
  exchange snapshots. A JSON \<open>float64\<close> is finite, so \<open>strength\<close> is the rational it denotes.
\<close>

datatype market = Perp | Spot | OtherMarket string
datatype direction = Long | Short | Flat | OtherDirection string
datatype sizing_mode = Percent | Fixed | Custom | OtherSizing string

fun market_str :: "market \<Rightarrow> string" where
  "market_str Perp = ''perp''"
| "market_str Spot = ''spot''"
| "market_str (OtherMarket s) = s"

definition market_valid :: "market \<Rightarrow> bool" where
  "market_valid m \<longleftrightarrow> m = Perp \<or> m = Spot"

definition parse_market :: "string \<Rightarrow> market result" where
  "parse_market s0 =
     (let s = to_lower (trim_space s0)
      in if s = [] then Inr Perp
         else if s = ''perp'' then Inr Perp
         else if s = ''spot'' then Inr Spot
         else Inl (Errorf (''unknown market '' @ quoted s @ '' (allowed: perp, spot)'')))"

lemma parse_market_valid: "parse_market s = Inr m \<Longrightarrow> market_valid m"
  by (auto simp: parse_market_def market_valid_def Let_def split: if_splits)

subsection \<open>Orders and signals\<close>

record order =
  ord_id :: string
  ord_exchange_id :: string
  ord_market :: market
  ord_symbol :: contract
  ord_side :: order_side
  ord_type :: order_type
  ord_price :: "string option"
  ord_size :: string
  ord_filled :: string
  ord_status :: order_status
  ord_created :: go_time
  ord_updated :: go_time
  ord_stop_price :: "string option"
  ord_strategy :: string

record signal =
  sig_symbol :: contract
  sig_direction :: direction
  sig_strength :: rat
  sig_price :: "string option"
  sig_sizing :: "sizing_mode option"
  sig_value :: "string option"
  sig_reason :: string
  sig_timestamp :: int

record strategy_signal =
  ss_strategy :: string
  ss_signal :: signal
  ss_timestamp :: go_time

text \<open>\<open>Signal.Validate\<close>: the error, if any. A price or value that does not parse counts as
  zero and is rejected like a non-positive one.\<close>

definition validate_signal :: "decimal_lib \<Rightarrow> signal \<Rightarrow> go_error option" where
  "validate_signal D s =
     (if sig_symbol s = [] then Some (Errorf ''invalid symbol'')
      else if sig_direction s \<noteq> Long \<and> sig_direction s \<noteq> Short \<and> sig_direction s \<noteq> Flat
        then Some (Errorf ''invalid direction'')
      else if sig_strength s < 0 \<or> sig_strength s > 1
        then Some (Errorf ''strength must be between 0 and 1'')
      else if (case sig_price s of None \<Rightarrow> False | Some p \<Rightarrow> parse0 D p \<le> 0)
        then Some (Errorf ''invalid price'')
      else if (case sig_sizing s of None \<Rightarrow> False
               | Some m \<Rightarrow> m \<noteq> Percent \<and> m \<noteq> Fixed \<and> m \<noteq> Custom)
        then Some (Errorf ''invalid sizing mode'')
      else if (case sig_value s of None \<Rightarrow> False | Some v \<Rightarrow> parse0 D v \<le> 0)
        then Some (Errorf ''invalid value'')
      else None)"

lemma validate_signal_None:
  assumes "validate_signal D s = None"
  shows "sig_symbol s \<noteq> []"
    and "sig_direction s \<in> {Long, Short, Flat}"
    and "0 \<le> sig_strength s" and "sig_strength s \<le> 1"
    and "sig_price s = Some p \<Longrightarrow> 0 < parse0 D p"
    and "sig_value s = Some v \<Longrightarrow> 0 < parse0 D v"
  using assms by (auto simp: validate_signal_def split: if_splits option.splits)

subsection \<open>Order events\<close>

record order_event =
  oe_market :: market
  oe_exchange_id :: string
  oe_client_id :: string
  oe_status :: order_status
  oe_filled :: string
  oe_updated :: go_time

subsection \<open>Views\<close>

record position_view =
  pv_market :: market
  pv_symbol :: string
  pv_side :: string
  pv_size :: string
  pv_entry :: string
  pv_mark :: string
  pv_pnl :: string
  pv_leverage :: string
  pv_updated :: go_time

record balance_view =
  bv_currency :: string
  bv_total :: string
  bv_available :: string
  bv_frozen :: string
  bv_updated :: go_time

record kline =
  k_contract :: contract
  k_interval :: string
  k_open :: string
  k_high :: string
  k_low :: string
  k_close :: string
  k_volume :: string
  k_volume_base :: string
  k_sec :: int
  k_closed :: bool

record kline_series =
  ks_contract :: contract
  ks_bars :: "kline list"

record history_payload =
  h_interval :: string
  h_series :: "kline_series list"

record ticker =
  tv_contract :: contract
  tv_last :: string
  tv_mark :: string
  tv_index :: string
  tv_funding :: string
  tv_change :: string
  tv_volume :: string
  tv_volume_base :: string
  tv_volume_quote :: string
  tv_open_interest :: string
  tv_low :: string
  tv_high :: string
  tv_millis :: int

definition kline_from_snapshot :: "candle \<Rightarrow> kline" where
  "kline_from_snapshot c =
     \<lparr>k_contract = c_contract c, k_interval = c_interval c, k_open = c_open c, k_high = c_high c,
      k_low = c_low c, k_close = c_close c, k_volume = c_volume c, k_volume_base = c_volume_base c,
      k_sec = c_sec c, k_closed = c_closed c\<rparr>"

text \<open>A nil snapshot of the REST reply is skipped; every bar is marked closed.\<close>

fun klines_from_snapshots :: "candle option list \<Rightarrow> kline list" where
  "klines_from_snapshots [] = []"
| "klines_from_snapshots (None # cs) = klines_from_snapshots cs"
| "klines_from_snapshots (Some c # cs) =
     (kline_from_snapshot c)\<lparr>k_closed := True\<rparr> # klines_from_snapshots cs"

definition ticker_from_snapshot :: "ticker_snapshot \<Rightarrow> ticker" where
  "ticker_from_snapshot t =
     \<lparr>tv_contract = tk_contract t, tv_last = tk_last t, tv_mark = tk_mark t, tv_index = tk_index t,
      tv_funding = tk_funding t, tv_change = tk_change t, tv_volume = tk_volume t,
      tv_volume_base = tk_volume_base t, tv_volume_quote = tk_volume_quote t,
      tv_open_interest = tk_open_interest t, tv_low = tk_low t, tv_high = tk_high t,
      tv_millis = tk_millis t\<rparr>"

definition balance_view_from_perp :: "balance \<Rightarrow> balance_view" where
  "balance_view_from_perp b =
     \<lparr>bv_currency = b_currency b, bv_total = b_total b, bv_available = b_available b,
      bv_frozen = b_frozen b, bv_updated = b_updated b\<rparr>"

fun pos_side_str :: "pos_side \<Rightarrow> string" where
  "pos_side_str PosLong = ''Long''"
| "pos_side_str PosShort = ''Short''"
| "pos_side_str (OtherPos s) = s"

definition position_view_from_perp :: "position \<Rightarrow> position_view" where
  "position_view_from_perp p =
     \<lparr>pv_market = Perp, pv_symbol = p_contract p, pv_side = pos_side_str (p_side p),
      pv_size = p_size p, pv_entry = p_entry p, pv_mark = p_mark p, pv_pnl = p_pnl p,
      pv_leverage = (if p_leverage p \<noteq> 0 then show_int (p_leverage p) else []),
      pv_updated = p_updated p\<rparr>"

subsection \<open>Terminal and open statuses\<close>

text \<open>\<open>isTerminalOrderStatus\<close>, and the statuses the OMS and the store count as open.\<close>

definition is_terminal :: "order_status \<Rightarrow> bool" where
  "is_terminal st \<longleftrightarrow> st = Filled \<or> st = Cancelled \<or> st = Rejected"

definition is_open :: "order_status \<Rightarrow> bool" where
  "is_open st \<longleftrightarrow> st = Pending \<or> st = Submitted \<or> st = PartialFilled"

lemma open_not_terminal: "is_open st \<Longrightarrow> \<not> is_terminal st"
  by (auto simp: is_open_def is_terminal_def)

lemma terminal_simps [simp]:
  "is_terminal Filled" "is_terminal Cancelled" "is_terminal Rejected"
  "\<not> is_terminal Pending" "\<not> is_terminal Submitted" "\<not> is_terminal PartialFilled"
  "is_open Pending" "is_open Submitted" "is_open PartialFilled"
  "\<not> is_open Filled" "\<not> is_open Cancelled" "\<not> is_open Rejected"
  by (simp_all add: is_terminal_def is_open_def)

end
