(* ===== verification/RiskDomain.thy ===== *)
theory RiskDomain
  imports Models
begin

text \<open>
  The pure risk rules of \<open>internal/domain/risk\<close>: the rule record and its merge with a
  strategy's overrides, the exposure predicates, notional and leverage, and \<open>Evaluate\<close>, the
  chain of checks that allows, rejects or reduces an order.
\<close>

subsection \<open>Verdicts\<close>

datatype verdict_kind = KAllow | KReject | KReduce | KOther int

record verdict =
  v_kind :: verdict_kind
  v_code :: string
  v_message :: string
  v_adjusted :: string

definition allow :: verdict where
  "allow = \<lparr>v_kind = KAllow, v_code = ''RISK_ALLOW'', v_message = ''ok'', v_adjusted = []\<rparr>"

definition reject :: "string \<Rightarrow> string \<Rightarrow> verdict" where
  "reject c m = \<lparr>v_kind = KReject, v_code = c, v_message = m, v_adjusted = []\<rparr>"

definition reduce :: "string \<Rightarrow> string \<Rightarrow> string \<Rightarrow> verdict" where
  "reduce c m a = \<lparr>v_kind = KReduce, v_code = c, v_message = m, v_adjusted = a\<rparr>"

lemma verdict_sel [simp]:
  "v_kind allow = KAllow" "v_kind (reject c m) = KReject" "v_kind (reduce c m a) = KReduce"
  "v_code allow = ''RISK_ALLOW''" "v_code (reject c m) = c" "v_code (reduce c m a) = c"
  "v_adjusted (reduce c m a) = a"
  by (simp_all add: allow_def reject_def reduce_def)

definition prefix_strategy_verdict :: "verdict \<Rightarrow> verdict" where
  "prefix_strategy_verdict v =
     (if v_kind v = KAllow then v
      else let code = (if 5 \<le> length (v_code v) \<and> take 5 (v_code v) = ''RISK_''
                       then ''STRATEGY_'' @ v_code v else v_code v)
           in \<lparr>v_kind = v_kind v, v_code = code, v_message = v_message v, v_adjusted = v_adjusted v\<rparr>)"

lemma prefix_strategy_sel [simp]:
  "v_kind (prefix_strategy_verdict v) = v_kind v"
  "v_kind v \<noteq> KAllow \<Longrightarrow> v_adjusted (prefix_strategy_verdict v) = v_adjusted v"
  by (simp_all add: prefix_strategy_verdict_def Let_def)

subsection \<open>Rules and overrides\<close>

record rules =
  r_enable :: bool
  r_max_order_size :: decimal
  r_max_open_orders :: int
  r_max_positions :: int
  r_max_position_size :: decimal
  r_max_daily_loss :: decimal
  r_max_drawdown :: decimal
  r_max_leverage :: int
  r_position_lock :: bool

definition default_rules :: rules where
  "default_rules =
     \<lparr>r_enable = True, r_max_order_size = 100000, r_max_open_orders = 50, r_max_positions = 20,
      r_max_position_size = 0, r_max_daily_loss = 0, r_max_drawdown = 0, r_max_leverage = 0,
      r_position_lock = False\<rparr>"

record overrides =
  ov_max_order_size :: "decimal option"
  ov_max_open_orders :: "int option"
  ov_max_positions :: "int option"
  ov_max_position_size :: "decimal option"
  ov_max_daily_loss :: "decimal option"
  ov_max_drawdown :: "decimal option"
  ov_max_leverage :: "int option"
  ov_position_lock :: "bool option"

definition no_overrides :: overrides where
  "no_overrides =
     \<lparr>ov_max_order_size = None, ov_max_open_orders = None, ov_max_positions = None,
      ov_max_position_size = None, ov_max_daily_loss = None, ov_max_drawdown = None,
      ov_max_leverage = None, ov_position_lock = None\<rparr>"

definition has_effective_overrides :: "overrides \<Rightarrow> bool" where
  "has_effective_overrides ov \<longleftrightarrow>
     ov_max_order_size ov \<noteq> None \<or> ov_max_open_orders ov \<noteq> None \<or> ov_max_positions ov \<noteq> None \<or>
     ov_max_position_size ov \<noteq> None \<or> ov_max_daily_loss ov \<noteq> None \<or> ov_max_drawdown ov \<noteq> None \<or>
     ov_max_leverage ov \<noteq> None \<or> ov_position_lock ov \<noteq> None"

definition or_else :: "'a option \<Rightarrow> 'a \<Rightarrow> 'a" where
  "or_else ov g = (case ov of None \<Rightarrow> g | Some v \<Rightarrow> v)"

lemma or_else_simps [simp]: "or_else None g = g" "or_else (Some v) g = v"
  by (simp_all add: or_else_def)

definition merge_rules :: "rules \<Rightarrow> overrides \<Rightarrow> rules" where
  "merge_rules g ov =
     \<lparr>r_enable = r_enable g,
      r_max_order_size = or_else (ov_max_order_size ov) (r_max_order_size g),
      r_max_open_orders = or_else (ov_max_open_orders ov) (r_max_open_orders g),
      r_max_positions = or_else (ov_max_positions ov) (r_max_positions g),
      r_max_position_size = or_else (ov_max_position_size ov) (r_max_position_size g),
      r_max_daily_loss = or_else (ov_max_daily_loss ov) (r_max_daily_loss g),
      r_max_drawdown = or_else (ov_max_drawdown ov) (r_max_drawdown g),
      r_max_leverage = or_else (ov_max_leverage ov) (r_max_leverage g),
      r_position_lock = or_else (ov_position_lock ov) (r_position_lock g)\<rparr>"

text \<open>Overrides set nothing exactly when merging them changes no rule set.\<close>

lemma merge_ineffective: "\<not> has_effective_overrides ov \<Longrightarrow> merge_rules g ov = g"
  by (simp add: merge_rules_def has_effective_overrides_def)

lemma merge_rules_enable [simp]: "r_enable (merge_rules g ov) = r_enable g"
  by (simp add: merge_rules_def)

text \<open>Merging is idempotent: applying the same overrides again changes nothing, and a second
  set of overrides wins wherever it is set.\<close>

lemma merge_rules_idem: "merge_rules (merge_rules g ov) ov = merge_rules g ov"
  by (simp add: merge_rules_def or_else_def split: option.splits)

subsection \<open>Exposure\<close>

text \<open>A nil signal opens exposure (\<open>None\<close> is the nil pointer).\<close>

definition opens_exposure :: "signal option \<Rightarrow> bool" where
  "opens_exposure so = (case so of None \<Rightarrow> True
     | Some s \<Rightarrow> sig_direction s = Long \<or> sig_direction s = Short)"

definition is_increasing_exposure :: "decimal_lib \<Rightarrow> signal option \<Rightarrow> position option \<Rightarrow> bool" where
  "is_increasing_exposure D so po =
     (case so of None \<Rightarrow> False
      | Some s \<Rightarrow>
          if sig_direction s = Long then
            (case po of None \<Rightarrow> True
             | Some p \<Rightarrow> if \<not> 0 < parse0 D (p_size p) then True else p_side p = PosLong)
          else if sig_direction s = Short then
            (case po of None \<Rightarrow> True
             | Some p \<Rightarrow> if \<not> 0 < parse0 D (p_size p) then True else p_side p = PosShort)
          else False)"

lemma increasing_opens: "is_increasing_exposure D so po \<Longrightarrow> opens_exposure so"
  by (auto simp: is_increasing_exposure_def opens_exposure_def split: option.splits if_splits)

subsection \<open>Notional and leverage\<close>

definition contract_notional :: "decimal \<Rightarrow> decimal \<Rightarrow> decimal \<Rightarrow> decimal" where
  "contract_notional sz mark mult =
     (if sz = 0 \<or> mark \<le> 0 \<or> mult \<le> 0 then 0 else \<bar>sz\<bar> * mark * mult)"

definition leverage_ratio :: "decimal_lib \<Rightarrow> decimal \<Rightarrow> decimal \<Rightarrow> decimal" where
  "leverage_ratio D exposure equity = (if equity \<le> 0 then 0 else dec_div D exposure equity)"

lemma contract_notional_nonneg: "0 \<le> contract_notional s m q"
  by (simp add: contract_notional_def)

lemma contract_notional_mono:
  "0 \<le> s \<Longrightarrow> s \<le> t \<Longrightarrow> contract_notional s m q \<le> contract_notional t m q"
  by (auto simp: contract_notional_def intro!: mult_right_mono)

lemma contract_notional_add:
  "0 \<le> s \<Longrightarrow> 0 \<le> t \<Longrightarrow> contract_notional (s + t) m q = contract_notional s m q + contract_notional t m q"
  by (auto simp: contract_notional_def algebra_simps)

subsection \<open>Evaluate\<close>

record risk_input =
  in_rules :: rules
  in_order_size :: string
  in_signal_opens :: bool
  in_open_orders :: int
  in_open_positions :: int
  in_projection_ready :: bool
  in_notional_available :: bool
  in_opens :: bool
  in_increasing :: bool
  in_order_notional :: decimal
  in_position_notional :: decimal
  in_post_position_notional :: decimal
  in_total_exposure :: decimal
  in_post_total_exposure :: decimal
  in_equity :: decimal
  in_daily_loss :: decimal
  in_drawdown :: decimal
  in_post_leverage :: decimal
  in_notional_per_unit :: decimal

text \<open>The last stage of the chain, the position-notional limit.\<close>

definition evaluate_position_size :: "decimal_lib \<Rightarrow> risk_input \<Rightarrow> decimal \<Rightarrow> verdict" where
  "evaluate_position_size D i qty =
     (let r = in_rules i; s = dec_string D in
      if in_increasing i \<and> 0 < r_max_position_size r then
        if \<not> in_notional_available i then
          reject ''RISK_NOTIONAL_UNAVAILABLE'' ''notional metrics unavailable for position size check''
        else if r_max_position_size r < in_post_position_notional i then
          let allowed_delta = r_max_position_size r - in_position_notional i in
          if allowed_delta \<le> 0 then
            reject ''RISK_MAX_POSITION_SIZE''
              (''position notional '' @ s (in_position_notional i) @ '' already at or above limit '' @ s (r_max_position_size r))
          else if in_notional_per_unit i \<le> 0 then
            reject ''RISK_NOTIONAL_UNAVAILABLE'' ''cannot convert position limit to contract size''
          else
            let allowed_qty = dec_floor (dec_div D allowed_delta (in_notional_per_unit i)) in
            if allowed_qty \<le> 0 then
              reject ''RISK_MAX_POSITION_SIZE'' ''allowed contract size after position limit is zero''
            else if allowed_qty < qty then
              reduce ''RISK_MAX_POSITION_SIZE''
                (''post position notional '' @ s (in_post_position_notional i) @ '' exceeds max '' @ s (r_max_position_size r))
                (s allowed_qty)
            else allow
        else allow
      else allow)"

definition evaluate :: "decimal_lib \<Rightarrow> risk_input \<Rightarrow> verdict" where
  "evaluate D i =
     (let r = in_rules i; s = dec_string D in
      if \<not> r_enable r then allow
      else case dec_parse D (in_order_size i) of
        None \<Rightarrow> reject ''RISK_INVALID_ORDER_SIZE'' (''invalid order size '' @ quoted (in_order_size i))
      | Some qty \<Rightarrow>
        if qty \<le> 0 then
          reject ''RISK_INVALID_ORDER_SIZE'' (''invalid order size '' @ quoted (in_order_size i))
        else if in_opens i \<and> \<not> in_projection_ready i then
          reject ''RISK_PROJECTION_NOT_READY'' ''account projection not ready for opening exposure''
        else if r_position_lock r \<and> in_opens i then
          reject ''RISK_POSITION_LOCK'' ''position lock enabled, opening exposure rejected''
        else if in_opens i \<and> in_equity i \<le> 0 then
          reject ''RISK_INVALID_EQUITY'' ''account equity must be positive for opening exposure''
        else if in_opens i \<and> 0 < r_max_daily_loss r \<and> r_max_daily_loss r \<le> in_daily_loss i then
          reject ''RISK_MAX_DAILY_LOSS''
            (''daily loss '' @ s (in_daily_loss i) @ '' >= limit '' @ s (r_max_daily_loss r))
        else if in_opens i \<and> 0 < r_max_drawdown r \<and> r_max_drawdown r \<le> in_drawdown i then
          reject ''RISK_MAX_DRAWDOWN''
            (''drawdown '' @ s (in_drawdown i) @ '' >= limit '' @ s (r_max_drawdown r))
        else if 0 < r_max_open_orders r \<and> r_max_open_orders r \<le> in_open_orders i then
          reject ''RISK_MAX_OPEN_ORDERS''
            (''open orders '' @ show_int (in_open_orders i) @ '' >= limit '' @ show_int (r_max_open_orders r))
        else if 0 < r_max_positions r \<and> in_signal_opens i \<and> 0 \<le> in_open_positions i \<and>
                r_max_positions r \<le> in_open_positions i then
          reject ''RISK_MAX_POSITIONS''
            (''position slots '' @ show_int (in_open_positions i) @ '' >= limit '' @ show_int (r_max_positions r))
        else if in_opens i \<and> 0 < r_max_leverage r \<and> \<not> in_notional_available i then
          reject ''RISK_NOTIONAL_UNAVAILABLE'' ''notional metrics unavailable for leverage check''
        else if in_opens i \<and> 0 < r_max_leverage r \<and> of_int (r_max_leverage r) < in_post_leverage i then
          reject ''RISK_MAX_LEVERAGE''
            (''post-trade leverage '' @ dec_fixed2 D (in_post_leverage i) @ '' > limit '' @ show_int (r_max_leverage r))
        else if r_max_order_size r \<noteq> 0 \<and> r_max_order_size r < qty then
          reduce ''RISK_MAX_ORDER_SIZE''
            (''order size '' @ s qty @ '' exceeds max '' @ s (r_max_order_size r))
            (s (r_max_order_size r))
        else evaluate_position_size D i qty)"

text \<open>What a verdict other than a rejection says of the input: every guard of the chain
  was passed.\<close>

definition guards_passed :: "risk_input \<Rightarrow> bool" where
  "guards_passed i \<longleftrightarrow>
     (let r = in_rules i in
      (in_opens i \<longrightarrow> in_projection_ready i \<and> \<not> r_position_lock r \<and> 0 < in_equity i \<and>
         (0 < r_max_daily_loss r \<longrightarrow> in_daily_loss i < r_max_daily_loss r) \<and>
         (0 < r_max_drawdown r \<longrightarrow> in_drawdown i < r_max_drawdown r) \<and>
         (0 < r_max_leverage r \<longrightarrow> in_notional_available i \<and> in_post_leverage i \<le> of_int (r_max_leverage r))) \<and>
      (0 < r_max_open_orders r \<longrightarrow> in_open_orders i < r_max_open_orders r) \<and>
      (0 < r_max_positions r \<and> in_signal_opens i \<and> 0 \<le> in_open_positions i \<longrightarrow>
         in_open_positions i < r_max_positions r))"

text \<open>A rejecting guard in front of a chain: one rewrite per guard, without a case split.\<close>

lemma guard_simps:
  "v_kind (if b then reject c m else e) = KReject \<longleftrightarrow> b \<or> v_kind e = KReject"
  "v_kind (if b then reject c m else e) = KAllow \<longleftrightarrow> \<not> b \<and> v_kind e = KAllow"
  "v_kind (if b then reject c m else e) = KReduce \<longleftrightarrow> \<not> b \<and> v_kind e = KReduce"
  "v_kind (if b then reduce c m a else e) = KReject \<longleftrightarrow> \<not> b \<and> v_kind e = KReject"
  "v_kind (if b then reduce c m a else e) = KAllow \<longleftrightarrow> \<not> b \<and> v_kind e = KAllow"
  by simp_all

lemma skip_guard:
  assumes "v_kind (if b then reject c m else e) \<noteq> KReject"
    and "v_kind e \<noteq> KReject \<Longrightarrow> e = x"
  shows "(if b then reject c m else e) = x"
  using assms by (cases b) simp_all

lemma evaluate_Some:
  assumes "r_enable (in_rules i)" and "v_kind (evaluate D i) \<noteq> KReject"
  obtains qty where "dec_parse D (in_order_size i) = Some qty" and "0 < qty"
proof (cases "dec_parse D (in_order_size i)")
  case None
  with assms show ?thesis by (simp add: evaluate_def)
next
  case (Some qty)
  with assms have "0 < qty" by (simp add: evaluate_def Let_def guard_simps)
  with Some show ?thesis by (rule that)
qed

lemma evaluate_not_reject:
  assumes en: "r_enable (in_rules i)" and v: "v_kind (evaluate D i) \<noteq> KReject"
  shows "guards_passed i"
proof -
  obtain qty where q: "dec_parse D (in_order_size i) = Some qty" using en v by (rule evaluate_Some)
  have ne: "\<not> \<not> r_enable (in_rules i)" using en by simp
  note w = v [unfolded evaluate_def Let_def q option.case if_not_P [OF ne] guard_simps de_Morgan_disj]
  then show ?thesis
    unfolding guards_passed_def Let_def not_le [symmetric] by blast
qed

text \<open>The two ways a verdict is not a rejection: the order-size rule reduces it, or it
  reaches the position-size stage, whose verdict is the result.\<close>

lemma evaluate_cases:
  assumes en: "r_enable (in_rules i)" and v: "v_kind (evaluate D i) \<noteq> KReject"
  obtains (order_size) qty m where "dec_parse D (in_order_size i) = Some qty" "0 < qty"
      "r_max_order_size (in_rules i) \<noteq> 0" "r_max_order_size (in_rules i) < qty"
      "evaluate D i = reduce ''RISK_MAX_ORDER_SIZE'' m (dec_string D (r_max_order_size (in_rules i)))"
    | (position_size) qty where "dec_parse D (in_order_size i) = Some qty" "0 < qty"
      "r_max_order_size (in_rules i) = 0 \<or> qty \<le> r_max_order_size (in_rules i)"
      "evaluate D i = evaluate_position_size D i qty"
proof -
  obtain qty where q: "dec_parse D (in_order_size i) = Some qty" "0 < qty"
    using en v by (rule evaluate_Some)
  have ne: "\<not> \<not> r_enable (in_rules i)" using en by simp
  let ?max = "r_max_order_size (in_rules i)"
  let ?m = "''order size '' @ dec_string D qty @ '' exceeds max '' @ dec_string D ?max"
  have "evaluate D i = (if ?max \<noteq> 0 \<and> ?max < qty
      then reduce ''RISK_MAX_ORDER_SIZE'' ?m (dec_string D ?max) else evaluate_position_size D i qty)"
    using v unfolding evaluate_def Let_def q(1) option.case if_not_P [OF ne]
    by (elim skip_guard) (rule refl)
  with q show ?thesis
    by (cases "?max \<noteq> 0 \<and> ?max < qty") (auto intro: order_size position_size simp: not_less)
qed

lemma evaluate_disabled: "\<not> r_enable (in_rules i) \<Longrightarrow> evaluate D i = allow"
  by (simp add: evaluate_def)

lemma evaluate_kind: "v_kind (evaluate D i) \<in> {KAllow, KReject, KReduce}"
proof (cases "r_enable (in_rules i) \<and> v_kind (evaluate D i) \<noteq> KReject")
  case True
  then have "r_enable (in_rules i)" "v_kind (evaluate D i) \<noteq> KReject" by simp_all
  then show ?thesis
    by (cases rule: evaluate_cases) (auto simp: evaluate_position_size_def Let_def)
next
  case False
  then show ?thesis by (cases "r_enable (in_rules i)") (simp_all add: evaluate_disabled)
qed

text \<open>The position-size stage: when it allows, either the limit does not apply or the order fits
  it; when it reduces, the printed size is the positive number of contracts the limit leaves.\<close>

lemma evaluate_position_size_allow:
  assumes "v_kind (evaluate_position_size D i qty) = KAllow"
    and "in_increasing i" and "0 < r_max_position_size (in_rules i)"
  shows "in_notional_available i"
    and "in_post_position_notional i \<le> r_max_position_size (in_rules i) \<or>
         0 < in_notional_per_unit i \<and>
         qty \<le> dec_floor (dec_div D (r_max_position_size (in_rules i) - in_position_notional i)
                   (in_notional_per_unit i))"
  using assms by (auto simp: evaluate_position_size_def Let_def not_le not_less split: if_splits)

lemma evaluate_position_size_reduce:
  assumes "v_kind (evaluate_position_size D i qty) = KReduce"
  defines "a \<equiv> dec_floor (dec_div D (r_max_position_size (in_rules i) - in_position_notional i)
                   (in_notional_per_unit i))"
  shows "v_adjusted (evaluate_position_size D i qty) = dec_string D a" and "0 < a" and "a < qty"
    and "0 < in_notional_per_unit i" and "in_increasing i"
    and "0 < r_max_position_size (in_rules i)"
  using assms by (auto simp: evaluate_position_size_def Let_def not_le split: if_splits)

context decimal_laws
begin

text \<open>A reduction prints a number below the requested one: the order never grows.\<close>

lemma evaluate_reduce:
  assumes k: "v_kind (evaluate D i) = KReduce"
  shows "\<exists>qty a. dec_parse D (in_order_size i) = Some qty \<and>
           dec_parse D (v_adjusted (evaluate D i)) = Some a \<and>
           v_adjusted (evaluate D i) = dec_string D a \<and> a < qty \<and>
           (0 \<le> r_max_order_size (in_rules i) \<longrightarrow> 0 < a)"
proof -
  have en: "r_enable (in_rules i)"
    by (rule ccontr) (use k in \<open>simp add: evaluate_disabled\<close>)
  have v: "v_kind (evaluate D i) \<noteq> KReject" using k by simp
  from en v show ?thesis
  proof (cases rule: evaluate_cases)
    case (order_size qty m)
    then show ?thesis by (auto simp: parse_string)
  next
    case (position_size qty)
    with k have "v_kind (evaluate_position_size D i qty) = KReduce" by simp
    from evaluate_position_size_reduce [OF this] position_size show ?thesis
      by (auto simp: parse_string)
  qed
qed

end

end
