(* ===== verification/EquityTracker.thy ===== *)
theory EquityTracker
  imports RefDecimal
begin

text \<open>
  \<open>internal/app/risk/equity_tracker.go\<close>: the equity samples behind the daily-loss and drawdown
  rules. The date string of the code is only compared for equality, so it is kept as the number
  of the UTC day, \<open>None\<close> for the empty string of a fresh tracker.
\<close>

record equity_tracker =
  et_day_equity :: decimal
  et_day :: "int option"
  et_peak :: decimal
  et_last :: decimal

definition new_equity_tracker :: equity_tracker where
  "new_equity_tracker = \<lparr>et_day_equity = 0, et_day = None, et_peak = 0, et_last = 0\<rparr>"

definition utc_day :: "go_time \<Rightarrow> int" where
  "utc_day t = t div (86400 * second)"

definition on_equity_update :: "decimal \<Rightarrow> go_time \<Rightarrow> equity_tracker \<Rightarrow> equity_tracker" where
  "on_equity_update e now t =
     (let d = utc_day now;
          t1 = (if et_day t \<noteq> Some d then t\<lparr>et_day := Some d, et_day_equity := e\<rparr> else t);
          t2 = t1\<lparr>et_last := e\<rparr>
      in if et_peak t2 < e then t2\<lparr>et_peak := e\<rparr> else t2)"

definition et_init :: "decimal \<Rightarrow> go_time \<Rightarrow> equity_tracker \<Rightarrow> equity_tracker" where
  "et_init e now t =
     on_equity_update e now (t\<lparr>et_day := None, et_day_equity := 0, et_peak := 0, et_last := 0\<rparr>)"

definition daily_loss :: "equity_tracker \<Rightarrow> decimal" where
  "daily_loss t =
     (if et_day_equity t \<le> 0 then 0
      else let loss = et_day_equity t - et_last t in if loss \<le> 0 then 0 else loss)"

definition drawdown_ratio :: "decimal_lib \<Rightarrow> equity_tracker \<Rightarrow> decimal" where
  "drawdown_ratio D t =
     (if et_peak t \<le> 0 then 0
      else let dd = dec_div D (et_peak t - et_last t) (et_peak t) in if dd < 0 then 0 else dd)"

definition reset_session_peak :: "equity_tracker \<Rightarrow> equity_tracker" where
  "reset_session_peak t = t\<lparr>et_peak := 0\<rparr>"

subsection \<open>A session as the list of its samples\<close>

text \<open>The tracker after a list of samples, in their order, on an initialised tracker.\<close>

definition track :: "(decimal \<times> go_time) list \<Rightarrow> equity_tracker" where
  "track xs = fold (\<lambda>(e, now). on_equity_update e now) xs new_equity_tracker"

text \<open>What the rules mean: the first sample of the last day, and the highest sample.\<close>

definition day_start :: "(decimal \<times> go_time) list \<Rightarrow> decimal" where
  "day_start xs = fst (last (takeWhile (\<lambda>(e, t). utc_day t = utc_day (snd (last xs))) (rev xs)))"

definition session_peak :: "(decimal \<times> go_time) list \<Rightarrow> decimal" where
  "session_peak xs = foldr max (map fst xs) 0"

lemma et_init_new: "et_init e now t = on_equity_update e now new_equity_tracker"
  by (cases t) (simp add: et_init_def new_equity_tracker_def)

lemma track_snoc: "track (xs @ [x]) = on_equity_update (fst x) (snd x) (track xs)"
  by (simp add: track_def case_prod_beta)

lemma on_equity_update_sel [simp]:
  "et_last (on_equity_update e now t) = e"
  "et_peak (on_equity_update e now t) = max (et_peak t) e"
  "et_day (on_equity_update e now t) = Some (utc_day now)"
  "et_day_equity (on_equity_update e now t) =
     (if et_day t = Some (utc_day now) then et_day_equity t else e)"
  by (auto simp: on_equity_update_def Let_def max_def)

lemma session_peak_snoc: "session_peak (xs @ [x]) = max (session_peak xs) (fst x)"
  by (induction xs) (auto simp: session_peak_def max.assoc max.commute)

lemma session_peak_nonneg: "0 \<le> session_peak xs"
  by (induction xs) (auto simp: session_peak_def max.coboundedI2)

lemma session_peak_ge: "x \<in> set xs \<Longrightarrow> fst x \<le> session_peak xs"
  by (induction xs) (auto simp: session_peak_def le_max_iff_disj)

lemma takeWhile_nonempty: "xs \<noteq> [] \<Longrightarrow> P (hd xs) \<Longrightarrow> takeWhile P xs \<noteq> []"
  by (cases xs) simp_all

lemma day_start_snoc:
  "day_start (xs @ [x]) =
     (if xs \<noteq> [] \<and> utc_day (snd (last xs)) = utc_day (snd x) then day_start xs else fst x)"
proof (cases "xs \<noteq> [] \<and> utc_day (snd (last xs)) = utc_day (snd x)")
  case True
  let ?P = "\<lambda>(e :: decimal, t). utc_day t = utc_day (snd x)"
  have "takeWhile ?P (rev xs) \<noteq> []"
    using True by (intro takeWhile_nonempty) (auto simp: hd_rev split_beta)
  with True show ?thesis by (simp add: day_start_def split_beta)
next
  case False
  then show ?thesis
    by (cases xs rule: rev_cases) (auto simp: day_start_def split_beta)
qed

lemma track_state:
  "et_peak (track xs) = session_peak xs"
  "xs \<noteq> [] \<Longrightarrow> et_last (track xs) = fst (last xs)"
  "et_day (track xs) = (if xs = [] then None else Some (utc_day (snd (last xs))))"
  "xs \<noteq> [] \<Longrightarrow> et_day_equity (track xs) = day_start xs"
proof -
  show p: "et_peak (track xs) = session_peak xs" for xs
    by (induction xs rule: rev_induct)
       (simp_all add: track_snoc session_peak_snoc, simp add: track_def new_equity_tracker_def session_peak_def)
  show d: "et_day (track xs) = (if xs = [] then None else Some (utc_day (snd (last xs))))" for xs
    by (cases xs rule: rev_cases) (simp_all add: track_snoc, simp add: track_def new_equity_tracker_def)
  show "xs \<noteq> [] \<Longrightarrow> et_last (track xs) = fst (last xs)"
    by (cases xs rule: rev_cases) (simp_all add: track_snoc)
  show "xs \<noteq> [] \<Longrightarrow> et_day_equity (track xs) = day_start xs"
  proof (induction xs rule: rev_induct)
    case (snoc x xs)
    then show ?case
      by (cases "xs = []") (simp_all only: track_snoc day_start_snoc on_equity_update_sel d, simp_all)
  qed simp
qed

context decimal_laws
begin

lemma drawdown_accuracy:
  assumes "0 < et_peak t" and "et_last t \<le> et_peak t"
  shows "\<bar>val (drawdown_ratio D t) - (val (et_peak t) - val (et_last t)) / val (et_peak t)\<bar>
         \<le> 1 / (2 * 10 ^ 16)"
proof -
  let ?q = "val (dec_div D (et_peak t - et_last t) (et_peak t))"
  let ?r = "(val (et_peak t) - val (et_last t)) / val (et_peak t)"
  have r: "0 \<le> ?r" using assms by (simp add: val_less_iff val_le_iff)
  have "et_peak t \<noteq> 0" using assms by auto
  then have a: "\<bar>?q - ?r\<bar> \<le> 1 / (2 * 10 ^ 16)"
    using div_accuracy [of "et_peak t" "et_peak t - et_last t"] by simp
  show ?thesis
  proof (cases "?q < 0")
    case True
    then have "val (drawdown_ratio D t) = 0"
      by (simp add: drawdown_ratio_def Let_def val_less_iff)
    then show ?thesis using a r True unfolding abs_le_iff by linarith
  next
    case False
    then have "val (drawdown_ratio D t) = ?q"
      using assms(1) by (simp add: drawdown_ratio_def Let_def val_simps not_less)
    then show ?thesis using a by simp
  qed
qed

end

text \<open>The equity tracker computes the loss and the drawdown of its sample history: after any
  non-empty list of samples the daily loss is how far the last sample is below the first sample of
  its UTC day (never negative, and zero while that day opened at or below zero), and the drawdown
  is, up to the rounding of the division, the fall from the highest sample of the session relative
  to that peak.\<close>

theorem equity_tracker_meaning:
  assumes "decimal_laws D" and "xs \<noteq> []"
  shows "daily_loss (track xs) = (if 0 < day_start xs then max 0 (day_start xs - fst (last xs)) else 0)
    \<and> (if session_peak xs = 0 then drawdown_ratio D (track xs) = 0
       else \<bar>val (drawdown_ratio D (track xs)) -
              (val (session_peak xs) - val (fst (last xs))) / val (session_peak xs)\<bar> \<le> 1 / (2 * 10 ^ 16))"
proof (cases "session_peak xs = 0")
  case True
  then show ?thesis
    by (auto simp: daily_loss_def drawdown_ratio_def Let_def max_def track_state [OF] assms(2))
next
  case False
  then have "0 < session_peak xs" using session_peak_nonneg [of xs] by simp
  moreover have "fst (last xs) \<le> session_peak xs" using assms(2) by (intro session_peak_ge) simp
  ultimately show ?thesis
    using decimal_laws.drawdown_accuracy [OF assms(1), of "track xs"] False assms(2)
    by (auto simp: daily_loss_def Let_def max_def track_state)
qed

theorem equity_tracker_meaning_witness:
  "let xs = [(dec 1000 0, 0), (dec 1200 0, 3600 * second), (dec 900 0, 7200 * second)]
   in daily_loss (track xs) = 100 \<and> session_peak xs = 1200
      \<and> \<bar>val (drawdown_ratio ref_lib (track xs)) - 1 / 4\<bar> \<le> 1 / (2 * 10 ^ 16)"
  using equity_tracker_meaning [OF ref.decimal_laws_axioms,
      of "[(dec 1000 0, 0), (dec 1200 0, 3600 * second), (dec 900 0, 7200 * second)]"]
  by (simp add: day_start_def session_peak_def utc_day_def second_def val_simps max_def)

end
