(* ===== verification/Instrument.thy ===== *)
theory Instrument
  imports Models
begin

text \<open>
  \<open>internal/app/instrument\<close>: the registry of contract metadata, rebuilt from the exchange's
  list, and the interface \<open>ContractMetaLookup\<close> through which sizing reads it.
\<close>

type_synonym registry = "contract \<rightharpoonup> contract_meta"

definition new_registry :: registry where
  "new_registry = Map.empty"

text \<open>The loop of \<open>LoadFrom\<close>: nil entries and entries without a contract are skipped, a later
  entry of the same contract replaces an earlier one.\<close>

fun index_metas :: "contract_meta option list \<Rightarrow> registry \<Rightarrow> registry" where
  "index_metas [] m = m"
| "index_metas (None # ms) m = index_metas ms m"
| "index_metas (Some x # ms) m =
     (if m_contract x = [] then index_metas ms m else index_metas ms (m(m_contract x \<mapsto> x)))"

definition load_from :: "contract_meta option list result \<Rightarrow> registry \<Rightarrow> go_error option \<times> registry" where
  "load_from reply r =
     (case reply of Inl e \<Rightarrow> (Some e, r) | Inr ms \<Rightarrow> (None, index_metas ms Map.empty))"

definition contract_meta_of :: "registry \<Rightarrow> contract \<Rightarrow> contract_meta result" where
  "contract_meta_of r c =
     (case r c of None \<Rightarrow> Inl (Errorf (''contract meta not found for '' @ c)) | Some m \<Rightarrow> Inr m)"

definition registry_len :: "registry \<Rightarrow> nat" where
  "registry_len r = card (dom r)"

subsection \<open>The interface\<close>

text \<open>What the sizing code relies on: a lookup answers with the metadata of the contract asked
  for.\<close>

locale contract_meta_lookup =
  fixes lookup :: "contract \<Rightarrow> contract_meta result"
  assumes found_contract: "lookup c = Inr m \<Longrightarrow> m_contract m = c"

text \<open>The last entry of a list that names the contract.\<close>

fun last_meta :: "contract \<Rightarrow> contract_meta option list \<Rightarrow> contract_meta option" where
  "last_meta c [] = None"
| "last_meta c (mo # ms) = (case last_meta c ms of Some m \<Rightarrow> Some m
     | None \<Rightarrow> (case mo of Some m \<Rightarrow> if m_contract m = c \<and> c \<noteq> [] then Some m else None | None \<Rightarrow> None))"

lemma last_meta_Some: "last_meta c ms = Some m \<Longrightarrow> m_contract m = c \<and> c \<noteq> []"
  by (induction ms) (auto split: option.splits if_splits)

lemma index_metas_last:
  "index_metas ms r c = (case last_meta c ms of Some m \<Rightarrow> Some m | None \<Rightarrow> r c)"
  by (induction ms r rule: index_metas.induct) (auto simp: fun_upd_def split: option.splits)

text \<open>The registry after a series of loads, failed ones included.\<close>

definition registry_after :: "contract_meta option list result list \<Rightarrow> registry" where
  "registry_after replies = fold (\<lambda>r. snd \<circ> load_from r) replies new_registry"

lemma registry_after_keys:
  "registry_after replies c = Some m \<Longrightarrow> m_contract m = c \<and> c \<noteq> []"
proof (induction replies arbitrary: c m rule: rev_induct)
  case (snoc r replies)
  then show ?case
    by (cases r) (auto simp: registry_after_def load_from_def index_metas_last
        dest: last_meta_Some split: option.splits)
qed (simp add: registry_after_def new_registry_def)

interpretation reg: contract_meta_lookup "contract_meta_of (registry_after replies)" for replies
  by unfold_locales (auto simp: contract_meta_of_def registry_after_keys split: option.splits)

text \<open>The registry answers from the last successful load only: a failed load changes
  nothing, a successful one replaces the whole index, and then the metadata returned for a
  contract is the last entry of the list that carries its name.\<close>

theorem registry_lookup:
  "contract_meta_of (snd (load_from (Inl e) r)) c = contract_meta_of r c \<and>
   contract_meta_of (snd (load_from (Inr ms) r)) c =
     (case last_meta c ms of
        Some m \<Rightarrow> Inr m | None \<Rightarrow> Inl (Errorf (''contract meta not found for '' @ c)))"
  by (simp add: load_from_def contract_meta_of_def index_metas_last split: option.splits)

end
