(* ===== verification/GoFloat.thy ===== *)
theory GoFloat
  imports Prelude Complex_Main "HOL-Library.Log_Nat"
begin

text \<open>
  Go's \<open>float64\<close> where the program computes with it: IEEE 754 binary64 values and
  round-to-nearest-even. A value is a rational, an infinity or a NaN (the two zeros are one
  value: no operation of the program tells them apart). \<open>f64 q\<close> is the value nearest to the
  rational \<open>q\<close>; it is monotone and exact on the integers below \<open>2 ^ 53\<close>.
\<close>

datatype go_float = Fin rat | PInf | NInf | NaN

fun float_less :: "go_float \<Rightarrow> go_float \<Rightarrow> bool" where
  "float_less (Fin a) (Fin b) = (a < b)"
| "float_less (Fin a) PInf = True"
| "float_less (Fin a) NInf = False"
| "float_less PInf y = False"
| "float_less NInf y = (y \<noteq> NInf \<and> y \<noteq> NaN)"
| "float_less x NaN = False"
| "float_less NaN y = False"

definition float_le :: "go_float \<Rightarrow> go_float \<Rightarrow> bool" where
  "float_le x y \<longleftrightarrow> x \<noteq> NaN \<and> y \<noteq> NaN \<and> (float_less x y \<or> x = y)"

subsection \<open>Rounding to an integer, ties to even\<close>

definition round_even :: "rat \<Rightarrow> int" where
  "round_even q =
     (let f = \<lfloor>q\<rfloor>; d = q - of_int f
      in if d < 1 / 2 then f else if 1 / 2 < d then f + 1 else if even f then f else f + 1)"

lemma round_even_of_int [simp]: "round_even (of_int k) = k"
  by (simp add: round_even_def)

lemma round_even_bounds: "\<lfloor>q\<rfloor> \<le> round_even q" "round_even q \<le> \<lfloor>q\<rfloor> + 1"
  by (simp_all add: round_even_def Let_def)

lemma round_even_mono:
  assumes "q \<le> r"
  shows "round_even q \<le> round_even r"
proof (cases "\<lfloor>q\<rfloor> = \<lfloor>r\<rfloor>")
  case True
  then show ?thesis using assms by (auto simp: round_even_def Let_def)
next
  case False
  then have "\<lfloor>q\<rfloor> + 1 \<le> \<lfloor>r\<rfloor>" using assms floor_mono [of q r] by linarith
  then show ?thesis using round_even_bounds(2) [of q] round_even_bounds(1) [of r] by linarith
qed

lemma round_even_ge: "of_int k \<le> q \<Longrightarrow> k \<le> round_even q"
  using round_even_mono [of "of_int k" q] by simp

lemma round_even_le: "q \<le> of_int k \<Longrightarrow> round_even q \<le> k"
  using round_even_mono [of q "of_int k"] by simp

subsection \<open>Binary exponents\<close>

definition pow2 :: "int \<Rightarrow> rat" where
  "pow2 e = (if 0 \<le> e then 2 ^ nat e else 1 / 2 ^ nat (- e))"

lemma pow2_powi: "pow2 e = 2 powi e"
  by (simp add: pow2_def power_int_def inverse_eq_divide power_one_over)

lemma pow2_pos [simp]: "0 < pow2 e"
  by (simp add: pow2_def)

lemma pow2_add: "pow2 (a + b) = pow2 a * pow2 b"
  by (simp add: pow2_powi power_int_add)

lemma pow2_mono: "a \<le> b \<Longrightarrow> pow2 a \<le> pow2 b"
  by (simp add: pow2_powi power_int_increasing)

lemma pow2_strict: "a < b \<Longrightarrow> pow2 a < pow2 b"
  by (simp add: pow2_powi power_int_strict_increasing)

definition log2_floor :: "rat \<Rightarrow> int" where
  "log2_floor q =
     (case quotient_of q of (n, d) \<Rightarrow>
        let e = int (floorlog 2 (nat n)) - int (floorlog 2 (nat d))
        in if pow2 e \<le> q then e else e - 1)"

lemma floorlog2_bounds:
  assumes "0 < n"
  shows "2 ^ (floorlog 2 n - 1) \<le> n" "n < 2 ^ floorlog 2 n" "0 < floorlog 2 n"
  using floorlog_bounds [of n 2] floorlog_eq_zero_iff [of 2 n] assms by auto

lemma log2_floor_bounds:
  assumes "0 < q"
  shows "pow2 (log2_floor q) \<le> q" "q < pow2 (log2_floor q + 1)"
proof -
  obtain n d where nd: "quotient_of q = (n, d)" by (cases "quotient_of q")
  have d: "0 < d" using quotient_of_denom_pos [OF nd] .
  have q: "q = of_int n / of_int d" using quotient_of_div [OF nd] .
  have n: "0 < n" using assms d unfolding q by (simp add: zero_less_divide_iff)
  let ?a = "floorlog 2 (nat n)" and ?b = "floorlog 2 (nat d)"
  have a: "2 ^ (?a - 1) \<le> nat n" "nat n < 2 ^ ?a" "0 < ?a"
    using floorlog2_bounds [of "nat n"] n by auto
  have b: "2 ^ (?b - 1) \<le> nat d" "nat d < 2 ^ ?b" "0 < ?b"
    using floorlog2_bounds [of "nat d"] d by auto
  have ra: "(2 :: rat) ^ (?a - 1) \<le> of_int n" "(of_int n :: rat) < 2 ^ ?a"
    using a n by (metis of_nat_le_iff of_nat_numeral of_nat_power of_nat_nat less_imp_le
        of_int_of_nat_eq, metis a(2) n of_nat_less_iff of_nat_numeral of_nat_power of_nat_nat
        less_imp_le of_int_of_nat_eq)
  have rb: "(2 :: rat) ^ (?b - 1) \<le> of_int d" "(of_int d :: rat) < 2 ^ ?b"
    using b d by (metis of_nat_le_iff of_nat_numeral of_nat_power of_nat_nat less_imp_le
        of_int_of_nat_eq, metis b(2) d of_nat_less_iff of_nat_numeral of_nat_power of_nat_nat
        less_imp_le of_int_of_nat_eq)
  have p: "pow2 (int k) = 2 ^ k" for k by (simp add: pow2_def)
  have pa: "pow2 (int ?a) = 2 * 2 ^ (?a - 1)" and pb: "pow2 (int ?b) = 2 * 2 ^ (?b - 1)"
    using a(3) b(3) by (simp_all add: p power_eq_if)
  have rd: "(0 :: rat) < of_int d" using d by simp
  have split: "pow2 (int ?a - int ?b) * pow2 (int ?b) = pow2 (int ?a)"
    by (simp add: pow2_add [symmetric])
  have up: "q < pow2 (int ?a - int ?b + 1)"
  proof -
    have "of_int n < pow2 (int ?a)" using ra(2) by (simp add: p)
    also have "\<dots> = pow2 (int ?a - int ?b) * (2 * 2 ^ (?b - 1))" using split pb by simp
    also have "\<dots> \<le> pow2 (int ?a - int ?b) * (2 * of_int d)"
      using rb(1) by (intro mult_left_mono less_imp_le [OF pow2_pos]) simp_all
    finally have "of_int n < pow2 (int ?a - int ?b) * 2 * of_int d" by (simp add: mult_ac)
    moreover have "pow2 (int ?a - int ?b + 1) = pow2 (int ?a - int ?b) * 2"
      by (simp add: pow2_add) (simp add: pow2_def)
    ultimately show ?thesis using rd unfolding q by (simp add: divide_less_eq)
  qed
  have lo: "pow2 (int ?a - int ?b - 1) \<le> q"
  proof -
    have "pow2 (int ?a - int ?b - 1) * pow2 (int ?b) = pow2 (int ?a - 1)"
      by (simp add: pow2_add [symmetric])
    also have "\<dots> = 2 ^ (?a - 1)" using a(3) by (simp add: pow2_def nat_diff_distrib)
    also have "\<dots> \<le> of_int n" by (rule ra(1))
    finally have "pow2 (int ?a - int ?b - 1) * pow2 (int ?b) \<le> of_int n" .
    moreover have "pow2 (int ?a - int ?b - 1) * of_int d
        \<le> pow2 (int ?a - int ?b - 1) * pow2 (int ?b)"
      using rb(2) by (intro mult_left_mono less_imp_le [OF pow2_pos]) (simp add: p less_imp_le)
    ultimately have "pow2 (int ?a - int ?b - 1) * of_int d \<le> of_int n" by linarith
    then show ?thesis using rd unfolding q by (simp add: le_divide_eq)
  qed
  show "pow2 (log2_floor q) \<le> q" "q < pow2 (log2_floor q + 1)"
    using up lo by (auto simp: log2_floor_def nd Let_def)
qed

subsection \<open>Rounding to binary64\<close>

text \<open>The exponent of the last place of a positive value: 53 significant bits, and the
  spacing of the subnormal values below.\<close>

definition ulp_exp :: "rat \<Rightarrow> int" where
  "ulp_exp q = max (log2_floor q - 52) (- 1074)"

definition round_pos :: "rat \<Rightarrow> rat" where
  "round_pos q = of_int (round_even (q / pow2 (ulp_exp q))) * pow2 (ulp_exp q)"

definition f64 :: "rat \<Rightarrow> go_float" where
  "f64 q =
     (if q = 0 then Fin 0
      else let v = round_pos \<bar>q\<bar>
           in if pow2 1024 \<le> v then (if 0 < q then PInf else NInf)
              else Fin (if 0 < q then v else - v))"

lemma log2_floor_mono:
  assumes "0 < q" "q \<le> r"
  shows "log2_floor q \<le> log2_floor r"
proof (rule ccontr)
  assume "\<not> log2_floor q \<le> log2_floor r"
  then have "pow2 (log2_floor r + 1) \<le> pow2 (log2_floor q)" by (intro pow2_mono) simp
  also have "\<dots> \<le> q" using log2_floor_bounds(1) assms(1) .
  finally show False using log2_floor_bounds(2) [of r] assms by simp
qed

lemma round_pos_ge:
  assumes "0 < q" "of_int k * pow2 (ulp_exp q) \<le> q"
  shows "of_int k * pow2 (ulp_exp q) \<le> round_pos q"
  using assms round_even_ge [of k "q / pow2 (ulp_exp q)"]
  by (simp add: round_pos_def le_divide_eq)

lemma round_pos_le:
  assumes "0 < q" "q \<le> of_int k * pow2 (ulp_exp q)"
  shows "round_pos q \<le> of_int k * pow2 (ulp_exp q)"
  using assms round_even_le [of "q / pow2 (ulp_exp q)" k]
  by (simp add: round_pos_def divide_le_eq)

lemma round_pos_upper:
  assumes q: "0 < q"
  shows "round_pos q \<le> pow2 (ulp_exp q + 53)"
proof -
  have "q < pow2 (log2_floor q + 1)" using log2_floor_bounds(2) [OF q] .
  also have "\<dots> \<le> pow2 (ulp_exp q + 53)" by (intro pow2_mono) (simp add: ulp_exp_def)
  also have "\<dots> = of_int (2 ^ 53) * pow2 (ulp_exp q)" by (simp add: pow2_add) (simp add: pow2_def)
  finally show ?thesis
    using round_pos_le [OF q, of "2 ^ 53"] by (simp add: pow2_add) (simp add: pow2_def)
qed

lemma round_pos_lower:
  assumes q: "0 < q" and n: "ulp_exp q = log2_floor q - 52"
  shows "pow2 (ulp_exp q + 52) \<le> round_pos q"
proof -
  have "pow2 (ulp_exp q + 52) = of_int (2 ^ 52) * pow2 (ulp_exp q)"
    by (simp add: pow2_add) (simp add: pow2_def)
  moreover have "pow2 (ulp_exp q + 52) \<le> q" using log2_floor_bounds(1) [OF q] n by simp
  ultimately show ?thesis using round_pos_ge [OF q, of "2 ^ 52"] by simp
qed

lemma round_pos_mono:
  assumes q: "0 < q" and le: "q \<le> r"
  shows "round_pos q \<le> round_pos r"
proof (cases "ulp_exp q = ulp_exp r")
  case True
  have "q / pow2 (ulp_exp r) \<le> r / pow2 (ulp_exp r)"
    using le by (simp add: divide_right_mono less_imp_le)
  then show ?thesis
    using True by (simp add: round_pos_def mult_right_mono less_imp_le round_even_mono)
next
  case False
  have r: "0 < r" using q le by simp
  have l: "log2_floor q \<le> log2_floor r" by (rule log2_floor_mono [OF q le])
  then have lt: "ulp_exp q < ulp_exp r" and n: "ulp_exp r = log2_floor r - 52"
    using False by (auto simp: ulp_exp_def)
  have "round_pos q \<le> pow2 (ulp_exp q + 53)" by (rule round_pos_upper [OF q])
  also have "\<dots> \<le> pow2 (ulp_exp r + 52)" using lt by (intro pow2_mono) simp
  also have "\<dots> \<le> round_pos r" by (rule round_pos_lower [OF r n])
  finally show ?thesis .
qed

lemma round_pos_nonneg: "0 < q \<Longrightarrow> 0 \<le> round_pos q"
  using round_pos_ge [of q 0] by simp

lemma round_pos_int:
  assumes "0 < k" "k < 2 ^ 53"
  shows "round_pos (of_int k) = of_int k"
proof -
  let ?q = "of_int k :: rat"
  have q: "0 < ?q" using assms by simp
  have "pow2 (log2_floor ?q) \<le> ?q" by (rule log2_floor_bounds(1) [OF q])
  also have "\<dots> < pow2 53" using assms(2) by (simp add: pow2_def)
  finally have "log2_floor ?q < 53" using pow2_mono [of 53 "log2_floor ?q"] by linarith
  then have e: "ulp_exp ?q \<le> 0" by (simp add: ulp_exp_def)
  let ?m = "k * 2 ^ nat (- ulp_exp ?q)"
  have "pow2 (- ulp_exp ?q) * pow2 (ulp_exp ?q) = 1"
    by (simp add: pow2_add [symmetric]) (simp add: pow2_def)
  moreover have "pow2 (- ulp_exp ?q) = 2 ^ nat (- ulp_exp ?q)" using e by (simp add: pow2_def)
  ultimately have "of_int ?m * pow2 (ulp_exp ?q) = ?q" by (simp only: of_int_mult of_int_power of_int_numeral mult.assoc mult_1_right)
  then have m: "of_int ?m * pow2 (ulp_exp ?q) = ?q" .
  show ?thesis
  proof (rule antisym)
    show "round_pos ?q \<le> ?q" using round_pos_le [OF q, of ?m] unfolding m by simp
    show "?q \<le> round_pos ?q" using round_pos_ge [OF q, of ?m] unfolding m by simp
  qed
qed

lemma f64_int: "0 \<le> k \<Longrightarrow> k < 2 ^ 53 \<Longrightarrow> f64 (of_int k) = Fin (of_int k)"
proof -
  assume k: "0 \<le> k" "k < 2 ^ 53"
  have "(of_int k :: rat) < of_int (2 ^ 53)" using k(2) by (simp only: of_int_less_iff)
  also have "\<dots> \<le> pow2 1024" by (simp add: pow2_def)
  finally show ?thesis using k round_pos_int [of k] by (auto simp: f64_def)
qed

subsection \<open>Order and monotonicity\<close>

text \<open>The order on the values that are not negative.\<close>

fun nonneg_le :: "go_float \<Rightarrow> go_float \<Rightarrow> bool" where
  "nonneg_le (Fin a) (Fin b) = (0 \<le> a \<and> a \<le> b)"
| "nonneg_le (Fin a) PInf = (0 \<le> a)"
| "nonneg_le PInf PInf = True"
| "nonneg_le x y = False"

lemma nonneg_le_trans: "nonneg_le x y \<Longrightarrow> nonneg_le y z \<Longrightarrow> nonneg_le x z"
  by (cases x; cases y; cases z) auto

lemma f64_mono:
  assumes "0 \<le> q" "q \<le> r"
  shows "nonneg_le (f64 q) (f64 r)"
proof (cases "q = 0")
  case True
  then show ?thesis using assms round_pos_nonneg [of r] by (auto simp: f64_def Let_def)
next
  case False
  then have q: "0 < q" using assms by simp
  have r: "0 < r" using q assms by simp
  show ?thesis
    using q r round_pos_mono [OF q assms(2)] round_pos_nonneg [OF q]
    by (auto simp: f64_def Let_def)
qed
subsection \<open>Arithmetic\<close>

fun fneg :: "go_float \<Rightarrow> go_float" where
  "fneg (Fin a) = Fin (- a)"
| "fneg PInf = NInf"
| "fneg NInf = PInf"
| "fneg NaN = NaN"

fun fadd :: "go_float \<Rightarrow> go_float \<Rightarrow> go_float" where
  "fadd (Fin a) (Fin b) = f64 (a + b)"
| "fadd NaN y = NaN"
| "fadd x NaN = NaN"
| "fadd PInf NInf = NaN"
| "fadd NInf PInf = NaN"
| "fadd PInf y = PInf"
| "fadd NInf y = NInf"
| "fadd (Fin a) y = y"

definition inf_times :: "rat \<Rightarrow> go_float" where
  "inf_times b = (if b = 0 then NaN else if 0 < b then PInf else NInf)"

fun fmul :: "go_float \<Rightarrow> go_float \<Rightarrow> go_float" where
  "fmul (Fin a) (Fin b) = f64 (a * b)"
| "fmul NaN y = NaN"
| "fmul x NaN = NaN"
| "fmul PInf (Fin b) = inf_times b"
| "fmul NInf (Fin b) = fneg (inf_times b)"
| "fmul (Fin a) PInf = inf_times a"
| "fmul (Fin a) NInf = fneg (inf_times a)"
| "fmul PInf PInf = PInf"
| "fmul PInf NInf = NInf"
| "fmul NInf PInf = NInf"
| "fmul NInf NInf = PInf"

text \<open>Division by a finite value other than zero, the only one the program needs.\<close>

definition fdiv_by :: "go_float \<Rightarrow> rat \<Rightarrow> go_float" where
  "fdiv_by x b = (case x of Fin a \<Rightarrow> f64 (a / b) | _ \<Rightarrow> fmul x (Fin b))"

text \<open>\<open>math.Min\<close>.\<close>

definition fmin :: "go_float \<Rightarrow> go_float \<Rightarrow> go_float" where
  "fmin x y =
     (if x = NInf \<or> y = NInf then NInf else if x = NaN \<or> y = NaN then NaN
      else if float_less x y then x else y)"

text \<open>The conversion \<open>int64(x)\<close> truncates; outside the range of the type its value is the
  implementation's, the parameter \<open>impl\<close>.\<close>

definition to_int64 :: "(go_float \<Rightarrow> int) \<Rightarrow> go_float \<Rightarrow> int" where
  "to_int64 impl x =
     (case x of
        Fin q \<Rightarrow> let t = (if 0 \<le> q then \<lfloor>q\<rfloor> else \<lceil>q\<rceil>)
                 in if - (2 ^ 63) \<le> t \<and> t < 2 ^ 63 then t else impl x
      | _ \<Rightarrow> impl x)"

lemma representable_exact:
  assumes "0 < m" "m \<le> 2 ^ 53" "- 1074 \<le> s"
  shows "round_pos (of_int m * pow2 s) = of_int m * pow2 s"
proof -
  let ?v = "of_int m * pow2 s"
  have v: "0 < ?v" using assms by simp
  have exact: "round_pos ?v = ?v" if "of_int k * pow2 (ulp_exp ?v) = ?v" for k
    using round_pos_ge [OF v, of k] round_pos_le [OF v, of k] that by simp
  show ?thesis
  proof (cases "m = 2 ^ 53")
    case True
    then have p: "?v = pow2 (s + 53)" by (simp add: pow2_add) (simp add: pow2_def)
    have "pow2 (log2_floor ?v) \<le> pow2 (s + 53)" "pow2 (s + 53) < pow2 (log2_floor ?v + 1)"
      using log2_floor_bounds [OF v] unfolding p by simp_all
    then have "log2_floor ?v = s + 53"
      using pow2_strict [of "s + 53" "log2_floor ?v"] pow2_mono [of "log2_floor ?v + 1" "s + 53"]
      by linarith
    then have e: "ulp_exp ?v = s + 1" using assms(3) by (simp add: ulp_exp_def)
    show ?thesis
    proof (rule exact [of "2 ^ 52"], unfold e)
      show "of_int (2 ^ 52) * pow2 (s + 1) = ?v" using True by (simp add: pow2_add) (simp add: pow2_def)
    qed
  next
    case False
    then have lt: "(of_int m :: rat) < of_int (2 ^ 53)" using assms(2) by (simp only: of_int_less_iff)
    have "pow2 (log2_floor ?v) \<le> ?v" by (rule log2_floor_bounds(1) [OF v])
    also have "?v < of_int (2 ^ 53) * pow2 s" using lt by (intro mult_strict_right_mono) simp_all
    also have "\<dots> = pow2 (s + 53)" by (simp add: pow2_add) (simp add: pow2_def)
    finally have "log2_floor ?v < s + 53" using pow2_mono [of "s + 53" "log2_floor ?v"] by linarith
    then have e: "ulp_exp ?v \<le> s" using assms(3) by (simp add: ulp_exp_def)
    show ?thesis
    proof (rule exact [of "m * 2 ^ nat (s - ulp_exp ?v)"])
      have "pow2 (s - ulp_exp ?v) = 2 ^ nat (s - ulp_exp ?v)" using e by (simp add: pow2_def)
      moreover have "pow2 (s - ulp_exp ?v) * pow2 (ulp_exp ?v) = pow2 s"
        by (simp add: pow2_add [symmetric])
      ultimately show "of_int (m * 2 ^ nat (s - ulp_exp ?v)) * pow2 (ulp_exp ?v) = ?v"
        by (simp only: of_int_mult of_int_power of_int_numeral mult.assoc)
    qed
  qed
qed

lemma round_even_upper:
  assumes "0 < q"
  shows "round_even (q / pow2 (ulp_exp q)) \<le> 2 ^ 53"
proof -
  have "of_int (round_even (q / pow2 (ulp_exp q))) * pow2 (ulp_exp q) \<le> of_int (2 ^ 53) * pow2 (ulp_exp q)"
    using round_pos_upper [OF assms] unfolding round_pos_def by (simp add: pow2_add) (simp add: pow2_def)
  then have "(of_int (round_even (q / pow2 (ulp_exp q))) :: rat) \<le> of_int (2 ^ 53)"
    by (simp only: mult_le_cancel_right_pos [OF pow2_pos])
  then show ?thesis by (simp only: of_int_le_iff)
qed

text \<open>A value is its own rounding.\<close>

lemma round_pos_idem:
  assumes "0 < q" "0 < round_pos q"
  shows "round_pos (round_pos q) = round_pos q"
proof -
  let ?m = "round_even (q / pow2 (ulp_exp q))"
  have "0 < of_int ?m * pow2 (ulp_exp q)" using assms(2) by (simp only: round_pos_def)
  then have "0 < ?m" using pow2_pos [of "ulp_exp q"] by (simp add: zero_less_mult_iff)
  from representable_exact [OF this round_even_upper [OF assms(1)], of "ulp_exp q"]
  show ?thesis unfolding round_pos_def [of q] by (simp only: ulp_exp_def)
qed

definition is_f64 :: "go_float \<Rightarrow> bool" where
  "is_f64 x \<longleftrightarrow> (case x of Fin q \<Rightarrow> f64 q = Fin q | _ \<Rightarrow> True)"

lemma is_f64_round: "is_f64 (f64 q)"
proof (cases "q = 0 \<or> pow2 1024 \<le> round_pos \<bar>q\<bar> \<or> round_pos \<bar>q\<bar> = 0")
  case True
  then show ?thesis by (auto simp: is_f64_def f64_def Let_def)
next
  case False
  let ?v = "round_pos \<bar>q\<bar>"
  have v: "0 < ?v" "\<not> pow2 1024 \<le> ?v" "round_pos ?v = ?v" "q \<noteq> 0"
    using False round_pos_nonneg [of "\<bar>q\<bar>"] round_pos_idem [of "\<bar>q\<bar>"] by auto
  then show ?thesis
    by (cases "0 < q") (simp_all add: is_f64_def f64_def Let_def)
qed

lemma fmul_mono:
  assumes "nonneg_le x y" "0 < m"
  shows "nonneg_le (fmul x (Fin m)) (fmul y (Fin m))"
proof (cases "x = PInf \<or> y = PInf")
  case False
  then obtain a b where "x = Fin a" "y = Fin b" "0 \<le> a" "a \<le> b"
    using assms(1) by (cases x; cases y) auto
  then show ?thesis using f64_mono [of "a * m" "b * m"] assms(2) by simp
next
  case True
  then show ?thesis
    using assms f64_mono [of 0 "(case x of Fin a \<Rightarrow> a * m | _ \<Rightarrow> 0)"]
    by (cases x; cases y; cases "f64 (case x of Fin a \<Rightarrow> a * m | _ \<Rightarrow> 0)") (auto simp: inf_times_def f64_def [of 0])
qed

lemma fmul_grows:
  assumes "is_f64 x" "nonneg_le x x" "1 \<le> m"
  shows "nonneg_le x (fmul x (Fin m))"
proof (cases x)
  case (Fin a)
  then have "0 \<le> a" "f64 a = Fin a" using assms by (auto simp: is_f64_def)
  then show ?thesis
    using Fin f64_mono [of a "a * m"] assms(3) mult_left_mono [of 1 m a] by simp
qed (use assms in \<open>auto simp: inf_times_def\<close>)

lemma is_f64_fmul: "is_f64 (fmul x y)"
  by (cases "(x, y)" rule: fmul.cases)
    (auto simp: is_f64_round inf_times_def is_f64_def [of PInf] is_f64_def [of NInf] is_f64_def [of NaN])

lemma fmin_mono:
  assumes "nonneg_le x y" "nonneg_le z z"
  shows "nonneg_le (fmin x z) (fmin y z)"
  using assms by (cases x; cases y; cases z) (auto simp: fmin_def)

lemma fmin_le: "nonneg_le x x \<Longrightarrow> nonneg_le z z \<Longrightarrow> nonneg_le (fmin x z) z"
  by (cases x; cases z) (auto simp: fmin_def)

end
