(* ===== verification/GoNum.thy ===== *)
theory GoNum
  imports GoFloat RefDecimal
begin

text \<open>
  \<open>strconv\<close> on floats and integers, as the exchange adapters use it: \<open>ParseFloat\<close> (decimal notation
  with an optional exponent, infinities and NaN), \<open>FormatFloat(f, 'f', -1, 64)\<close>, the shortest
  decimal that reads back as the same value, \<open>ParseInt\<close>, and the adapters' \<open>trimFloatString\<close>.
  A negative zero, which differs in print only, and hexadecimal notation are left out.
\<close>

subsection \<open>Reading\<close>

definition pow10 :: "int \<Rightarrow> rat" where
  "pow10 e = (if 0 \<le> e then 10 ^ nat e else 1 / 10 ^ nat (- e))"

definition strip_sign :: "string \<Rightarrow> bool \<times> string" where
  "strip_sign s =
     (case s of
        [] \<Rightarrow> (False, [])
      | c # cs \<Rightarrow> if c = CHR ''-'' then (True, cs) else if c = CHR ''+'' then (False, cs) else (False, s))"

definition digits_only :: "string \<Rightarrow> bool" where
  "digits_only s \<longleftrightarrow> s \<noteq> [] \<and> list_all is_digit s"

definition read_int :: "string \<Rightarrow> int option" where
  "read_int s =
     (case strip_sign s of (neg, ds) \<Rightarrow>
        if \<not> digits_only ds then None
        else Some (if neg then - int (nat_of_digits ds) else int (nat_of_digits ds)))"

text \<open>\<open>strconv.ParseInt(s, 10, bits)\<close>, without the saturated value of a range error.\<close>

definition parse_int :: "nat \<Rightarrow> string \<Rightarrow> int option" where
  "parse_int bits s =
     (case read_int s of
        None \<Rightarrow> None
      | Some i \<Rightarrow> if - (2 ^ (bits - 1)) \<le> i \<and> i < 2 ^ (bits - 1) then Some i else None)"

lemma digits_only_show_nat: "digits_only (show_nat n)"
  by (auto simp: digits_only_def list_all_iff show_nat_digits)

lemma read_int_show_int: "read_int (show_int i) = Some i"
proof (cases "i < 0")
  case True
  then show ?thesis by (simp add: read_int_def strip_sign_def show_int_def digits_only_show_nat)
next
  case False
  obtain c cs where c: "show_nat (nat i) = c # cs" by (cases "show_nat (nat i)") auto
  then have "is_digit c" using show_nat_digits [of c "nat i"] by simp
  then have "c \<noteq> CHR ''-''" "c \<noteq> CHR ''+''" by (auto simp: is_digit_def)
  then have "strip_sign (show_nat (nat i)) = (False, show_nat (nat i))" using c by (simp add: strip_sign_def)
  then show ?thesis using False by (simp add: read_int_def show_int_def digits_only_show_nat)
qed

lemma plain_show_int: "c \<in> set (show_int i) \<Longrightarrow> plain_char c"
  by (auto simp: show_int_def plain_char_digit dest: show_nat_digits split: if_splits)

lemma trim_show_int: "trim_space (show_int i) = show_int i"
  by (rule trim_space_plain) (simp add: plain_show_int)

lemma show_int_nonempty [simp]: "show_int i \<noteq> []"
  by (simp add: show_int_def)

definition is_exp_char :: "char \<Rightarrow> bool" where
  "is_exp_char c \<longleftrightarrow> c = CHR ''e'' \<or> c = CHR ''E''"

definition read_unsigned :: "string \<Rightarrow> rat option" where
  "read_unsigned s =
     (let mant = takeWhile (\<lambda>c. \<not> is_exp_char c) s;
          rest = dropWhile (\<lambda>c. \<not> is_exp_char c) s
      in case parse_parts 1 (split_on (CHR ''.'') mant) of
           None \<Rightarrow> None
         | Some d \<Rightarrow> if rest = [] then Some (val d)
             else (case read_int (tl rest) of None \<Rightarrow> None | Some e \<Rightarrow> Some (val d * pow10 e)))"

text \<open>\<open>strconv.ParseFloat(s, 64)\<close>: \<open>None\<close> is a syntax error; a range error yields the infinity the
  function returns beside it.\<close>

definition read_float :: "string \<Rightarrow> go_float option" where
  "read_float s =
     (case strip_sign s of (neg, u) \<Rightarrow>
        if to_lower s = ''nan'' then Some NaN
        else if to_lower u = ''inf'' \<or> to_lower u = ''infinity'' then Some (if neg then NInf else PInf)
        else case read_unsigned u of
               None \<Rightarrow> None
             | Some q \<Rightarrow> Some (f64 (if neg then - q else q)))"

text \<open>The adapters' \<open>parseFloat\<close> drops the error: what does not parse is zero.\<close>

definition parse_float :: "string \<Rightarrow> go_float" where
  "parse_float s = (case read_float (trim_space s) of None \<Rightarrow> Fin 0 | Some x \<Rightarrow> x)"

subsection \<open>Printing\<close>

text \<open>The exact decimal of a positive value: its coefficient and its scale.\<close>

definition exact_parts :: "rat \<Rightarrow> nat \<times> nat" where
  "exact_parts q =
     (case quotient_of q of (a, b) \<Rightarrow>
        let n = scale_of (nat b) in (nat a * (10 ^ n div nat b), n))"

text \<open>Dropping the last \<open>r\<close> digits of the coefficient, rounding down and up: the shortest
  coefficient that still reads back as \<open>q\<close>, with the number of digits dropped.\<close>

definition reads_as :: "rat \<Rightarrow> nat \<Rightarrow> nat \<Rightarrow> nat \<Rightarrow> bool" where
  "reads_as q m r n \<longleftrightarrow> f64 (of_nat (m * 10 ^ r) / 10 ^ n) = Fin q"

fun shortest :: "rat \<Rightarrow> nat \<Rightarrow> nat \<Rightarrow> nat \<Rightarrow> nat \<times> nat" where
  "shortest q c n 0 = (c, 0)"
| "shortest q c n (Suc r) =
     (let lo = c div 10 ^ Suc r; hi = lo + 1; rem = c mod 10 ^ Suc r;
          down = reads_as q lo (Suc r) n; up = reads_as q hi (Suc r) n
      in if down \<and> up then
           (if 2 * rem < 10 ^ Suc r \<or> 2 * rem = 10 ^ Suc r \<and> even lo then lo else hi, Suc r)
         else if down then (lo, Suc r)
         else if up then (hi, Suc r)
         else shortest q c n r)"

definition format_pos :: "rat \<Rightarrow> string" where
  "format_pos q =
     (case exact_parts q of (c, n) \<Rightarrow>
        (case shortest q c n (length (show_nat c) - 1) of (m, r) \<Rightarrow>
           if n \<le> r then show_nat (m * 10 ^ (r - n)) else place_point m (n - r)))"

fun format_float :: "go_float \<Rightarrow> string" where
  "format_float (Fin q) = (if q = 0 then ''0'' else if q < 0 then CHR ''-'' # format_pos (- q) else format_pos q)"
| "format_float PInf = ''+Inf''"
| "format_float NInf = ''-Inf''"
| "format_float NaN = ''NaN''"

definition trim_right :: "char \<Rightarrow> string \<Rightarrow> string" where
  "trim_right c s = rev (dropWhile (\<lambda>x. x = c) (rev s))"

definition trim_float_string :: "go_float \<Rightarrow> string" where
  "trim_float_string x =
     (let s0 = format_float x;
          s = (if CHR ''.'' \<in> set s0 then trim_right (CHR ''.'') (trim_right (CHR ''0'') s0) else s0)
      in if s = [] \<or> s = ''-'' then ''0'' else s)"

subsection \<open>What is printed reads back\<close>

lemma dec_of_f64:
  assumes "0 < q" "f64 q = Fin q"
  shows "\<exists>d. val d = q"
proof -
  let ?m = "round_even (q / pow2 (ulp_exp q))" and ?s = "ulp_exp q"
  have q: "q = of_int ?m * pow2 ?s"
    using assms by (auto simp: f64_def Let_def round_pos_def split: if_splits)
  show ?thesis
  proof (cases "0 \<le> ?s")
    case True
    then have "val (dec (?m * 2 ^ nat ?s) 0) = q" by (subst q) (simp add: pow2_def)
    then show ?thesis ..
  next
    case False
    let ?j = "nat (- ?s)"
    have "(10 :: rat) ^ ?j = 2 ^ ?j * 5 ^ ?j" by (simp add: power_mult_distrib [symmetric])
    then have "val (dec (?m * 5 ^ ?j) ?j) = q" using False by (subst q) (simp add: pow2_def)
    then show ?thesis ..
  qed
qed

lemma exact_parts_value:
  assumes "0 < q" "f64 q = Fin q" "exact_parts q = (c, n)"
  shows "of_nat c / 10 ^ n = q" and "0 < c"
proof -
  obtain d where d: "val d = q" using dec_of_f64 [OF assms(1,2)] by blast
  have "quotient_of q = (num_of d, den_of d)" by (simp add: num_of_def den_of_def d)
  moreover have "(0 :: rat) < of_int (num_of d) / of_int (den_of d)" using assms(1) d val_quot [of d] by simp
  then have num: "0 < num_of d" using den_pos [of d] by (simp add: zero_less_divide_iff)
  ultimately have "(c, n) = (coeff d, scale d)"
    using assms(3) by (auto simp: exact_parts_def coeff_def scale_def Let_def)
  then show "of_nat c / 10 ^ n = q" using val_coeff [of d] num d by simp
  with assms(1) show "0 < c" by (cases "c = 0") auto
qed

lemma shortest_reads:
  assumes "of_nat c / 10 ^ n = q" "f64 q = Fin q" "shortest q c n r = (m, k)"
  shows "reads_as q m k n"
  using assms(3)
proof (induction r)
  case 0
  then show ?case using assms(1,2) by (simp add: reads_as_def)
next
  case (Suc r)
  then show ?case by (auto simp: Let_def split: if_splits)
qed

lemma read_unsigned_plain:
  assumes "\<forall>c \<in> set s. \<not> is_exp_char c"
  shows "read_unsigned s = map_option val (parse_parts 1 (split_on (CHR ''.'') s))"
proof -
  have "takeWhile (\<lambda>c. \<not> is_exp_char c) s = s" "dropWhile (\<lambda>c. \<not> is_exp_char c) s = []"
    using assms by (auto simp: takeWhile_eq_all_conv dropWhile_eq_Nil_conv)
  then show ?thesis
    by (simp only: read_unsigned_def Let_def simp_thms if_True) (simp split: option.split)
qed

lemma digit_not_exp: "is_digit c \<or> c = CHR ''.'' \<Longrightarrow> \<not> is_exp_char c"
  by (auto simp: is_digit_def is_exp_char_def)

lemma place_point_set: "c \<in> set (place_point m k) \<Longrightarrow> is_digit c \<or> c = CHR ''.''"
  using padded_digits [of c m k] by (auto simp: place_point_padded dest: in_set_takeD in_set_dropD split: if_splits)

lemma read_unsigned_place_point: "read_unsigned (place_point m k) = Some (of_nat m / 10 ^ k)"
  using place_point_set digit_not_exp
  by (subst read_unsigned_plain) (auto simp: parse_place_point)

lemma show_nat_place_point: "show_nat m = place_point m 0"
proof -
  have "1 - length (show_nat m) = 0" using show_nat_nonempty [of m] by (cases "show_nat m") auto
  then show ?thesis by (simp add: place_point_def)
qed

text \<open>Strings of digits and at most a point, with a digit in front: no sign, no word.\<close>

definition numeric :: "string \<Rightarrow> bool" where
  "numeric s \<longleftrightarrow> s \<noteq> [] \<and> is_digit (hd s)"

lemma read_float_numeric:
  assumes "numeric s"
  shows "read_float s = map_option f64 (read_unsigned s)"
    and "read_float (CHR ''-'' # s) = map_option (\<lambda>q. f64 (- q)) (read_unsigned s)"
proof -
  obtain x xs where s: "s = x # xs" "is_digit x" using assms by (cases s) (auto simp: numeric_def)
  have "to_lower_char x = x" using s(2) by (auto simp: to_lower_char_def is_digit_def)
  then have l: "to_lower s = x # to_lower xs" by (simp add: s to_lower_def)
  have w: "x \<noteq> CHR ''n''" "x \<noteq> CHR ''i''" using s(2) by (auto simp: is_digit_def)
  have sg: "strip_sign s = (False, s)" using dot_no_digit [OF s(2)] by (simp add: s strip_sign_def)
  have m: "to_lower (CHR ''-'' # s) = CHR ''-'' # to_lower s" by (simp add: to_lower_def to_lower_char_def)
  show "read_float s = map_option f64 (read_unsigned s)"
    using w by (simp add: read_float_def sg l split: option.split)
  show "read_float (CHR ''-'' # s) = map_option (\<lambda>q. f64 (- q)) (read_unsigned s)"
    using w unfolding read_float_def m by (simp add: strip_sign_def l split: option.split)
qed

lemma numeric_place_point: "numeric (place_point m k)"
  using place_point_first [of m k] by (auto simp: numeric_def)

lemma format_pos_reads:
  assumes "0 < q" "f64 q = Fin q"
  obtains m k where "format_pos q = place_point m k" "f64 (of_nat m / 10 ^ k) = Fin q" "0 < m"
proof -
  obtain c n where cn: "exact_parts q = (c, n)" by (cases "exact_parts q")
  obtain m r where mr: "shortest q c n (length (show_nat c) - 1) = (m, r)"
    by (cases "shortest q c n (length (show_nat c) - 1)")
  have rd: "reads_as q m r n"
    by (rule shortest_reads [OF exact_parts_value(1) [OF assms cn] assms(2) mr])
  have pos: "0 < m" using rd assms(1) by (cases "m = 0") (auto simp: reads_as_def f64_def)
  show ?thesis
  proof (cases "n \<le> r")
    case True
    have "(10 :: rat) ^ r = 10 ^ (r - n) * 10 ^ n" using True by (simp add: power_add [symmetric])
    then have "f64 (of_nat (m * 10 ^ (r - n)) / 10 ^ 0) = Fin q" using rd by (simp add: reads_as_def mult.assoc)
    then show ?thesis
      using that [of "m * 10 ^ (r - n)" 0] pos True cn mr by (simp add: format_pos_def show_nat_place_point)
  next
    case False
    have "(10 :: rat) ^ n = 10 ^ (n - r) * 10 ^ r" using False by (simp add: power_add [symmetric])
    then have "f64 (of_nat m / 10 ^ (n - r)) = Fin q" using rd by (simp add: reads_as_def)
    then show ?thesis using that [of m "n - r"] pos False cn mr by (simp add: format_pos_def)
  qed
qed

lemma f64_uminus: "f64 (- q) = fneg (f64 q)"
  by (auto simp: f64_def Let_def)

lemma nat_of_digits_zeros: "nat_of_digits (s @ replicate z (digit 0)) = nat_of_digits s * 10 ^ z"
proof (induction z)
  case (Suc z)
  have "nat_of_digits (s @ replicate (Suc z) (digit 0)) = 10 * nat_of_digits (s @ replicate z (digit 0))"
    by (simp only: replicate_Suc replicate_append_same [symmetric] append_assoc [symmetric] nat_of_digits_def foldl_append) simp
  then show ?case using Suc by simp
qed simp

lemma takeWhile_same: "takeWhile (\<lambda>x. x = c) s = replicate (length (takeWhile (\<lambda>x. x = c) s)) c"
  by (induction s) auto

lemma trim_right_split: "\<exists>z. s = trim_right c s @ replicate z c"
proof -
  have "rev s = takeWhile (\<lambda>x. x = c) (rev s) @ dropWhile (\<lambda>x. x = c) (rev s)" by simp
  then have "rev s = replicate (length (takeWhile (\<lambda>x. x = c) (rev s))) c @ dropWhile (\<lambda>x. x = c) (rev s)"
    using takeWhile_same [of c "rev s"] by simp
  then show ?thesis by (metis rev_append rev_replicate rev_rev_ident trim_right_def)
qed

lemma trim_right_Nil: "trim_right c [] = []"
  by (simp add: trim_right_def)

lemma trim_right_last: "trim_right c s \<noteq> [] \<Longrightarrow> last (trim_right c s) \<noteq> c"
  using hd_dropWhile [of "\<lambda>x. x = c" "rev s"] by (simp add: trim_right_def last_rev)

lemma trim_right_id: "s \<noteq> [] \<Longrightarrow> last s \<noteq> c \<Longrightarrow> trim_right c s = s"
  by (cases s rule: rev_cases) (auto simp: trim_right_def)

lemma trim_right_append: "trim_right c t \<noteq> [] \<Longrightarrow> trim_right c (s @ t) = s @ trim_right c t"
  by (auto simp: trim_right_def dropWhile_append dropWhile_eq_Nil_conv)

lemma trim_right_append_Nil: "trim_right c t = [] \<Longrightarrow> trim_right c (s @ t) = trim_right c s"
  by (auto simp: trim_right_def dropWhile_append dropWhile_eq_Nil_conv)

definition trim_fraction :: "string \<Rightarrow> string" where
  "trim_fraction s = (if CHR ''.'' \<in> set s then trim_right (CHR ''.'') (trim_right (CHR ''0'') s) else s)"

lemma digit0: "digit 0 = CHR ''0''"
  by code_simp

text \<open>Trimming a fraction keeps the number and its leading digit.\<close>

lemma trim_fraction_value:
  assumes i: "i \<noteq> []" "list_all is_digit i" and f: "f \<noteq> []" "list_all is_digit f"
  shows "numeric (trim_fraction (i @ ''.'' @ f)) \<and>
    read_unsigned (trim_fraction (i @ ''.'' @ f)) = Some (of_nat (nat_of_digits (i @ f)) / 10 ^ length f)"
proof -
  let ?g = "trim_right (CHR ''0'') f"
  obtain z where z: "f = ?g @ replicate z (CHR ''0'')" using trim_right_split by blast
  have lf: "length f = length ?g + z" by (subst z) simp
  have val: "(of_nat (nat_of_digits (i @ f)) / 10 ^ length f :: rat) = of_nat (nat_of_digits (i @ ?g)) / 10 ^ length ?g"
  proof -
    have "nat_of_digits (i @ f) = nat_of_digits ((i @ ?g) @ replicate z (digit 0))"
      using z by (simp only: digit0 append_assoc)
    then show ?thesis unfolding nat_of_digits_zeros lf by (simp add: power_add)
  qed
  have gd: "list_all is_digit ?g" using f(2) by (subst (asm) z) simp
  have dots: "CHR ''.'' \<notin> set i" "CHR ''.'' \<notin> set ?g"
    using i(2) gd dot_no_digit by (auto simp: list_all_iff)
  have li: "last i \<noteq> CHR ''.''" using last_in_set [OF i(1)] dots(1) by metis
  have exps: "\<forall>c \<in> set (i @ ''.'' @ ?g). \<not> is_exp_char c"
    using i(2) gd digit_not_exp by (auto simp: list_all_iff)
  have n: "numeric (i @ x)" for x using i by (cases i) (auto simp: numeric_def)
  show ?thesis
  proof (cases "?g = []")
    case True
    have "trim_right (CHR ''0'') (i @ ''.'' @ f) = i @ ''.''"
      using trim_right_append_Nil [OF True, of "i @ ''.''"] by (simp add: trim_right_def)
    moreover have "trim_right (CHR ''.'') (i @ ''.'') = i"
      using i li by (subst trim_right_append_Nil) (auto simp: trim_right_def [of _ "''.''"] intro!: trim_right_id)
    ultimately have "trim_fraction (i @ ''.'' @ f) = i" by (simp add: trim_fraction_def)
    moreover have "read_unsigned i = Some (of_nat (nat_of_digits i))"
      using i dots exps by (subst read_unsigned_plain) (auto simp: split_on_nosep parse_parts_def list_all_iff)
    ultimately show ?thesis using val True n [of "[]"] by simp
  next
    case False
    have "trim_right (CHR ''0'') (i @ ''.'' @ f) = i @ ''.'' @ ?g"
      using trim_right_append [OF False, of "i @ ''.''"] by simp
    moreover have "trim_right (CHR ''.'') (i @ ''.'' @ ?g) = i @ ''.'' @ ?g"
      using False dots(2) last_in_set [OF False] by (intro trim_right_id) (auto simp del: last_in_set)
    ultimately have "trim_fraction (i @ ''.'' @ f) = i @ ''.'' @ ?g" by (simp add: trim_fraction_def)
    moreover have "read_unsigned (i @ ''.'' @ ?g) = Some (of_nat (nat_of_digits (i @ ?g)) / 10 ^ length ?g)"
      using i gd dots exps
      by (subst read_unsigned_plain) (auto simp: split_on_append split_on_nosep parse_parts_def list_all_iff)
    ultimately show ?thesis using val n by simp
  qed
qed

lemma trim_place_point:
  "numeric (trim_fraction (place_point m k)) \<and>
   read_unsigned (trim_fraction (place_point m k)) = Some (of_nat m / 10 ^ k)"
proof (cases "k = 0")
  case True
  have "CHR ''.'' \<notin> set (padded m 0)" using padded_digits dot_no_digit by blast
  then show ?thesis
    using True numeric_place_point [of m 0] read_unsigned_place_point [of m 0]
    by (simp add: trim_fraction_def place_point_padded)
next
  case False
  let ?p = "padded m k" and ?j = "length (padded m k) - k"
  have l: "k < length ?p" by (rule padded_length)
  have d: "list_all is_digit (take ?j ?p)" "list_all is_digit (drop ?j ?p)"
    using padded_digits [of _ m k] by (auto simp: list_all_iff dest: in_set_takeD in_set_dropD)
  have "take ?j ?p \<noteq> []" "drop ?j ?p \<noteq> []" using l False by auto
  from trim_fraction_value [OF this(1) d(1) this(2) d(2)] show ?thesis
    using False l by (simp add: place_point_padded)
qed

lemma trim_float_string_fraction:
  "trim_float_string x =
     (if trim_fraction (format_float x) = [] \<or> trim_fraction (format_float x) = ''-'' then ''0''
      else trim_fraction (format_float x))"
  by (simp add: trim_float_string_def trim_fraction_def Let_def)

lemma trim_fraction_minus:
  assumes "trim_fraction s \<noteq> []"
  shows "trim_fraction (CHR ''-'' # s) = CHR ''-'' # trim_fraction s"
proof (cases "CHR ''.'' \<in> set s")
  case True
  then have a: "trim_right (CHR ''.'') (trim_right (CHR ''0'') s) \<noteq> []"
    using assms by (simp add: trim_fraction_def)
  then have b: "trim_right (CHR ''0'') s \<noteq> []" by (metis trim_right_Nil)
  have "trim_right (CHR ''0'') (CHR ''-'' # s) = CHR ''-'' # trim_right (CHR ''0'') s"
    using trim_right_append [OF b, of "''-''"] by simp
  moreover have "trim_right (CHR ''.'') (CHR ''-'' # trim_right (CHR ''0'') s) =
      CHR ''-'' # trim_right (CHR ''.'') (trim_right (CHR ''0'') s)"
    using trim_right_append [OF a, of "''-''"] by simp
  ultimately show ?thesis using True by (simp add: trim_fraction_def)
qed (simp add: trim_fraction_def)

text \<open>A finite float64 printed by the adapters' \<open>trimFloatString\<close> reads back as itself.\<close>

theorem trim_float_roundtrip:
  assumes "f64 q = Fin q"
  shows "read_float (trim_float_string (Fin q)) = Some (Fin q)"
proof -
  have pos: "read_float (trim_float_string (Fin x)) = Some (Fin x) \<and>
      read_float (CHR ''-'' # trim_fraction (format_pos x)) = Some (Fin (- x)) \<and>
      trim_float_string (Fin x) = trim_fraction (format_pos x) \<and> trim_fraction (format_pos x) \<noteq> []"
    if x: "0 < x" "f64 x = Fin x" for x
  proof -
    obtain m k where f: "format_pos x = place_point m k" "f64 (of_nat m / 10 ^ k) = Fin x"
      using format_pos_reads [OF x] by blast
    note t = trim_place_point [of m k]
    have ne: "trim_fraction (place_point m k) \<noteq> []" "trim_fraction (place_point m k) \<noteq> ''-''"
      using t by (auto simp: numeric_def is_digit_def)
    have s: "trim_float_string (Fin x) = trim_fraction (format_pos x)"
      using x ne by (simp add: trim_float_string_def trim_fraction_def f(1) Let_def)
    show ?thesis
      using read_float_numeric [of "trim_fraction (place_point m k)"] t f(2) ne
      unfolding s f(1) by (simp add: f64_uminus)
  qed
  consider "q = 0" | "0 < q" | "q < 0" by linarith
  then show ?thesis
  proof cases
    case 1
    have "read_float (trim_float_string (Fin 0)) = Some (Fin 0)" by code_simp
    then show ?thesis using 1 by simp
  next
    case 2
    then show ?thesis using pos assms by blast
  next
    case 3
    then have u: "0 < - q" "f64 (- q) = Fin (- q)" using assms f64_uminus [of q] by auto
    have ne: "trim_fraction (format_pos (- q)) \<noteq> []" using pos [OF u] by blast
    have "format_float (Fin q) = CHR ''-'' # format_pos (- q)" using 3 by simp
    then have "trim_float_string (Fin q) = CHR ''-'' # trim_fraction (format_pos (- q))"
      using ne by (simp only: trim_float_string_fraction trim_fraction_minus [OF ne] list.inject) simp
    moreover have "read_float (CHR ''-'' # trim_fraction (format_pos (- q))) = Some (Fin q)"
      using pos [OF u] minus_minus [of q] by metis
    ultimately show ?thesis by simp
  qed
qed

theorem trim_float_roundtrip_witness:
  "read_float (trim_float_string (Fin (of_int 12))) = Some (Fin (of_int 12))"
  by (rule trim_float_roundtrip, rule f64_int) simp_all

subsection \<open>Integers\<close>

lemma f64_nat: "n < 2 ^ 53 \<Longrightarrow> f64 (of_nat n) = Fin (of_nat n)"
  using f64_int [of "int n"] by simp

lemma f64_eq_nat:
  assumes "f64 (of_nat a) = Fin (of_nat n)" "n < 2 ^ 53"
  shows "a = n"
proof (cases "a < 2 ^ 53")
  case True
  then show ?thesis using f64_nat [of a] assms(1) by simp
next
  case False
  have "round_pos (of_int (2 ^ 53) * pow2 0) = of_int (2 ^ 53) * pow2 0" by (rule representable_exact) simp_all
  then have "f64 (2 ^ 53) = Fin (2 ^ 53)" by (simp add: f64_def pow2_def)
  moreover have "nonneg_le (f64 (2 ^ 53)) (f64 (of_nat a))"
  proof (rule f64_mono)
    have "(of_nat (2 ^ 53) :: rat) \<le> of_nat a" using False by (simp only: of_nat_le_iff not_less)
    then show "(2 ^ 53 :: rat) \<le> of_nat a" by simp
  qed simp
  ultimately have "(2 ^ 53 :: rat) \<le> of_nat n" using assms(1) by simp
  then have "(of_nat (2 ^ 53) :: rat) \<le> of_nat n" by simp
  then have "2 ^ 53 \<le> n" by (simp only: of_nat_le_iff)
  then show ?thesis using assms(2) by simp
qed

lemma quotient_of_nat: "quotient_of (of_nat n) = (int n, 1)"
  using quotient_of_int [of "int n"] by (simp add: Rat.of_int_def)

lemma format_nat:
  assumes "0 < n" "n < 2 ^ 53"
  shows "format_float (Fin (of_nat n)) = show_nat n"
proof -
  have s1: "scale_of 1 = 0" by (subst scale_of.simps) simp
  have e: "exact_parts (of_nat n) = (n, 0)" using s1 by (simp add: exact_parts_def quotient_of_nat Let_def)
  obtain m r where mr: "shortest (of_nat n) n 0 (length (show_nat n) - 1) = (m, r)"
    by (cases "shortest (of_nat n) n 0 (length (show_nat n) - 1)")
  have "reads_as (of_nat n) m r 0"
    by (rule shortest_reads [OF _ f64_nat [OF assms(2)] mr]) simp
  then have "f64 (of_nat (m * 10 ^ r)) = Fin (of_nat n)" by (simp add: reads_as_def)
  then have "m * 10 ^ r = n" using assms(2) by (rule f64_eq_nat)
  moreover have "shortest (of_nat n) n 0 (length (show_nat n) - Suc 0) = (m, r)" using mr by simp
  ultimately show ?thesis using assms(1) by (simp add: format_pos_def e)
qed

lemma show_nat_no_dot: "CHR ''.'' \<notin> set (show_nat n)"
  using show_nat_digits dot_no_digit by blast

lemma trim_float_nat:
  assumes "n < 2 ^ 53"
  shows "trim_float_string (Fin (of_nat n)) = show_nat n"
proof (cases "n = 0")
  case True
  have "trim_float_string (Fin 0) = show_nat 0" by code_simp
  with True show ?thesis by simp
next
  case False
  then have "format_float (Fin (of_nat n)) = show_nat n" using assms by (intro format_nat) auto
  moreover have "show_nat n \<noteq> ''-''" using show_nat_digits [of "CHR ''-''" n] dot_no_digit [of "CHR ''-''"] by auto
  ultimately show ?thesis using show_nat_no_dot [of n] by (simp add: trim_float_string_def)
qed

lemma read_float_show_nat:
  "read_float (show_nat n) = Some (f64 (of_nat n))"
  "read_float (CHR ''-'' # show_nat n) = Some (f64 (- of_nat n))"
  using read_float_numeric [OF numeric_place_point, of n 0] read_unsigned_place_point [of n 0]
  by (simp_all add: show_nat_place_point)

lemma trim_space_show_nat: "trim_space (show_nat n) = show_nat n"
  "trim_space (CHR ''-'' # show_nat n) = CHR ''-'' # show_nat n"
  using show_nat_digits plain_char_digit by (auto intro!: trim_space_plain)

lemma parse_float_show_nat:
  "n < 2 ^ 53 \<Longrightarrow> parse_float (show_nat n) = Fin (of_nat n)"
  "n < 2 ^ 53 \<Longrightarrow> parse_float (CHR ''-'' # show_nat n) = Fin (- of_nat n)"
  by (simp_all add: parse_float_def trim_space_show_nat read_float_show_nat f64_uminus f64_nat)

text \<open>\<open>math.Abs\<close>, \<open>math.Max(0, _)\<close> and the order on floats as the adapters use them.\<close>

fun fabs :: "go_float \<Rightarrow> go_float" where
  "fabs (Fin q) = Fin \<bar>q\<bar>"
| "fabs PInf = PInf"
| "fabs NInf = PInf"
| "fabs NaN = NaN"

definition fsub :: "go_float \<Rightarrow> go_float \<Rightarrow> go_float" where
  "fsub x y = fadd x (fneg y)"

definition fmax0 :: "go_float \<Rightarrow> go_float" where
  "fmax0 x = (if x = NaN then NaN else if float_less x (Fin 0) then Fin 0 else x)"

lemma fabs_Fin [simp]: "fabs (Fin (- q)) = Fin \<bar>q\<bar>"
  by simp

lemma fsub_nat: "a \<le> b \<Longrightarrow> b < 2 ^ 53 \<Longrightarrow> fsub (Fin (of_nat b)) (Fin (of_nat a)) = Fin (of_nat (b - a))"
  using f64_nat [of "b - a"] by (simp add: fsub_def of_nat_diff)

end
