(* ===== verification/Projection.thy ===== *)
theory Projection
  imports Models GoNum "HOL-Library.List_Lexorder" "HOL-Library.Char_ord"
begin

text \<open>
  \<open>internal/app/projection\<close>: the in-memory image of the account, replaced by every successful
  REST refresh and updated by the user stream in between.

  The hooks are the calls an operation makes: an
  equity hook call is the pair of the parsed total and the instant. \<open>now\<close> is the clock.
\<close>

record projection =
  pj_balance :: "balance option"
  pj_positions :: "contract \<rightharpoonup> position"
  pj_revision :: "64 word"
  pj_ready :: bool
  pj_equity_hook :: bool
  pj_refresh_hook :: bool

definition new_projection :: "bool \<Rightarrow> bool \<Rightarrow> projection" where
  "new_projection eh rh =
     \<lparr>pj_balance = None, pj_positions = Map.empty, pj_revision = 0, pj_ready = False,
      pj_equity_hook = eh, pj_refresh_hook = rh\<rparr>"

definition not_ready :: go_error where
  "not_ready = Errorf ''account projection not ready''"

subsection \<open>Queries\<close>

definition account_equity :: "decimal_lib \<Rightarrow> projection \<Rightarrow> decimal result" where
  "account_equity D p =
     (if \<not> pj_ready p then Inl not_ready
      else case pj_balance p of None \<Rightarrow> Inl not_ready
        | Some b \<Rightarrow> (case dec_parse D (trim_space (b_total b)) of
            None \<Rightarrow> Inl (Errorf (''can't convert '' @ trim_space (b_total b) @ '' to decimal''))
          | Some d \<Rightarrow> Inr d))"

definition position_for_contract :: "projection \<Rightarrow> contract \<Rightarrow> position option result" where
  "position_for_contract p c = (if \<not> pj_ready p then Inl not_ready else Inr (pj_positions p c))"

definition all_positions :: "contract list \<Rightarrow> projection \<Rightarrow> position list result" where
  "all_positions ks p = (if \<not> pj_ready p then Inl not_ready else Inr (map_values ks (pj_positions p)))"

definition snapshot :: "projection \<Rightarrow> contract \<Rightarrow> (balance \<times> position option \<times> 64 word) result" where
  "snapshot p c =
     (if \<not> pj_ready p then Inl not_ready
      else case pj_balance p of None \<Rightarrow> Inl not_ready
        | Some b \<Rightarrow> Inr (b, pj_positions p c, pj_revision p))"

text \<open>The length of a map is the number of keys of a range over it.\<close>

definition open_position_count :: "contract list \<Rightarrow> projection \<Rightarrow> int result" where
  "open_position_count ks p =
     (if \<not> pj_ready p then Inl not_ready else Inr (int (length (map_values ks (pj_positions p)))))"

lemma open_position_count_card:
  "pj_ready p \<Longrightarrow> iterates ks (pj_positions p) \<Longrightarrow>
   open_position_count ks p = Inr (int (card (dom (pj_positions p))))"
  by (simp add: open_position_count_def length_map_values_iterates)

subsection \<open>User events\<close>

definition position_size_is_zero :: "string \<Rightarrow> bool" where
  "position_size_is_zero s =
     (case read_float (trim_space s) of
        None \<Rightarrow> trim_space s = [] \<or> trim_space s = ''0''
      | Some f \<Rightarrow> f = Fin 0)"

definition notify_equity :: "decimal_lib \<Rightarrow> go_time \<Rightarrow> projection \<Rightarrow> (decimal \<times> go_time) list" where
  "notify_equity D now p =
     (if \<not> pj_equity_hook p then []
      else case pj_balance p of None \<Rightarrow> []
        | Some b \<Rightarrow> (case dec_parse D (trim_space (b_total b)) of None \<Rightarrow> [] | Some e \<Rightarrow> [(e, now)]))"

definition apply_position_update :: "user_event \<Rightarrow> projection \<Rightarrow> projection" where
  "apply_position_update ev p =
     (case ev_position ev of
        None \<Rightarrow> p
      | Some q \<Rightarrow>
          if p_contract q = [] then p
          else if position_size_is_zero (p_size q) then
            p\<lparr>pj_positions := (pj_positions p)(p_contract q := None), pj_revision := pj_revision p + 1\<rparr>
          else
            p\<lparr>pj_positions := (pj_positions p)(p_contract q \<mapsto> q), pj_revision := pj_revision p + 1\<rparr>)"

definition apply_balance_update ::
  "decimal_lib \<Rightarrow> go_time \<Rightarrow> user_event \<Rightarrow> projection \<Rightarrow> projection \<times> (decimal \<times> go_time) list" where
  "apply_balance_update D now ev p =
     (case ev_balance ev of
        None \<Rightarrow> (p, [])
      | Some u \<Rightarrow> (case pj_balance p of
          None \<Rightarrow> (p, [])
        | Some b \<Rightarrow>
            if \<not> equal_fold (trim_space (bu_currency u)) (trim_space (b_currency b)) then (p, [])
            else let total = trim_space (bu_balance u)
                 in if total = [] then (p, [])
                    else let b' = b\<lparr>b_total := total,
                                    b_updated := (if bu_updated u = zero_time then now else bu_updated u)\<rparr>;
                             p' = p\<lparr>pj_balance := Some b', pj_revision := pj_revision p + 1\<rparr>
                         in (p', notify_equity D now p')))"

definition proj_user_event ::
  "decimal_lib \<Rightarrow> go_time \<Rightarrow> user_event option \<Rightarrow> projection \<Rightarrow>
   projection \<times> (decimal \<times> go_time) list" where
  "proj_user_event D now evo p =
     (case evo of
        None \<Rightarrow> (p, [])
      | Some ev \<Rightarrow>
          if \<not> pj_ready p then (p, [])
          else (case ue_kind ev of
            UserPositionUpdate \<Rightarrow> (apply_position_update ev p, [])
          | UserBalanceUpdate \<Rightarrow> apply_balance_update D now ev p
          | _ \<Rightarrow> (p, [])))"

subsection \<open>Refresh\<close>

fun index_positions :: "position option list \<Rightarrow> (contract \<rightharpoonup> position) \<Rightarrow> (contract \<rightharpoonup> position)" where
  "index_positions [] m = m"
| "index_positions (None # ps) m = index_positions ps m"
| "index_positions (Some q # ps) m = index_positions ps (m(p_contract q \<mapsto> q))"

text \<open>\<open>snapshotPositionsCopy\<close>: the keys of the range are sorted as byte strings.\<close>

definition snapshot_positions_copy :: "contract list \<Rightarrow> (contract \<rightharpoonup> position) \<Rightarrow> position list" where
  "snapshot_positions_copy ks m = map_values (sort ks) m"

record refresh_call =
  rc_balance :: balance
  rc_positions :: "position list"
  rc_revision :: "64 word"
  rc_at :: go_time

definition refresh ::
  "decimal_lib \<Rightarrow> go_time \<Rightarrow> contract list \<Rightarrow> balance result \<Rightarrow> position option list result \<Rightarrow> projection \<Rightarrow>
   go_error option \<times> projection \<times> (decimal \<times> go_time) list \<times> refresh_call option" where
  "refresh D now ks bal list p =
     (case bal of Inl e \<Rightarrow> (Some e, p, [], None)
      | Inr b \<Rightarrow> (case list of Inl e \<Rightarrow> (Some e, p, [], None)
        | Inr ps \<Rightarrow>
            let m = index_positions ps Map.empty;
                p' = p\<lparr>pj_balance := Some b, pj_positions := m, pj_revision := pj_revision p + 1, pj_ready := True\<rparr>
            in (None, p', notify_equity D now p',
                if pj_refresh_hook p
                then Some \<lparr>rc_balance = b, rc_positions = snapshot_positions_copy ks m,
                           rc_revision = pj_revision p', rc_at = now\<rparr>
                else None)))"

subsection \<open>Histories\<close>

text \<open>A step of the projection: the answers of the two REST calls and their instant, or a user
  event.\<close>

datatype proj_event =
    Refresh go_time "balance result" "position option list result"
  | User go_time user_event

fun proj_step :: "decimal_lib \<Rightarrow> proj_event \<Rightarrow> projection \<Rightarrow> projection" where
  "proj_step D (Refresh now bal list) p = fst (snd (refresh D now [] bal list p))"
| "proj_step D (User now ev) p = fst (proj_user_event D now (Some ev) p)"

definition proj_run :: "decimal_lib \<Rightarrow> proj_event list \<Rightarrow> projection \<Rightarrow> projection" where
  "proj_run D es p = fold (proj_step D) es p"

lemma proj_run_snoc: "proj_run D (es @ [e]) p = proj_step D e (proj_run D es p)"
  by (simp add: proj_run_def)

text \<open>The specification, on the history read backwards: the position of a contract is what the
  last successful refresh or the last position update after the first refresh says.\<close>

fun refreshed :: "proj_event list \<Rightarrow> bool" where
  "refreshed [] = False"
| "refreshed (Refresh now bal list # es) = (is_ok bal \<and> is_ok list \<or> refreshed es)"
| "refreshed (User now ev # es) = refreshed es"

fun last_in :: "contract \<Rightarrow> position option list \<Rightarrow> position option" where
  "last_in c [] = None"
| "last_in c (po # ps) = (case last_in c ps of Some q \<Rightarrow> Some q
     | None \<Rightarrow> (case po of Some q \<Rightarrow> if p_contract q = c then Some q else None | None \<Rightarrow> None))"

fun spec_position :: "contract \<Rightarrow> proj_event list \<Rightarrow> position option" where
  "spec_position c [] = None"
| "spec_position c (Refresh now (Inr b) (Inr ps) # es) = last_in c ps"
| "spec_position c (Refresh now _ _ # es) = spec_position c es"
| "spec_position c (User now ev # es) =
     (case ev_position ev of
        Some q \<Rightarrow> if refreshed es \<and> p_contract q = c \<and> c \<noteq> []
                  then (if position_size_is_zero (p_size q) then None else Some q)
                  else spec_position c es
      | None \<Rightarrow> spec_position c es)"

lemma index_positions_last:
  "index_positions ps m c = (case last_in c ps of Some q \<Rightarrow> Some q | None \<Rightarrow> m c)"
  by (induction ps m rule: index_positions.induct) (auto simp: fun_upd_def split: option.splits)

lemma ev_position_kind: "ev_position ev = Some q \<Longrightarrow> ue_kind ev = UserPositionUpdate"
  by (auto simp: ev_position_def split: if_splits)

lemma proj_user_event_sel:
  "pj_ready (fst (proj_user_event D now evo p)) = pj_ready p"
  "pj_positions (fst (proj_user_event D now (Some ev) p)) =
     (if pj_ready p then pj_positions (apply_position_update ev p) else pj_positions p)"
  by (auto simp: proj_user_event_def apply_position_update_def apply_balance_update_def Let_def
        dest: ev_position_kind split: option.splits user_kind.splits)

lemma proj_run_ready: "pj_ready (proj_run D es (new_projection eh rh)) = refreshed (rev es)"
proof (induction es rule: rev_induct)
  case (snoc e es)
  then show ?case
    by (cases e) (auto simp: proj_run_snoc proj_user_event_sel refresh_def Let_def is_ok_def split: sum.splits)
qed (simp add: proj_run_def new_projection_def)

text \<open>C13. The projection refines its event history: it is ready exactly when a refresh has
  succeeded, and the position it reports for a contract is the one the last successful refresh
  or the last later position update says, whatever else happened in between; user events before
  the first refresh have no effect.\<close>

theorem projection_refines:
  "position_for_contract (proj_run D es (new_projection eh rh)) c =
     (if refreshed (rev es) then Inr (spec_position c (rev es)) else Inl not_ready)"
proof -
  have "pj_positions (proj_run D es (new_projection eh rh)) c = spec_position c (rev es)"
  proof (induction es rule: rev_induct)
    case (snoc e es)
    show ?case
    proof (cases e)
      case (Refresh now bal ps)
      then show ?thesis using snoc
        by (cases bal; cases ps) (auto simp: proj_run_snoc refresh_def Let_def index_positions_last split: option.splits)
    next
      case (User now ev)
      then show ?thesis using snoc
        by (auto simp: proj_run_snoc proj_user_event_sel apply_position_update_def proj_run_ready split: option.splits)
    qed
  qed (simp add: proj_run_def new_projection_def)
  then show ?thesis by (simp add: position_for_contract_def proj_run_ready)
qed

text \<open>The revision counts the changes: a step that changes balance, positions or readiness
  advances the revision by one (modulo the 64-bit width), and a step that does not advance it
  leaves the whole projection as it was. A reader that sees the same revision twice within
  2^64 changes has seen the same account.\<close>

theorem projection_revision:
  "proj_step D e p = p \<or> pj_revision (proj_step D e p) = pj_revision p + 1"
  by (cases e) (auto simp: refresh_def Let_def proj_user_event_def apply_position_update_def
      apply_balance_update_def split: sum.splits option.splits user_kind.splits)

text \<open>The list of positions handed to the refresh hook does not depend on the order in
  which Go ranges over the map.\<close>

theorem snapshot_positions_deterministic:
  assumes "iterates ks m" and "iterates ks' m"
  shows "snapshot_positions_copy ks m = snapshot_positions_copy ks' m"
proof -
  have "sort ks = sort ks'"
    using assms by (metis iterates_def sorted_list_of_set_sort_remdups distinct_remdups_id)
  then show ?thesis by (simp add: snapshot_positions_copy_def)
qed

definition pos_ex :: "contract \<Rightarrow> pos_side \<Rightarrow> string \<Rightarrow> position" where
  "pos_ex c side sz =
     \<lparr>p_contract = c, p_side = side, p_size = sz, p_entry = ''100'', p_mark = ''100'', p_pnl = ''0'',
      p_leverage = 5, p_updated = 0\<rparr>"

theorem snapshot_positions_deterministic_witness:
  "let q = pos_ex ''ADA/USDT'' PosLong ''3''; r = pos_ex ''BTC/USDT'' PosShort ''2'' in
   snapshot_positions_copy [''BTC/USDT'', ''ADA/USDT''] [''ADA/USDT'' \<mapsto> q, ''BTC/USDT'' \<mapsto> r] =
   snapshot_positions_copy [''ADA/USDT'', ''BTC/USDT''] [''ADA/USDT'' \<mapsto> q, ''BTC/USDT'' \<mapsto> r]"
  unfolding Let_def by (rule snapshot_positions_deterministic) (auto simp: iterates_def)

end
