(* ===== verification/KlineHistory.thy ===== *)
theory KlineHistory
  imports Models
begin

text \<open>
  \<open>internal/app/market/perp/kline_history.go\<close>: the buffer of closed bars per (contract,
  interval), filled by the REST warm-up and by the closed bars of the stream. A missing key of
  the Go map is the empty list.
\<close>

type_synonym candle_key = "contract \<times> string"

record kline_store =
  kh_bars :: "candle_key \<Rightarrow> kline list"
  kh_max :: int

definition default_kline_max :: int where
  "default_kline_max = 2000"

definition eff_max :: "kline_store \<Rightarrow> nat" where
  "eff_max s = nat (if kh_max s \<le> 0 then default_kline_max else kh_max s)"

definition set_bars :: "candle_key \<Rightarrow> kline list \<Rightarrow> kline_store \<Rightarrow> kline_store" where
  "set_bars key l s = s\<lparr>kh_bars := (kh_bars s)(key := l)\<rparr>"

lemma set_bars_sel [simp]:
  "kh_bars (set_bars key l s) = (kh_bars s)(key := l)" "kh_max (set_bars key l s) = kh_max s"
  "eff_max (set_bars key l s) = eff_max s"
  by (simp_all add: set_bars_def eff_max_def)

lemma eff_max_pos: "0 < eff_max s"
  by (simp add: eff_max_def default_kline_max_def)

definition trim_list :: "kline_store \<Rightarrow> kline list \<Rightarrow> kline list" where
  "trim_list s l = (if length l \<le> eff_max s then l else drop (length l - eff_max s) l)"

definition append_kline :: "candle_key \<Rightarrow> kline \<Rightarrow> kline_store \<Rightarrow> kline_store" where
  "append_kline key k s =
     (let l = kh_bars s key;
          l' = (if 0 < length l \<and> k_sec (l ! (length l - 1)) = k_sec k
                then l[length l - 1 := k] else l @ [k])
      in set_bars key (trim_list s l') s)"

definition append_closed_kline :: "candle option \<Rightarrow> kline_store \<Rightarrow> kline_store" where
  "append_closed_kline co s =
     (case co of None \<Rightarrow> s
      | Some c \<Rightarrow> if \<not> c_closed c then s
                  else append_kline (c_contract c, c_interval c) (kline_from_snapshot c) s)"

text \<open>\<open>sort.Search\<close>: the binary search of the standard library, on the half-open range.\<close>

function search_range :: "(nat \<Rightarrow> bool) \<Rightarrow> nat \<Rightarrow> nat \<Rightarrow> nat" where
  "search_range f i j =
     (if i < j then let h = (i + j) div 2
                    in if \<not> f h then search_range f (h + 1) j else search_range f i h
      else i)"
  by pat_completeness auto
termination
  by (relation "measure (\<lambda>(f, i, j). j - i)") auto

declare search_range.simps [simp del]

definition sort_search :: "nat \<Rightarrow> (nat \<Rightarrow> bool) \<Rightarrow> nat" where
  "sort_search n f = search_range f 0 n"

definition merge_list :: "kline list \<Rightarrow> kline \<Rightarrow> kline list" where
  "merge_list l k =
     (let idx = sort_search (length l) (\<lambda>i. k_sec k \<le> k_sec (l ! i))
      in if idx < length l \<and> k_sec (l ! idx) = k_sec k then l[idx := k]
         else take idx l @ k # drop idx l)"

definition merge_kline :: "candle_key \<Rightarrow> kline \<Rightarrow> kline_store \<Rightarrow> kline_store" where
  "merge_kline key k s = set_bars key (merge_list (kh_bars s key) k) s"

text \<open>\<open>sort.Slice\<close> by timestamp. The order it gives to equal timestamps is open; they only
  meet here after an out-of-order stream, and the stable sort stands for it.\<close>

definition sort_trim :: "candle_key \<Rightarrow> kline_store \<Rightarrow> kline_store" where
  "sort_trim key s =
     (if length (kh_bars s key) = 0 then s
      else set_bars key (trim_list s (sort_key k_sec (kh_bars s key))) s)"

definition history_bar :: "string \<Rightarrow> kline \<Rightarrow> kline" where
  "history_bar interval b =
     (let k = b\<lparr>k_closed := True\<rparr>
      in if k_interval k = [] then k\<lparr>k_interval := interval\<rparr> else k)"

definition ingest_series :: "string \<Rightarrow> kline_series \<Rightarrow> kline_store \<Rightarrow> kline_store" where
  "ingest_series interval ser s =
     (if ks_contract ser = [] \<or> length (ks_bars ser) = 0 then s
      else let key = (ks_contract ser, interval)
           in sort_trim key (fold (\<lambda>b. merge_kline key (history_bar interval b)) (ks_bars ser) s))"

definition ingest_history :: "string \<Rightarrow> kline_series list \<Rightarrow> kline_store \<Rightarrow> kline_store" where
  "ingest_history interval series s =
     (if interval = [] \<or> length series = 0 then s
      else fold (ingest_series interval) series s)"

definition list_closed_klines :: "kline_store \<Rightarrow> contract \<Rightarrow> string \<Rightarrow> int \<Rightarrow> kline list option" where
  "list_closed_klines s c interval limit0 =
     (if c = [] \<or> interval = [] \<or> limit0 \<le> 0 then None
      else let limit = min (nat limit0) (eff_max s); l = kh_bars s (c, interval)
           in if length l = 0 then None
              else Some (drop (if limit < length l then length l - limit else 0) l))"

definition normalize_kline_limit :: "int \<Rightarrow> int" where
  "normalize_kline_limit limit = (if limit \<le> 0 then 100 else if 2000 < limit then 2000 else limit)"

text \<open>\<open>WarmupHistory\<close>: a failed query of the exchange skips its symbol.\<close>

fun warmup_series ::
  "(contract \<Rightarrow> string \<Rightarrow> int \<Rightarrow> candle option list result) \<Rightarrow> string \<Rightarrow> int \<Rightarrow> contract list \<Rightarrow> kline_series list" where
  "warmup_series rest interval bars [] = []"
| "warmup_series rest interval bars (c # cs) =
     (case rest c interval bars of
        Inl e \<Rightarrow> warmup_series rest interval bars cs
      | Inr snaps \<Rightarrow>
          let bs = klines_from_snapshots snaps
          in if length bs = 0 then warmup_series rest interval bars cs
             else \<lparr>ks_contract = c, ks_bars = bs\<rparr> # warmup_series rest interval bars cs)"

definition warmup_history ::
  "(contract \<Rightarrow> string \<Rightarrow> int \<Rightarrow> candle option list result) \<Rightarrow> contract list \<Rightarrow> string \<Rightarrow> int \<Rightarrow>
   kline_store \<Rightarrow> history_payload option \<times> kline_store" where
  "warmup_history rest symbols interval bars s =
     (if bars \<le> 0 then (None, s)
      else let series = warmup_series rest interval bars symbols
           in if length series = 0 then (None, s)
              else (Some \<lparr>h_interval = interval, h_series = series\<rparr>, ingest_history interval series s))"

subsection \<open>Binary search\<close>

lemma search_range_step:
  "i < j \<Longrightarrow> h = (i + j) div 2 \<Longrightarrow>
   search_range f i j = (if f h then search_range f i h else search_range f (Suc h) j)"
  "\<not> i < j \<Longrightarrow> search_range f i j = i"
  by (subst search_range.simps, simp add: Let_def)+

lemma search_range_le: "i \<le> j \<Longrightarrow> i \<le> search_range f i j \<and> search_range f i j \<le> j"
proof (induction f i j rule: search_range.induct)
  case (1 f i j)
  show ?case
  proof (cases "i < j")
    case True
    define h where h: "h = (i + j) div 2"
    then have "i \<le> h" "h < j" using True by auto
    moreover have "\<not> f h \<Longrightarrow> h + 1 \<le> search_range f (h + 1) j \<and> search_range f (h + 1) j \<le> j"
      by (rule 1(1) [OF True h]) (use \<open>h < j\<close> in auto)
    moreover have "f h \<Longrightarrow> i \<le> search_range f i h \<and> search_range f i h \<le> h"
      by (rule 1(2) [OF True h]) (use \<open>i \<le> h\<close> in auto)
    ultimately show ?thesis unfolding search_range_step(1) [OF True h] by (cases "f h") simp_all
  qed (use 1 in \<open>simp add: search_range_step(2)\<close>)
qed

text \<open>On a predicate that stays true once it is, the search returns the first true index.\<close>

lemma search_range_first:
  assumes "i \<le> j" and "\<And>a b. a \<le> b \<Longrightarrow> b < j \<Longrightarrow> f a \<Longrightarrow> f b"
  shows "(\<forall>k. i \<le> k \<and> k < search_range f i j \<longrightarrow> \<not> f k) \<and>
         (\<forall>k. search_range f i j \<le> k \<and> k < j \<longrightarrow> f k)"
  using assms
proof (induction f i j rule: search_range.induct)
  case (1 f i j)
  show ?case
  proof (cases "i < j")
    case False
    then show ?thesis by (auto simp: search_range_step(2))
  next
    case True
    define h where hd: "h = (i + j) div 2"
    have h: "i \<le> h" "h < j" using True by (auto simp: hd)
    note step = search_range_step(1) [OF True hd, of f]
    show ?thesis
    proof (cases "f h")
      case True
      have "(\<forall>k. i \<le> k \<and> k < search_range f i h \<longrightarrow> \<not> f k) \<and> (\<forall>k. search_range f i h \<le> k \<and> k < h \<longrightarrow> f k)"
      proof (rule 1(2) [OF \<open>i < j\<close> hd])
        show "f b" if "a \<le> b" "b < h" "f a" for a b
          using 1(4) [OF that(1) less_trans [OF that(2) h(2)] that(3)] .
      qed (simp_all add: True h)
      moreover have "f k" if "h \<le> k" "k < j" for k using 1(4) [OF that True] .
      ultimately show ?thesis unfolding step if_P [OF True] by (metis not_le)
    next
      case False
      have ih: "(\<forall>k. h + 1 \<le> k \<and> k < search_range f (h + 1) j \<longrightarrow> \<not> f k) \<and>
            (\<forall>k. search_range f (h + 1) j \<le> k \<and> k < j \<longrightarrow> f k)"
      proof (rule 1(1) [OF \<open>i < j\<close> hd])
        show "f b" if "a \<le> b" "b < j" "f a" for a b using 1(4) [OF that] .
      qed (use False h in simp_all)
      have "\<not> f k" if "k \<le> h" for k using 1(4) [OF that h(2)] False by blast
      with ih show ?thesis unfolding step if_not_P [OF False] Suc_eq_plus1
        by (metis Suc_eq_plus1 not_less_eq_eq)
    qed
  qed
qed

subsection \<open>Merging a bar is a map update\<close>

definition ascending :: "kline list \<Rightarrow> bool" where
  "ascending l \<longleftrightarrow> sorted_wrt (\<lambda>a b. k_sec a < k_sec b) l"

definition bar_at :: "kline list \<Rightarrow> int \<Rightarrow> kline option" where
  "bar_at l t = find (\<lambda>k. k_sec k = t) l"

lemma ascending_simps [simp]:
  "ascending []" "ascending (a # l) \<longleftrightarrow> (\<forall>b \<in> set l. k_sec a < k_sec b) \<and> ascending l"
  by (simp_all add: ascending_def)

lemma ascending_append:
  "ascending (xs @ ys) \<longleftrightarrow> ascending xs \<and> ascending ys \<and> (\<forall>a \<in> set xs. \<forall>b \<in> set ys. k_sec a < k_sec b)"
  by (simp add: ascending_def sorted_wrt_append)

lemma ascending_drop: "ascending l \<Longrightarrow> ascending (drop n l)"
  by (simp add: ascending_def sorted_wrt_drop)

lemma ascending_sorted: "ascending l \<Longrightarrow> sort_key k_sec l = l"
  unfolding ascending_def
  by (intro sort_key_id_if_sorted) (auto simp: sorted_map intro: sorted_wrt_mono_rel [rotated])

lemma bar_at_append: "bar_at (xs @ ys) t = (case bar_at xs t of None \<Rightarrow> bar_at ys t | Some k \<Rightarrow> Some k)"
  by (induction xs) (auto simp: bar_at_def)

lemma bar_at_None: "bar_at l t = None \<longleftrightarrow> (\<forall>k \<in> set l. k_sec k \<noteq> t)"
  by (simp add: bar_at_def find_None_iff_all)

lemma bar_at_Cons [simp]:
  "bar_at [] t = None" "bar_at (a # l) t = (if k_sec a = t then Some a else bar_at l t)"
  by (simp_all add: bar_at_def)

text \<open>The list splits at the searched index, and the merged bar stands between the two parts.\<close>

lemma merge_list_split:
  assumes "ascending l"
  obtains xs ys where "\<forall>a \<in> set xs. k_sec a < k_sec k" and "\<forall>b \<in> set ys. k_sec k < k_sec b"
    and "l = xs @ ys \<or> (\<exists>m. k_sec m = k_sec k \<and> l = xs @ m # ys)"
    and "merge_list l k = xs @ k # ys" and "ascending xs" and "ascending ys"
proof -
  let ?f = "\<lambda>i. k_sec k \<le> k_sec (l ! i)"
  define n where "n = sort_search (length l) ?f"
  have mono: "?f b" if "a \<le> b" "b < length l" "?f a" for a b
  proof (cases "a = b")
    case False
    then have "k_sec (l ! a) < k_sec (l ! b)"
      using assms that(1,2) by (simp add: ascending_def sorted_wrt_iff_nth_less)
    then show ?thesis using that(3) by simp
  qed (use that in simp)
  have n: "n \<le> length l"
    using search_range_le [of 0 "length l" ?f, OF le0] unfolding n_def sort_search_def by blast
  have "(\<forall>k. 0 \<le> k \<and> k < n \<longrightarrow> \<not> ?f k) \<and> (\<forall>k. n \<le> k \<and> k < length l \<longrightarrow> ?f k)"
    unfolding n_def sort_search_def
  proof (rule search_range_first [OF le0])
    show "?f b" if "a \<le> b" "b < length l" "?f a" for a b by (rule mono [OF that])
  qed
  then have s: "\<forall>i. i < n \<longrightarrow> \<not> ?f i" "\<forall>i. n \<le> i \<and> i < length l \<longrightarrow> ?f i" by blast+
  have asc: "ascending (take n l)" "ascending (drop n l)"
    using assms ascending_append [of "take n l" "drop n l"] unfolding append_take_drop_id by blast+
  have lo: "\<forall>a \<in> set (take n l). k_sec a < k_sec k"
    using s(1) n by (auto simp: in_set_conv_nth not_le)
  have hi: "\<forall>b \<in> set (drop n l). k_sec k \<le> k_sec b"
    using s(2) by (auto simp: in_set_conv_nth)
  show ?thesis
  proof (cases "n < length l \<and> k_sec (l ! n) = k_sec k")
    case True
    then have d: "drop n l = l ! n # drop (Suc n) l" by (simp add: Cons_nth_drop_Suc)
    have "merge_list l k = take n l @ k # drop (Suc n) l"
      using True by (simp add: merge_list_def Let_def n_def [symmetric] upd_conv_take_nth_drop)
    moreover have "l = take n l @ l ! n # drop (Suc n) l" by (metis append_take_drop_id d)
    moreover have "\<forall>b \<in> set (drop (Suc n) l). k_sec k < k_sec b" "ascending (drop (Suc n) l)"
      using asc(2) True unfolding d by simp_all
    ultimately show ?thesis using that lo asc(1) True by blast
  next
    case False
    have "merge_list l k = take n l @ k # drop n l"
      using False by (auto simp: merge_list_def Let_def n_def [symmetric])
    moreover have "\<forall>b \<in> set (drop n l). k_sec k < k_sec b"
    proof
      fix b assume b: "b \<in> set (drop n l)"
      then have nl: "n < length l" by (cases "n < length l") simp_all
      then have d: "drop n l = l ! n # drop (Suc n) l" by (simp add: Cons_nth_drop_Suc)
      have "k_sec k \<le> k_sec (l ! n)" using s(2) nl by blast
      then have "k_sec k < k_sec (l ! n)" using False nl by fastforce
      then show "k_sec k < k_sec b" using b asc(2) unfolding d by fastforce
    qed
    ultimately show ?thesis using that [of "take n l" "drop n l"] lo asc by simp
  qed
qed

lemma ascending_merge_list: "ascending l \<Longrightarrow> ascending (merge_list l k)"
  by (erule merge_list_split [of _ k]) (fastforce simp: ascending_append)

lemma bar_at_merge_list:
  assumes "ascending l"
  shows "bar_at (merge_list l k) t = (if t = k_sec k then Some k else bar_at l t)"
  using assms
proof (rule merge_list_split [of l k])
  fix xs ys
  assume "\<forall>a \<in> set xs. k_sec a < k_sec k" "\<forall>b \<in> set ys. k_sec k < k_sec b"
    and l: "l = xs @ ys \<or> (\<exists>m. k_sec m = k_sec k \<and> l = xs @ m # ys)" and m: "merge_list l k = xs @ k # ys"
  then have "bar_at xs (k_sec k) = None" by (auto simp: bar_at_None)
  with l show ?thesis unfolding m by (auto simp: bar_at_append split: option.splits)
qed

text \<open>Merging a REST bar into an ascending buffer is a map update: the buffer stays strictly
  ascending in time, the bar of its timestamp is the merged one and every other timestamp keeps
  its bar. The binary search therefore always finds the right place.\<close>

theorem merge_list_refines:
  assumes "ascending l"
  shows "ascending (merge_list l k) \<and> bar_at (merge_list l k) = (bar_at l)(k_sec k \<mapsto> k)"
  using ascending_merge_list [OF assms] bar_at_merge_list [OF assms] by auto

definition bar_ex :: "int \<Rightarrow> string \<Rightarrow> kline" where
  "bar_ex t c =
     \<lparr>k_contract = ''BTC/USDT'', k_interval = ''1m'', k_open = c, k_high = c, k_low = c, k_close = c,
      k_volume = ''1'', k_volume_base = ''1'', k_sec = t, k_closed = True\<rparr>"

theorem merge_list_refines_witness:
  "ascending (merge_list [bar_ex 60 ''1'', bar_ex 180 ''2''] (bar_ex 120 ''3'')) \<and>
   bar_at (merge_list [bar_ex 60 ''1'', bar_ex 180 ''2''] (bar_ex 120 ''3'')) =
     (bar_at [bar_ex 60 ''1'', bar_ex 180 ''2''])(120 \<mapsto> bar_ex 120 ''3'')"
  using merge_list_refines [of "[bar_ex 60 ''1'', bar_ex 180 ''2'']" "bar_ex 120 ''3''"]
  by (simp add: bar_ex_def)

subsection \<open>The buffer invariant\<close>

text \<open>Every buffer is ascending, holds closed bars only and is no longer than the cap.\<close>

definition bars_ok :: "nat \<Rightarrow> kline list \<Rightarrow> bool" where
  "bars_ok n l \<longleftrightarrow> ascending l \<and> (\<forall>k \<in> set l. k_closed k) \<and> length l \<le> n"

definition store_ok :: "kline_store \<Rightarrow> bool" where
  "store_ok s \<longleftrightarrow> (\<forall>key. bars_ok (eff_max s) (kh_bars s key))"

lemma store_okD:
  assumes "store_ok s"
  shows "bars_ok (eff_max s) (kh_bars s key)" and "ascending (kh_bars s key)"
    and "\<forall>k \<in> set (kh_bars s key). k_closed k" and "length (kh_bars s key) \<le> eff_max s"
  using assms [unfolded store_ok_def, THEN spec [of _ key]] by (auto simp: bars_ok_def)

lemma trim_list_drop: "trim_list s l = drop (length l - eff_max s) l"
  by (simp add: trim_list_def)

lemma bars_ok_trim: "ascending l \<Longrightarrow> (\<forall>k \<in> set l. k_closed k) \<Longrightarrow> bars_ok (eff_max s) (trim_list s l)"
  by (auto simp: bars_ok_def trim_list_drop ascending_drop dest: in_set_dropD)

lemma store_ok_set_bars: "store_ok s \<Longrightarrow> bars_ok (eff_max s) l \<Longrightarrow> store_ok (set_bars key l s)"
  by (simp add: store_ok_def)

text \<open>A stream bar keeps the invariant when it is not older than the last bar of its buffer.\<close>

definition in_order :: "kline list \<Rightarrow> int \<Rightarrow> bool" where
  "in_order l t \<longleftrightarrow> (l = [] \<or> k_sec (last l) \<le> t)"

lemma ascending_snoc: "ascending (xs @ [k]) \<longleftrightarrow> ascending xs \<and> (xs = [] \<or> k_sec (last xs) < k_sec k)"
proof (cases xs rule: rev_cases)
  case (snoc ys y)
  then show ?thesis by (auto simp: ascending_append)
qed simp

lemma append_kline_ok [inv_intros]:
  assumes "store_ok s" and "k_closed k" and "in_order (kh_bars s key) (k_sec k)"
  shows "store_ok (append_kline key k s)"
proof -
  let ?l = "kh_bars s key"
  have l: "ascending ?l" "\<forall>b \<in> set ?l. k_closed b" using store_okD [OF assms(1)] by blast+
  define l' where "l' = (if 0 < length ?l \<and> k_sec (?l ! (length ?l - 1)) = k_sec k
                then ?l[length ?l - 1 := k] else ?l @ [k])"
  have "ascending l' \<and> (\<forall>b \<in> set l'. k_closed b)"
  proof (cases ?l rule: rev_cases)
    case Nil
    then show ?thesis using assms(2) by (simp add: l'_def)
  next
    case (snoc ys y)
    then show ?thesis using l assms(2,3)
      by (auto simp: l'_def nth_append list_update_append ascending_append in_order_def)
  qed
  then show ?thesis
    unfolding append_kline_def Let_def l'_def [symmetric]
    by (intro store_ok_set_bars assms(1) bars_ok_trim) auto
qed

text \<open>A merge may exceed the cap; the trim that ends every series restores it.\<close>

definition pre_ok :: "candle_key \<Rightarrow> kline_store \<Rightarrow> bool" where
  "pre_ok key s \<longleftrightarrow> (\<forall>key'. key' \<noteq> key \<longrightarrow> bars_ok (eff_max s) (kh_bars s key')) \<and>
     ascending (kh_bars s key) \<and> (\<forall>k \<in> set (kh_bars s key). k_closed k)"

lemma set_merge_list: "ascending l \<Longrightarrow> set (merge_list l k) \<subseteq> insert k (set l)"
  by (erule merge_list_split [of _ k]) auto

lemma merge_kline_pre_ok: "pre_ok key s \<Longrightarrow> k_closed k \<Longrightarrow> pre_ok key (merge_kline key k s)"
  using set_merge_list [of "kh_bars s key" k]
  by (auto simp: pre_ok_def merge_kline_def ascending_merge_list simp del: split_paired_All)

lemma history_bar_closed [simp]: "k_closed (history_bar i b)" "k_sec (history_bar i b) = k_sec b"
  by (simp_all add: history_bar_def Let_def)

lemma fold_merge_pre_ok:
  "pre_ok key s \<Longrightarrow> pre_ok key (fold (\<lambda>b. merge_kline key (history_bar i b)) bs s)"
  by (induction bs arbitrary: s) (simp_all add: merge_kline_pre_ok)

lemma sort_trim_ok: "pre_ok key s \<Longrightarrow> store_ok (sort_trim key s)"
  unfolding store_ok_def
proof
  fix key'
  assume p: "pre_ok key s"
  then have "bars_ok (eff_max s) (trim_list s (kh_bars s key))"
    by (intro bars_ok_trim) (auto simp: pre_ok_def)
  moreover have "key' \<noteq> key \<Longrightarrow> bars_ok (eff_max s) (kh_bars s key')"
    using p by (simp add: pre_ok_def del: split_paired_All)
  ultimately show "bars_ok (eff_max (sort_trim key s)) (kh_bars (sort_trim key s) key')"
    using p by (cases "kh_bars s key = []"; cases "key' = key")
       (simp_all add: sort_trim_def pre_ok_def ascending_sorted trim_list_def)
qed

lemma store_ok_pre_ok: "store_ok s \<Longrightarrow> pre_ok key s"
  by (simp add: pre_ok_def store_okD del: split_paired_All)

lemma ingest_series_ok: "store_ok s \<Longrightarrow> store_ok (ingest_series i ser s)"
  by (simp add: ingest_series_def Let_def sort_trim_ok fold_merge_pre_ok store_ok_pre_ok)

lemma ingest_history_ok [inv_intros]: "store_ok s \<Longrightarrow> store_ok (ingest_history i series s)"
proof -
  have "store_ok s \<Longrightarrow> store_ok (fold (ingest_series i) series s)"
    by (induction series arbitrary: s) (simp_all add: ingest_series_ok)
  then show "store_ok s \<Longrightarrow> ?thesis" by (simp add: ingest_history_def)
qed

lemma append_closed_ok [inv_intros]:
  assumes "store_ok s" and "in_order (kh_bars s (c_contract c, c_interval c)) (c_sec c)"
  shows "store_ok (append_closed_kline (Some c) s)"
  using assms append_kline_ok [OF assms(1), of "kline_from_snapshot c" "(c_contract c, c_interval c)"]
  by (simp add: append_closed_kline_def kline_from_snapshot_def)

lemma list_closed_ok:
  assumes "store_ok s" and "list_closed_klines s c i n = Some out"
  shows "ascending out \<and> (\<forall>k \<in> set out. k_closed k) \<and> 0 < length out \<and>
    length out = min (min (nat n) (eff_max s)) (length (kh_bars s (c, i))) \<and>
    (\<exists>older. kh_bars s (c, i) = older @ out)"
proof -
  let ?l = "kh_bars s (c, i)" and ?lim = "min (nat n) (eff_max s)"
  have l: "?l \<noteq> []" "0 < n" and out: "out = drop (length ?l - ?lim) ?l"
    using assms(2) by (auto simp: list_closed_klines_def Let_def not_less split: if_splits)
  have "?l = take (length ?l - ?lim) ?l @ out" by (simp add: out)
  moreover have "ascending out" unfolding out by (intro ascending_drop store_okD assms(1))
  moreover have "\<forall>k \<in> set out. k_closed k"
    using store_okD(3) [OF assms(1), of "(c, i)"] by (auto simp: out dest: in_set_dropD)
  moreover have "length out = min ?lim (length ?l)" by (simp add: out)
  moreover have "0 < min ?lim (length ?l)" using l eff_max_pos [of s] by simp
  ultimately show ?thesis by auto
qed

subsection \<open>Histories of the buffer\<close>

datatype kline_event = StreamBar candle | RestBars string "kline_series list"

fun kline_step :: "kline_event \<Rightarrow> kline_store \<Rightarrow> kline_store" where
  "kline_step (StreamBar c) s = append_closed_kline (Some c) s"
| "kline_step (RestBars i series) s = ingest_history i series s"

text \<open>The stream condition: a closed bar is not older than the last bar of its buffer.\<close>

fun stream_ordered :: "kline_event list \<Rightarrow> kline_store \<Rightarrow> bool" where
  "stream_ordered [] s = True"
| "stream_ordered (StreamBar c # es) s \<longleftrightarrow>
     (c_closed c \<longrightarrow> in_order (kh_bars s (c_contract c, c_interval c)) (c_sec c)) \<and>
     stream_ordered es (kline_step (StreamBar c) s)"
| "stream_ordered (RestBars i series # es) s \<longleftrightarrow> stream_ordered es (ingest_history i series s)"

definition empty_store :: "int \<Rightarrow> kline_store" where
  "empty_store n = \<lparr>kh_bars = (\<lambda>_. []), kh_max = n\<rparr>"

lemma store_ok_empty: "store_ok (empty_store cap)"
  by (simp add: store_ok_def bars_ok_def empty_store_def)

lemma kline_run_ok: "store_ok s \<Longrightarrow> stream_ordered es s \<Longrightarrow> store_ok (fold kline_step es s)"
proof (induction es s rule: stream_ordered.induct)
  case (2 c es s)
  then have "store_ok (kline_step (StreamBar c) s)"
    by (cases "c_closed c") (simp_all add: append_closed_ok, simp add: append_closed_kline_def)
  with 2 show ?case by simp
qed (simp_all add: ingest_history_ok)


definition candle_ex :: "int \<Rightarrow> candle" where
  "candle_ex t =
     \<lparr>c_contract = ''BTC/USDT'', c_interval = ''1m'', c_open = ''1'', c_high = ''1'', c_low = ''1'',
      c_close = ''1'', c_volume = ''1'', c_volume_base = ''1'', c_sec = t, c_closed = True\<rparr>"

definition kline_events_ex :: "kline_event list" where
  "kline_events_ex =
     [RestBars ''1m'' [\<lparr>ks_contract = ''BTC/USDT'', ks_bars = [bar_ex 120 ''2'', bar_ex 60 ''1'']\<rparr>],
      StreamBar (candle_ex 180), StreamBar (candle_ex 240)]"


text \<open>Without that condition the order is lost: an older closed bar of the stream is appended at
  the end, where the code's documentation promises ascending time.\<close>

lemma append_out_of_order:
  "map k_sec (kh_bars (fold kline_step [StreamBar (candle_ex 240), StreamBar (candle_ex 180)]
     (empty_store 3)) (''BTC/USDT'', ''1m'')) = [240, 180]"
  by (simp add: empty_store_def trim_list_def set_bars_def eff_max_def append_closed_kline_def
      append_kline_def candle_ex_def kline_from_snapshot_def)

end
