(* ===== verification/MarketRouter.thy ===== *)
theory MarketRouter
  imports KlineHistory
begin

text \<open>
  \<open>internal/app/market/perp/router.go\<close> and \<open>feed.go\<close>: the market-data router of the perpetual
  market. It counts references to ticker channels, keeps the strategies behind each ticker push
  and candle channel, caches the last ticker and bar, and fans updates out to the strategies over
  a bounded channel.

  A Go set \<open>map[string]bool\<close> (its values are always true) is a set of names. An operation that
  ranges over a map takes the order as its argument. The exchange's answer to a subscription is
  an argument, a function of the request. The channel is the list of updates it holds; an update
  that finds it full is dropped. The router's context is not cancelled.
\<close>

datatype update_kind = UpdTicker | UpdKline

record market_update =
  mu_market :: market
  mu_strategy :: string
  mu_kind :: update_kind
  mu_ticker :: "ticker option"
  mu_kline :: "kline option"

record router =
  mr_ref :: "contract \<rightharpoonup> int"
  mr_push :: "contract \<rightharpoonup> string set"
  mr_candle :: "candle_key \<rightharpoonup> string set"
  mr_tickers :: "contract \<rightharpoonup> ticker_snapshot"
  mr_klines :: "candle_key \<rightharpoonup> candle"
  mr_hist :: kline_store
  mr_chan :: "market_update list"

definition new_router :: router where
  "new_router =
     \<lparr>mr_ref = Map.empty, mr_push = Map.empty, mr_candle = Map.empty, mr_tickers = Map.empty,
      mr_klines = Map.empty, mr_hist = empty_store default_kline_max, mr_chan = []\<rparr>"

definition ticker_channel :: string where "ticker_channel = ''futures.tickers''"
definition candle_channel :: string where "candle_channel = ''futures.candlesticks''"
definition chan_cap :: nat where "chan_cap = 1000"

subsection \<open>Subscribing\<close>

definition set_of :: "'a set option \<Rightarrow> 'a set" where
  "set_of so = (case so of None \<Rightarrow> {} | Some s \<Rightarrow> s)"

lemma set_of_simps [simp]: "set_of None = {}" "set_of (Some s) = s"
  by (simp_all add: set_of_def)

definition ref_count :: "router \<Rightarrow> contract \<Rightarrow> int" where
  "ref_count mr c = (case mr_ref mr c of None \<Rightarrow> 0 | Some n \<Rightarrow> n)"

text \<open>The body of the loop over the symbols; the accumulator holds the new ticker contracts and
  the new candle keys, in their order.\<close>

definition subscribe_one ::
  "string \<Rightarrow> string \<Rightarrow> bool \<Rightarrow> contract \<Rightarrow> router \<times> contract list \<times> candle_key list \<Rightarrow>
   router \<times> contract list \<times> candle_key list" where
  "subscribe_one name interval push c = (\<lambda>(mr, tks, cks).
     let tks' = (if ref_count mr c = 0 then tks @ [c] else tks);
         ref' = (mr_ref mr)(c \<mapsto> ref_count mr c + 1);
         push' = (if push then (mr_push mr)(c \<mapsto> insert name (set_of (mr_push mr c))) else mr_push mr);
         key = (c, interval);
         cks' = (if mr_candle mr key = None then cks @ [key] else cks);
         candle' = (mr_candle mr)(key \<mapsto> insert name (set_of (mr_candle mr key)))
     in (mr\<lparr>mr_ref := ref', mr_push := push', mr_candle := candle'\<rparr>, tks', cks'))"

definition candle_sub :: "candle_key \<Rightarrow> subscription" where
  "candle_sub key = \<lparr>sub_channel = candle_channel, sub_contracts = [fst key], sub_payload = [snd key]\<rparr>"

definition sub_requests :: "contract list \<Rightarrow> candle_key list \<Rightarrow> subscription list" where
  "sub_requests tks cks =
     (if 0 < length tks then [\<lparr>sub_channel = ticker_channel, sub_contracts = tks, sub_payload = []\<rparr>] else [])
     @ map candle_sub cks"

text \<open>The error, if any, and the router: a refused subscription leaves the bookkeeping changed.\<close>

definition subscribe_contracts ::
  "(subscription list \<Rightarrow> go_error option) \<Rightarrow> string \<Rightarrow> contract list \<Rightarrow> string \<Rightarrow> bool \<Rightarrow> router \<Rightarrow>
   go_error option \<times> router" where
  "subscribe_contracts exch name symbols interval push mr =
     (let (mr', tks, cks) = fold (subscribe_one name interval push) symbols (mr, [], []);
          subs = sub_requests tks cks
      in if length subs = 0 then (None, mr')
         else case exch subs of Some e \<Rightarrow> (Some e, mr') | None \<Rightarrow> (None, mr'))"

subsection \<open>Unsubscribing\<close>

definition drop_name :: "string \<Rightarrow> string set option \<Rightarrow> string set option" where
  "drop_name name so = (case so of None \<Rightarrow> None
     | Some s \<Rightarrow> if s - {name} = {} then None else Some (s - {name}))"

definition remove_ticker_push_subs :: "string \<Rightarrow> contract list \<Rightarrow> router \<Rightarrow> router" where
  "remove_ticker_push_subs name symbols mr =
     fold (\<lambda>c mr. mr\<lparr>mr_push := (mr_push mr)(c := drop_name name (mr_push mr c))\<rparr>) symbols mr"

definition remove_ticker_push_for_strategy :: "string \<Rightarrow> router \<Rightarrow> router" where
  "remove_ticker_push_for_strategy name mr = mr\<lparr>mr_push := (\<lambda>c. drop_name name (mr_push mr c))\<rparr>"

definition dec_ref :: "contract \<Rightarrow> router \<times> contract list \<Rightarrow> router \<times> contract list" where
  "dec_ref c = (\<lambda>(mr, unsub).
     case mr_ref mr c of
       None \<Rightarrow> (mr, unsub)
     | Some n \<Rightarrow>
         if n \<le> 0 then (mr, unsub)
         else if n = 1 then (mr\<lparr>mr_ref := (mr_ref mr)(c := None)\<rparr>, unsub @ [c])
         else (mr\<lparr>mr_ref := (mr_ref mr)(c \<mapsto> n - 1)\<rparr>, unsub))"

text \<open>The contracts of the strategy's candle keys, each once, in the order of the range \<open>ks\<close>.\<close>

fun seen_contracts :: "string \<Rightarrow> router \<Rightarrow> candle_key list \<Rightarrow> contract list \<Rightarrow> contract list" where
  "seen_contracts name mr [] acc = acc"
| "seen_contracts name mr (k # ks) acc =
     seen_contracts name mr ks
       (if name \<in> set_of (mr_candle mr k) \<and> fst k \<notin> set acc then acc @ [fst k] else acc)"

definition dec_ticker_ref_for_symbols ::
  "candle_key list \<Rightarrow> string \<Rightarrow> contract list \<Rightarrow> router \<Rightarrow> router \<times> contract list" where
  "dec_ticker_ref_for_symbols ks name symbols mr =
     (let cs = (if 0 < length symbols then symbols else seen_contracts name mr ks [])
      in fold dec_ref cs (mr, []))"

definition remove_candle :: "string \<Rightarrow> candle_key \<Rightarrow> router \<times> subscription list \<Rightarrow> router \<times> subscription list" where
  "remove_candle name key = (\<lambda>(mr, unsub).
     case mr_candle mr key of
       None \<Rightarrow> (mr, unsub)
     | Some s \<Rightarrow>
         (mr\<lparr>mr_candle := (mr_candle mr)(key := drop_name name (Some s))\<rparr>,
          if s - {name} = {} then unsub @ [candle_sub key] else unsub))"

definition remove_candle_subs ::
  "string \<Rightarrow> contract list \<Rightarrow> string \<Rightarrow> router \<Rightarrow> router \<times> subscription list" where
  "remove_candle_subs name symbols interval mr =
     fold (\<lambda>c. remove_candle name (c, interval)) symbols (mr, [])"

definition exchange_unsubscribe ::
  "(subscription list \<Rightarrow> go_error option) \<Rightarrow> contract list \<Rightarrow> subscription list \<Rightarrow> go_error option" where
  "exchange_unsubscribe exch tks csubs =
     (let subs = (if 0 < length tks
                  then [\<lparr>sub_channel = ticker_channel, sub_contracts = tks, sub_payload = []\<rparr>] else []) @ csubs
      in if length subs = 0 then None else exch subs)"

definition unsubscribe_contracts ::
  "(subscription list \<Rightarrow> go_error option) \<Rightarrow> candle_key list \<Rightarrow> string \<Rightarrow> contract list \<Rightarrow> string \<Rightarrow> router \<Rightarrow>
   go_error option \<times> router" where
  "unsubscribe_contracts exch ks name symbols interval mr =
     (let mr1 = remove_ticker_push_subs name symbols mr;
          (mr2, tks) = dec_ticker_ref_for_symbols ks name symbols mr1;
          (mr3, csubs) = remove_candle_subs name symbols interval mr2
      in (exchange_unsubscribe exch tks csubs, mr3))"

definition unsubscribe_all ::
  "(subscription list \<Rightarrow> go_error option) \<Rightarrow> candle_key list \<Rightarrow> candle_key list \<Rightarrow> string \<Rightarrow> router \<Rightarrow>
   go_error option \<times> router" where
  "unsubscribe_all exch ks1 ks2 name mr =
     (let (mr1, tks) = dec_ticker_ref_for_symbols ks1 name [] mr;
          (mr2, csubs) = fold (remove_candle name) ks2 (mr1, []);
          mr3 = remove_ticker_push_for_strategy name mr2
      in (exchange_unsubscribe exch tks csubs, mr3))"

subsection \<open>Events\<close>

definition emit :: "market_update \<Rightarrow> router \<Rightarrow> router" where
  "emit u mr = (if length (mr_chan mr) < chan_cap then mr\<lparr>mr_chan := mr_chan mr @ [u]\<rparr> else mr)"

definition ticker_update :: "ticker_snapshot \<Rightarrow> string \<Rightarrow> market_update" where
  "ticker_update t name =
     \<lparr>mu_market = Perp, mu_strategy = name, mu_kind = UpdTicker,
      mu_ticker = Some (ticker_from_snapshot t), mu_kline = None\<rparr>"

definition kline_update :: "candle \<Rightarrow> string \<Rightarrow> market_update" where
  "kline_update c name =
     \<lparr>mu_market = Perp, mu_strategy = name, mu_kind = UpdKline, mu_ticker = None,
      mu_kline = Some (kline_from_snapshot c)\<rparr>"

text \<open>\<open>names\<close> is the order of the range over the subscribers of the event's key.\<close>

definition on_ticker :: "string list \<Rightarrow> public_event \<Rightarrow> router \<Rightarrow> router" where
  "on_ticker names ev mr =
     (case ev_ticker ev of
        None \<Rightarrow> mr
      | Some t \<Rightarrow>
          if tk_contract t = [] then mr
          else let mr1 = mr\<lparr>mr_tickers := (mr_tickers mr)(tk_contract t \<mapsto> t)\<rparr>
               in if set_of (mr_push mr1 (tk_contract t)) = {} then mr1
                  else fold (\<lambda>n. emit (ticker_update t n)) names mr1)"

definition on_candlestick :: "string list \<Rightarrow> public_event \<Rightarrow> router \<Rightarrow> router" where
  "on_candlestick names ev mr =
     (case ev_candlestick ev of
        None \<Rightarrow> mr
      | Some c \<Rightarrow>
          if c_contract c = [] \<or> c_interval c = [] then mr
          else let key = (c_contract c, c_interval c);
                   mr1 = mr\<lparr>mr_klines := (mr_klines mr)(key \<mapsto> c),
                            mr_hist := append_closed_kline (Some c) (mr_hist mr)\<rparr>
               in if \<not> c_closed c then mr1
                  else if set_of (mr_candle mr1 key) = {} then mr1
                  else fold (\<lambda>n. emit (kline_update c n)) names mr1)"

definition on_public_event :: "string list \<Rightarrow> public_event option \<Rightarrow> router \<Rightarrow> router" where
  "on_public_event names evo mr =
     (case evo of
        None \<Rightarrow> mr
      | Some ev \<Rightarrow> (case pe_kind ev of
          PublicTicker \<Rightarrow> on_ticker names ev mr
        | PublicCandlestick \<Rightarrow> on_candlestick names ev mr
        | OtherPublic _ \<Rightarrow> mr))"

subsection \<open>Queries and the ticker cache\<close>

definition get_cached_ticker :: "router \<Rightarrow> contract \<Rightarrow> ticker_snapshot option" where
  "get_cached_ticker mr c = mr_tickers mr c"

definition get_subscribed_symbols :: "candle_key list \<Rightarrow> router \<Rightarrow> string \<Rightarrow> contract list" where
  "get_subscribed_symbols ks mr name = seen_contracts name mr ks []"

definition clear_cache :: "router \<Rightarrow> router" where
  "clear_cache mr = mr\<lparr>mr_tickers := Map.empty\<rparr>"

definition stale :: "go_time \<Rightarrow> duration \<Rightarrow> ticker_snapshot \<Rightarrow> bool" where
  "stale now max_age t \<longleftrightarrow> max_age < now - tk_millis t * 10 ^ 6"

text \<open>The entries left, and how many of the ranged keys were removed.\<close>

definition clean_stale_cache :: "contract list \<Rightarrow> go_time \<Rightarrow> duration \<Rightarrow> router \<Rightarrow> nat \<times> router" where
  "clean_stale_cache ks now max_age mr =
     (length (filter (stale now max_age) (map_values ks (mr_tickers mr))),
      mr\<lparr>mr_tickers := (\<lambda>c. case mr_tickers mr c of None \<Rightarrow> None
           | Some t \<Rightarrow> if stale now max_age t then None else Some t)\<rparr>)"

subsection \<open>What a subscription and an unsubscription do\<close>

definition subscribers :: "router \<Rightarrow> contract \<Rightarrow> string set" where
  "subscribers mr c = {n. \<exists>i. n \<in> set_of (mr_candle mr (c, i))}"

text \<open>The reference count of a contract is its number of subscribed strategies, and no
  subscriber set is kept empty.\<close>

definition refs_ok :: "router \<Rightarrow> bool" where
  "refs_ok mr \<longleftrightarrow>
     (\<forall>c. finite (subscribers mr c) \<and>
        mr_ref mr c = (if subscribers mr c = {} then None else Some (int (card (subscribers mr c))))) \<and>
     (\<forall>k. mr_candle mr k \<noteq> Some {})"

lemma subscribe_one_fst:
  "fst (subscribe_one name interval push c (mr, tks, cks)) =
     mr\<lparr>mr_ref := (mr_ref mr)(c \<mapsto> ref_count mr c + 1),
        mr_push := (if push then (mr_push mr)(c \<mapsto> insert name (set_of (mr_push mr c))) else mr_push mr),
        mr_candle := (mr_candle mr)((c, interval) \<mapsto> insert name (set_of (mr_candle mr (c, interval))))\<rparr>"
  by (simp add: subscribe_one_def Let_def)

lemma subscribers_upd:
  "subscribers (mr\<lparr>mr_ref := r, mr_push := p, mr_candle :=
      (mr_candle mr)((c, i) \<mapsto> insert name (set_of (mr_candle mr (c, i))))\<rparr>) d =
   (if d = c then insert name (subscribers mr c) else subscribers mr d)"
  by (auto simp: subscribers_def)

lemma refs_ok_subscribe_one:
  assumes "refs_ok mr" and "name \<notin> subscribers mr c"
  shows "refs_ok (fst (subscribe_one name interval push c (mr, tks, cks)))"
  using assms unfolding refs_ok_def subscribe_one_fst subscribers_upd
  by (auto simp: ref_count_def)

lemma subscribers_subscribe_one:
  "subscribers (fst (subscribe_one name interval push c st)) d =
   (if d = c then insert name (subscribers (fst st) c) else subscribers (fst st) d)"
  by (cases st) (simp only: subscribe_one_fst subscribers_upd fst_conv)

lemma refs_ok_subscribe_all:
  assumes "refs_ok (fst st)" and "distinct cs" and "\<forall>c \<in> set cs. name \<notin> subscribers (fst st) c"
  shows "refs_ok (fst (fold (subscribe_one name interval push) cs st))"
  using assms
proof (induction cs arbitrary: st)
  case (Cons c cs)
  have "refs_ok (fst (subscribe_one name interval push c st))"
    using Cons.prems by (cases st) (simp add: refs_ok_subscribe_one)
  moreover have "\<forall>d \<in> set cs. name \<notin> subscribers (fst (subscribe_one name interval push c st)) d"
    using Cons.prems by (auto simp: subscribers_subscribe_one)
  ultimately show ?case using Cons by simp
qed simp

lemma snd_subscribe_contracts:
  "snd (subscribe_contracts exch name cs interval push mr) =
   fst (fold (subscribe_one name interval push) cs (mr, [], []))"
  by (simp add: subscribe_contracts_def Let_def case_prod_beta split: option.splits)

definition dec_opt :: "int option \<Rightarrow> int option" where
  "dec_opt r = (case r of None \<Rightarrow> None
     | Some n \<Rightarrow> if n \<le> 0 then Some n else if n = 1 then None else Some (n - 1))"

lemma fold_dec_ref:
  "distinct cs \<Longrightarrow> fold dec_ref cs (mr, u) =
     (mr\<lparr>mr_ref := (\<lambda>c. if c \<in> set cs then dec_opt (mr_ref mr c) else mr_ref mr c)\<rparr>,
      u @ filter (\<lambda>c. mr_ref mr c = Some 1) cs)"
proof (induction cs arbitrary: mr u)
  case (Cons c cs)
  have one: "dec_ref c (mr, u) = (mr\<lparr>mr_ref := (mr_ref mr)(c := dec_opt (mr_ref mr c))\<rparr>,
      u @ (if mr_ref mr c = Some 1 then [c] else []))"
    by (cases mr) (auto simp: dec_ref_def dec_opt_def fun_upd_idem split: option.splits)
  have "filter (\<lambda>d. (if d = c then dec_opt (mr_ref mr c) else mr_ref mr d) = Some 1) cs =
        filter (\<lambda>d. mr_ref mr d = Some 1) cs"
    using Cons.prems by (intro filter_cong) auto
  with Cons show ?case by (auto simp: one fun_eq_iff)
qed simp

lemma fold_remove_candle:
  "distinct ks \<Longrightarrow> fold (remove_candle name) ks (mr, u) =
     (mr\<lparr>mr_candle := (\<lambda>k. if k \<in> set ks then drop_name name (mr_candle mr k) else mr_candle mr k)\<rparr>,
      u @ map candle_sub (filter (\<lambda>k. mr_candle mr k \<noteq> None \<and> set_of (mr_candle mr k) - {name} = {}) ks))"
proof (induction ks arbitrary: mr u)
  case (Cons k ks)
  have one: "remove_candle name k (mr, u) = (mr\<lparr>mr_candle := (mr_candle mr)(k := drop_name name (mr_candle mr k))\<rparr>,
      u @ (if mr_candle mr k \<noteq> None \<and> set_of (mr_candle mr k) - {name} = {} then [candle_sub k] else []))"
    by (cases mr) (auto simp: remove_candle_def drop_name_def fun_upd_idem split: option.splits)
  have "filter (\<lambda>d. (if d = k then drop_name name (mr_candle mr k) else mr_candle mr d) \<noteq> None \<and>
            set_of (if d = k then drop_name name (mr_candle mr k) else mr_candle mr d) - {name} = {}) ks =
        filter (\<lambda>d. mr_candle mr d \<noteq> None \<and> set_of (mr_candle mr d) - {name} = {}) ks"
    using Cons.prems by (intro filter_cong) auto
  with Cons show ?case by (auto simp: one fun_eq_iff)
qed simp

lemma seen_contracts_spec:
  "distinct acc \<Longrightarrow> distinct (seen_contracts name mr ks acc) \<and>
   set (seen_contracts name mr ks acc) = set acc \<union> {c. \<exists>k \<in> set ks. fst k = c \<and> name \<in> set_of (mr_candle mr k)}"
  by (induction ks arbitrary: acc) auto

lemma seen_contracts_iterates:
  assumes "iterates ks (mr_candle mr)"
  shows "distinct (seen_contracts name mr ks [])"
    and "set (seen_contracts name mr ks []) = {c. name \<in> subscribers mr c}"
proof -
  have "k \<in> set ks" if "name \<in> set_of (mr_candle mr k)" for k
    using assms that by (cases "mr_candle mr k") (auto simp: iterates_def)
  then have "{c. \<exists>k \<in> set ks. fst k = c \<and> name \<in> set_of (mr_candle mr k)} = {c. name \<in> subscribers mr c}"
    by (force simp: subscribers_def)
  then show "distinct (seen_contracts name mr ks [])"
    and "set (seen_contracts name mr ks []) = {c. name \<in> subscribers mr c}"
    using seen_contracts_spec [of "[]" name mr ks] by auto
qed

lemma set_of_drop_name [simp]: "set_of (drop_name name so) = set_of so - {name}"
  by (auto simp: drop_name_def split: option.splits)

lemma drop_name_outside: "drop_name name None = None"
  by (simp add: drop_name_def)

text \<open>The whole of \<open>UnsubscribeAll\<close>, whatever the two range orders.\<close>

lemma unsubscribe_all_eq:
  fixes name :: string
  assumes "iterates ks1 (mr_candle mr)" and "iterates ks2 (mr_candle mr)"
  defines "cs \<equiv> seen_contracts name mr ks1 []"
  shows "unsubscribe_all exch ks1 ks2 name mr =
    (exchange_unsubscribe exch (filter (\<lambda>c. mr_ref mr c = Some 1) cs)
       (map candle_sub (filter (\<lambda>k. mr_candle mr k \<noteq> None \<and> set_of (mr_candle mr k) - {name} = {}) ks2)),
     mr\<lparr>mr_ref := (\<lambda>c. if name \<in> subscribers mr c then dec_opt (mr_ref mr c) else mr_ref mr c),
        mr_push := (\<lambda>c. drop_name name (mr_push mr c)),
        mr_candle := (\<lambda>k. drop_name name (mr_candle mr k))\<rparr>)"
proof -
  have cs: "distinct cs" "set cs = {c. name \<in> subscribers mr c}"
    unfolding cs_def using seen_contracts_iterates [OF assms(1)] by auto
  have ks2: "distinct ks2" "set ks2 = dom (mr_candle mr)" using assms(2) by (simp_all add: iterates_def)
  have e: "(\<lambda>k. if k \<in> set ks2 then drop_name name (mr_candle mr k) else mr_candle mr k) =
        (\<lambda>k. drop_name name (mr_candle mr k))"
    by (intro ext) (auto simp: ks2 domIff drop_name_outside)
  let ?m1 = "mr\<lparr>mr_ref := (\<lambda>c. if name \<in> subscribers mr c then dec_opt (mr_ref mr c) else mr_ref mr c)\<rparr>"
  have d: "dec_ticker_ref_for_symbols ks1 name [] mr = (?m1, filter (\<lambda>c. mr_ref mr c = Some 1) cs)"
    by (simp add: dec_ticker_ref_for_symbols_def cs_def [symmetric] fold_dec_ref [OF cs(1)] cs(2))
  have c: "fold (remove_candle name) ks2 (?m1, []) = (?m1\<lparr>mr_candle := (\<lambda>k. drop_name name (mr_candle mr k))\<rparr>,
      map candle_sub (filter (\<lambda>k. mr_candle mr k \<noteq> None \<and> set_of (mr_candle mr k) - {name} = {}) ks2))"
    unfolding fold_remove_candle [OF ks2(1)] by (simp add: e cong: if_cong)
  show ?thesis
    by (simp only: unsubscribe_all_def Let_def d c prod.case)
       (simp add: remove_ticker_push_for_strategy_def)
qed

lemma subscribers_drop: "mr_candle mr' = (\<lambda>k. drop_name name (mr_candle mr k)) \<Longrightarrow>
    subscribers mr' c = subscribers mr c - {name}"
  by (auto simp: subscribers_def)

lemma refs_ok_unsubscribe_all:
  assumes "refs_ok mr" and "iterates ks1 (mr_candle mr)" and "iterates ks2 (mr_candle mr)"
  shows "refs_ok (snd (unsubscribe_all exch ks1 ks2 name mr))"
proof -
  let ?mr = "snd (unsubscribe_all exch ks1 ks2 name mr)"
  note eq = unsubscribe_all_eq [OF assms(2,3), of exch name]
  have sub: "subscribers ?mr c = subscribers mr c - {name}" for c
    by (rule subscribers_drop) (simp add: eq)
  have "mr_ref ?mr c = (if subscribers ?mr c = {} then None else Some (int (card (subscribers ?mr c))))" for c
  proof (cases "name \<in> subscribers mr c")
    case True
    have fin: "finite (subscribers mr c)" using assms(1) by (simp add: refs_ok_def)
    have r: "mr_ref mr c = Some (int (card (subscribers mr c)))"
      using assms(1) True by (auto simp: refs_ok_def)
    have p: "0 < card (subscribers mr c)" using fin True by (auto simp: card_gt_0_iff)
    have c: "card (subscribers mr c) = Suc (card (subscribers mr c - {name}))"
      using card.remove [OF fin True] .
    have "mr_ref ?mr c = dec_opt (mr_ref mr c)" using True by (simp add: eq)
    then show ?thesis unfolding sub r using c fin by (auto simp: dec_opt_def)
  next
    case False
    then show ?thesis using assms(1) unfolding sub by (auto simp: eq refs_ok_def)
  qed
  moreover have "finite (subscribers ?mr c)" for c using assms(1) unfolding sub by (simp add: refs_ok_def)
  moreover have "mr_candle ?mr k \<noteq> Some {}" for k by (auto simp: eq drop_name_def split: option.splits)
  ultimately show ?thesis unfolding refs_ok_def by blast
qed

lemma fold_emit:
  "fold (\<lambda>n. emit (f n)) ns mr =
     mr\<lparr>mr_chan := mr_chan mr @ take (chan_cap - length (mr_chan mr)) (map f ns)\<rparr>"
proof (induction ns arbitrary: mr)
  case (Cons n ns)
  show ?case
  proof (cases "length (mr_chan mr) < chan_cap")
    case True
    then have "chan_cap - length (mr_chan mr) = Suc (chan_cap - Suc (length (mr_chan mr)))" by simp
    with True Cons show ?thesis by (simp add: emit_def)
  qed (use Cons in \<open>simp add: emit_def\<close>)
qed simp

lemma on_public_event_subs:
  "mr_ref (on_public_event names ev mr) = mr_ref mr \<and>
   mr_candle (on_public_event names ev mr) = mr_candle mr \<and>
   mr_push (on_public_event names ev mr) = mr_push mr"
  by (auto simp: on_public_event_def on_ticker_def on_candlestick_def Let_def fold_emit
      split: option.splits public_kind.splits)

lemma refs_ok_cong:
  "mr_ref mr' = mr_ref mr \<Longrightarrow> mr_candle mr' = mr_candle mr \<Longrightarrow> refs_ok mr' = refs_ok mr"
  by (simp add: refs_ok_def subscribers_def)

subsection \<open>The router's life\<close>

text \<open>The engine's use of the router: a strategy without live subscriptions starts with distinct
  symbols, a strategy stops, an event of the exchange arrives. The answers of the exchange and
  the range orders are arbitrary.\<close>

inductive router_step :: "router \<Rightarrow> router \<Rightarrow> bool" where
  start: "\<lbrakk>distinct cs; \<forall>c \<in> set cs. name \<notin> subscribers mr c\<rbrakk> \<Longrightarrow>
    router_step mr (snd (subscribe_contracts exch name cs interval push mr))"
| stop: "\<lbrakk>iterates ks1 (mr_candle mr); iterates ks2 (mr_candle mr)\<rbrakk> \<Longrightarrow>
    router_step mr (snd (unsubscribe_all exch ks1 ks2 name mr))"
| event: "router_step mr (on_public_event names ev mr)"

inductive_cases router_stepE: "router_step mr mr'"

lemma refs_ok_step: "router_step mr mr' \<Longrightarrow> refs_ok mr \<Longrightarrow> refs_ok mr'"
proof (induction rule: router_step.induct)
  case (start cs name mr exch interval push)
  then show ?case
    using refs_ok_subscribe_all [of "(mr, [], [])" cs name] by (simp add: snd_subscribe_contracts)
next
  case (stop ks1 mr ks2 exch name)
  then show ?case by (intro refs_ok_unsubscribe_all)
next
  case (event mr names ev)
  then show ?case
    using on_public_event_subs [of names ev mr] refs_ok_cong [of "on_public_event names ev mr" mr] by blast
qed

lemma refs_ok_new: "refs_ok new_router"
  by (simp add: refs_ok_def new_router_def subscribers_def)

lemma refs_ok_reach: "router_step\<^sup>*\<^sup>* new_router mr \<Longrightarrow> refs_ok mr"
  by (induction rule: rtranclp_induct) (auto intro: refs_ok_new refs_ok_step)


definition router_ex :: router where
  "router_ex = snd (subscribe_contracts (\<lambda>_. None) ''a'' [''BTC/USDT''] ''1m'' True new_router)"

lemma router_ex_reach: "router_step\<^sup>*\<^sup>* new_router router_ex"
  unfolding router_ex_def
  by (rule r_into_rtranclp, rule router_step.start) (simp_all add: new_router_def subscribers_def)

lemma router_ex_sel:
  "mr_ref router_ex = [''BTC/USDT'' \<mapsto> 1]" "mr_push router_ex = [''BTC/USDT'' \<mapsto> {''a''}]"
  "mr_candle router_ex = [(''BTC/USDT'', ''1m'') \<mapsto> {''a''}]" "mr_chan router_ex = []"
  by (simp_all add: router_ex_def snd_subscribe_contracts subscribe_one_def Let_def new_router_def ref_count_def)


text \<open>Unsubscribing a strategy, in every reachable state and whatever the two range orders:
  the strategy is gone from every candle and ticker-push channel, every other strategy keeps
  exactly its channels, caches and pending updates are untouched, and the exchange is asked to
  drop exactly the tickers and candle channels whose only subscriber it was.\<close>

theorem unsubscribe_all_effect:
  assumes "router_step\<^sup>*\<^sup>* new_router mr"
    and "iterates ks1 (mr_candle mr)" and "iterates ks2 (mr_candle mr)"
  shows "\<exists>tks cks mr'. unsubscribe_all exch ks1 ks2 name mr =
        (exchange_unsubscribe exch tks (map candle_sub cks), mr') \<and>
      set tks = {c. subscribers mr c = {name}} \<and> set cks = {k. mr_candle mr k = Some {name}} \<and>
      (\<forall>k. set_of (mr_candle mr' k) = set_of (mr_candle mr k) - {name}) \<and>
      (\<forall>c. set_of (mr_push mr' c) = set_of (mr_push mr c) - {name}) \<and>
      (mr_tickers mr', mr_klines mr', mr_hist mr', mr_chan mr') =
        (mr_tickers mr, mr_klines mr, mr_hist mr, mr_chan mr)"
proof -
  have ok: "refs_ok mr" by (rule refs_ok_reach [OF assms(1)])
  have one: "mr_ref mr c = Some 1 \<longleftrightarrow> (\<exists>x. subscribers mr c = {x})" for c
    using ok by (auto simp: refs_ok_def card_1_singleton_iff)
  have tks: "set (filter (\<lambda>c. mr_ref mr c = Some 1) (seen_contracts name mr ks1 [])) = {c. subscribers mr c = {name}}"
  proof -
    have "name \<in> S \<and> (\<exists>x. S = {x}) \<longleftrightarrow> S = {name}" for S :: "string set" by auto
    then show ?thesis by (simp add: seen_contracts_iterates(2) [OF assms(2)] one)
  qed
  have ne: "mr_candle mr k \<noteq> Some {}" for k using ok unfolding refs_ok_def by blast
  have cks: "set (filter (\<lambda>k. mr_candle mr k \<noteq> None \<and> set_of (mr_candle mr k) - {name} = {}) ks2) =
      {k. mr_candle mr k = Some {name}}"
  proof (rule set_eqI)
    fix k
    show "k \<in> set (filter (\<lambda>k. mr_candle mr k \<noteq> None \<and> set_of (mr_candle mr k) - {name} = {}) ks2) \<longleftrightarrow>
      k \<in> {k. mr_candle mr k = Some {name}}"
      using assms(3) ne [of k] by (cases "mr_candle mr k") (auto simp: iterates_def)
  qed
  show ?thesis
    unfolding unsubscribe_all_eq [OF assms(2,3)]
    by (intro exI conjI, rule refl, rule tks, rule cks) simp_all
qed

theorem unsubscribe_all_effect_witness:
  "set_of (mr_candle (snd (unsubscribe_all (\<lambda>_. None) [(''BTC/USDT'', ''1m'')] [(''BTC/USDT'', ''1m'')] ''a'' router_ex))
     (''BTC/USDT'', ''1m'')) = {}"
proof -
  have i: "iterates [(''BTC/USDT'', ''1m'')] (mr_candle router_ex)" by (simp add: iterates_def router_ex_sel)
  obtain mr' where "snd (unsubscribe_all (\<lambda>_. None) [(''BTC/USDT'', ''1m'')] [(''BTC/USDT'', ''1m'')] ''a'' router_ex) = mr'"
    and "\<forall>k. set_of (mr_candle mr' k) = set_of (mr_candle router_ex k) - {''a''}"
    using unsubscribe_all_effect [OF router_ex_reach i i, of "\<lambda>_. None" "''a''"] by (metis snd_conv)
  then show ?thesis by (simp add: router_ex_sel del: split_paired_All)
qed

text \<open>Market-data fan-out: a bar event of a named contract and interval is cached as the last
  bar; only a closed one enters the history and is sent, and then to exactly the strategies
  subscribed to its (contract, interval), each once, in the range order, as far as the channel
  has room; the subscriptions do not change.\<close>

theorem candlestick_fan_out:
  assumes "ev_candlestick ev = Some c" and "c_contract c \<noteq> []" and "c_interval c \<noteq> []"
    and "distinct names" and "set names = set_of (mr_candle mr (c_contract c, c_interval c))"
  shows "mr_klines (on_public_event names (Some ev) mr) (c_contract c, c_interval c) = Some c \<and>
    mr_hist (on_public_event names (Some ev) mr) =
      (if c_closed c then append_closed_kline (Some c) (mr_hist mr) else mr_hist mr) \<and>
    mr_chan (on_public_event names (Some ev) mr) =
      mr_chan mr @ (if c_closed c then take (chan_cap - length (mr_chan mr)) (map (kline_update c) names) else []) \<and>
    mr_candle (on_public_event names (Some ev) mr) = mr_candle mr"
proof -
  have "pe_kind ev = PublicCandlestick" using assms(1) by (auto simp: ev_candlestick_def split: if_splits)
  then show ?thesis
    using assms by (auto simp: on_public_event_def on_candlestick_def Let_def fold_emit append_closed_kline_def)
qed

theorem candlestick_fan_out_witness:
  "mr_chan (on_public_event [''a''] (Some \<lparr>pe_kind = PublicCandlestick, pe_payload = Some (CandleP (candle_ex 60))\<rparr>)
      router_ex) = [kline_update (candle_ex 60) ''a'']"
  using candlestick_fan_out [of "\<lparr>pe_kind = PublicCandlestick, pe_payload = Some (CandleP (candle_ex 60))\<rparr>"
      "candle_ex 60" "[''a'']" router_ex]
  by (simp add: ev_candlestick_def candle_ex_def router_ex_sel chan_cap_def)

text \<open>The condition that a strategy starts without live subscriptions is needed: subscribing
  the same strategy twice and then unsubscribing it leaves a ticker reference behind for a
  contract no strategy is subscribed to, so that its ticker channel is never dropped again.\<close>

theorem double_subscribe_leaks:
  "let mr = snd (subscribe_contracts (\<lambda>_. None) ''a'' [''BTC/USDT''] ''1m'' True router_ex);
       mr' = snd (unsubscribe_all (\<lambda>_. None) [(''BTC/USDT'', ''1m'')] [(''BTC/USDT'', ''1m'')] ''a'' mr)
   in mr_ref mr' ''BTC/USDT'' = Some 1 \<and> subscribers mr' ''BTC/USDT'' = {}"
proof -
  let ?mr = "snd (subscribe_contracts (\<lambda>_. None) ''a'' [''BTC/USDT''] ''1m'' True router_ex)"
  have c: "mr_candle ?mr = [(''BTC/USDT'', ''1m'') \<mapsto> {''a''}]" and r: "mr_ref ?mr ''BTC/USDT'' = Some 2"
    by (simp_all add: snd_subscribe_contracts subscribe_one_def Let_def router_ex_sel ref_count_def)
  have i: "iterates [(''BTC/USDT'', ''1m'')] (mr_candle ?mr)" by (simp add: c iterates_def)
  show ?thesis
    unfolding Let_def unsubscribe_all_eq [OF i i]
    by (auto simp: r dec_opt_def subscribers_def c drop_name_def split: if_splits)
qed

end
