(* ===== verification/Decision.thy ===== *)
theory Decision
  imports RiskDomain Instrument Projection MarketRouter RefDecimal
begin

text \<open>
  \<open>internal/app/decision\<close>: the decision engine turns a strategy signal into an order. It reads
  the account projection, sizes the order in contracts from the sizing mode, the contract's
  metadata and the cached ticker, and picks the side.

  The two lookups may be nil (\<open>None\<close>). A new order id (a UUID) and the two clock readings are
  arguments. The counters are the engine's only state.
\<close>

record decision_deps =
  dd_meta :: "(contract \<Rightarrow> contract_meta result) option"
  dd_ticker :: "(contract \<Rightarrow> ticker_snapshot option) option"
  dd_divisor :: int

record decision_stats =
  ds_processed :: int
  ds_rejected :: int
  ds_generated :: int

definition no_stats :: decision_stats where
  "no_stats = \<lparr>ds_processed = 0, ds_rejected = 0, ds_generated = 0\<rparr>"

subsection \<open>Prices\<close>

text \<open>The loop over the mark price and the last price.\<close>

fun first_price :: "decimal_lib \<Rightarrow> contract \<Rightarrow> string list \<Rightarrow> decimal result" where
  "first_price D c [] = Inl (Errorf (''no positive mark/last price for '' @ c))"
| "first_price D c (s # ss) =
     (if s = [] then first_price D c ss
      else case dec_parse D s of
        None \<Rightarrow> Inl (Wrapf (''parse ticker price '' @ quoted s @ '': '')
                  (Errorf (''can't convert '' @ s @ '' to decimal'')))
      | Some p \<Rightarrow> if 0 < p then Inr p else first_price D c ss)"

definition ticker_mark_price :: "decimal_lib \<Rightarrow> ticker_snapshot \<Rightarrow> decimal result" where
  "ticker_mark_price D t =
     first_price D (tk_contract t) [trim_space (tk_mark t), trim_space (tk_last t)]"

definition resolve_mark_price :: "decimal_lib \<Rightarrow> decision_deps \<Rightarrow> contract \<Rightarrow> string \<Rightarrow> decimal result" where
  "resolve_mark_price D de c mark =
     (let s = trim_space mark;
          from_ticker = (case dd_ticker de of
             None \<Rightarrow> Inl (Errorf ''ticker lookup not configured'')
           | Some lk \<Rightarrow> (case lk c of
               None \<Rightarrow> Inl (Errorf (''no cached ticker for '' @ c))
             | Some t \<Rightarrow> ticker_mark_price D t))
      in if s = [] then from_ticker
         else case dec_parse D s of
           None \<Rightarrow> from_ticker
         | Some p \<Rightarrow> if 0 < p then Inr p else from_ticker)"

lemma first_price_pos: "first_price D c ss = Inr p \<Longrightarrow> 0 < p"
  by (induction D c ss rule: first_price.induct) (auto split: if_splits option.splits)

lemma resolve_mark_price_pos: "resolve_mark_price D de c m = Inr p \<Longrightarrow> 0 < p"
  by (auto simp: resolve_mark_price_def ticker_mark_price_def Let_def dest: first_price_pos
      split: if_splits option.splits)

subsection \<open>Contracts and notional\<close>

definition multiplier :: "decimal_lib \<Rightarrow> contract_meta \<Rightarrow> decimal option" where
  "multiplier D m = (case dec_parse D (trim_space (m_quanto m)) of
     None \<Rightarrow> None | Some q \<Rightarrow> if 0 < q then Some q else None)"

definition min_size :: "decimal_lib \<Rightarrow> contract_meta \<Rightarrow> decimal" where
  "min_size D m = (let s = trim_space (m_size_min m) in if s \<noteq> [] then parse0 D s else 0)"

definition raise_to_min :: "decimal_lib \<Rightarrow> contract_meta \<Rightarrow> decimal \<Rightarrow> decimal \<Rightarrow> decimal" where
  "raise_to_min D m notional raw =
     (let mn = min_size D m
      in if 0 < mn \<and> raw < mn then (if 0 < notional then mn else raw) else raw)"

definition cap_to_max :: "decimal_lib \<Rightarrow> contract_meta \<Rightarrow> decimal \<Rightarrow> decimal" where
  "cap_to_max D m raw =
     (let s = trim_space (m_size_max m)
      in if s = [] then raw
         else case dec_parse D s of
           None \<Rightarrow> raw
         | Some mx \<Rightarrow> if 0 < mx \<and> mx < raw then mx else raw)"

definition notional_usdt_to_contracts ::
  "decimal_lib \<Rightarrow> decision_deps \<Rightarrow> contract \<Rightarrow> decimal \<Rightarrow> decimal result" where
  "notional_usdt_to_contracts D de c notional =
     (if notional = 0 then Inr 0
      else case dd_meta de of
        None \<Rightarrow> Inl (Errorf ''contract meta lookup not configured'')
      | Some mlk \<Rightarrow> (case mlk c of
          Inl e \<Rightarrow> Inl e
        | Inr meta \<Rightarrow> (case multiplier D meta of
            None \<Rightarrow> Inl (Errorf (''invalid quanto_multiplier for '' @ c @ '': '' @ quoted (m_quanto meta)))
          | Some mult \<Rightarrow> (case dd_ticker de of
              None \<Rightarrow> Inl (Errorf ''ticker lookup not configured'')
            | Some tlk \<Rightarrow> (case tlk c of
                None \<Rightarrow> Inl (Errorf (''no cached ticker for '' @ c @ '' (wait for futures.tickers)''))
              | Some tick \<Rightarrow> (case ticker_mark_price D tick of
                  Inl e \<Rightarrow> Inl e
                | Inr price \<Rightarrow>
                    let denom = price * mult in
                    if \<not> 0 < denom then Inl (Errorf (''invalid price*multiplier for '' @ c))
                    else
                      let q = dec_div D notional denom;
                          raw = (if m_decimal_size meta then q else dec_floor q);
                          sz = cap_to_max D meta (raise_to_min D meta notional raw)
                      in if \<not> 0 < sz
                         then Inl (Errorf (''computed contract size is zero for '' @ c @
                                '' (notional='' @ dec_string D notional @ '')''))
                         else Inr sz))))))"

definition notional_for_contracts ::
  "decimal_lib \<Rightarrow> decision_deps \<Rightarrow> contract \<Rightarrow> decimal \<Rightarrow> string \<Rightarrow> decimal result" where
  "notional_for_contracts D de c sz mark =
     (if sz = 0 then Inr 0
      else case dd_meta de of
        None \<Rightarrow> Inl (Errorf ''contract meta lookup not configured'')
      | Some mlk \<Rightarrow> (case mlk c of
          Inl e \<Rightarrow> Inl e
        | Inr meta \<Rightarrow> (case multiplier D meta of
            None \<Rightarrow> Inl (Errorf (''invalid quanto_multiplier for '' @ c))
          | Some mult \<Rightarrow> (case resolve_mark_price D de c mark of
              Inl e \<Rightarrow> Inl e
            | Inr price \<Rightarrow> Inr (contract_notional sz price mult)))))"

subsection \<open>Sizing\<close>

definition compute_usdt_notional :: "decimal_lib \<Rightarrow> signal \<Rightarrow> decimal \<Rightarrow> int \<Rightarrow> decimal result" where
  "compute_usdt_notional D s avail default_divisor =
     (let divisor = (if default_divisor \<le> 0 then 10 else default_divisor)
      in case sig_sizing s of
        None \<Rightarrow> Inr (dec_div D avail (of_int divisor))
      | Some Percent \<Rightarrow> (case sig_value s of
          None \<Rightarrow> Inl (Errorf ''value is required for percent sizing mode'')
        | Some v \<Rightarrow> let p = parse0 D v
                    in if p < 0 \<or> 1 < p then Inl (Errorf (''percent must be between 0 and 1, got: '' @ v))
                       else Inr (avail * p))
      | Some Fixed \<Rightarrow> (case sig_value s of
          None \<Rightarrow> Inl (Errorf ''value is required for fixed sizing mode'')
        | Some v \<Rightarrow> let f = parse0 D v
                    in if avail < f then Inl (Errorf (''fixed size '' @ v @ '' exceeds available balance '' @ dec_string D avail))
                       else Inr f)
      | Some Custom \<Rightarrow> Inl (Errorf ''custom sizing mode must be handled by caller'')
      | Some (OtherSizing m) \<Rightarrow> Inl (Errorf (''unknown sizing mode: '' @ m)))"

definition same_side :: "direction \<Rightarrow> pos_side \<Rightarrow> bool" where
  "same_side d side \<longleftrightarrow> d = Long \<and> side = PosLong \<or> d = Short \<and> side = PosShort"

definition calculate_order_size ::
  "decimal_lib \<Rightarrow> decision_deps \<Rightarrow> signal \<Rightarrow> balance \<Rightarrow> position option \<Rightarrow> decimal result" where
  "calculate_order_size D de s bal po =
     (if sig_direction s = Flat then
        (case po of None \<Rightarrow> Inr 0 | Some p \<Rightarrow> Inr (parse0 D (p_size p)))
      else if (case po of None \<Rightarrow> False
               | Some p \<Rightarrow> 0 < parse0 D (p_size p) \<and> same_side (sig_direction s) (p_side p))
        then Inr 0
      else if sig_sizing s = Some Custom then
        (case sig_value s of
           None \<Rightarrow> Inl (Errorf ''value is required for custom sizing mode'')
         | Some v \<Rightarrow> let x = parse0 D v
                     in if \<not> 0 < x then Inl (Errorf ''custom size must be positive'') else Inr x)
      else case compute_usdt_notional D s (parse0 D (b_available bal)) (dd_divisor de) of
             Inl e \<Rightarrow> Inl e
           | Inr n \<Rightarrow> notional_usdt_to_contracts D de (sig_symbol s) n)"

definition format_order_size :: "decimal_lib \<Rightarrow> decimal \<Rightarrow> contract_meta option \<Rightarrow> string" where
  "format_order_size D sz mo =
     (case mo of Some m \<Rightarrow> if m_decimal_size m then dec_string D sz else dec_string D (dec_trunc sz)
      | None \<Rightarrow> dec_string D (dec_trunc sz))"

definition format_size_for_order :: "decimal_lib \<Rightarrow> decision_deps \<Rightarrow> contract \<Rightarrow> decimal \<Rightarrow> string" where
  "format_size_for_order D de c sz =
     (case dd_meta de of None \<Rightarrow> dec_string D sz
      | Some mlk \<Rightarrow> (case mlk c of Inl e \<Rightarrow> dec_string D sz | Inr m \<Rightarrow> format_order_size D sz (Some m)))"

fun direction_str :: "direction \<Rightarrow> string" where
  "direction_str Long = ''Long''"
| "direction_str Short = ''Short''"
| "direction_str Flat = ''Flat''"
| "direction_str (OtherDirection s) = s"

text \<open>\<open>determineOrderSide\<close>: the empty side of the code is \<open>None\<close>.\<close>

definition determine_order_side :: "decimal_lib \<Rightarrow> signal \<Rightarrow> position option \<Rightarrow> order_side option result" where
  "determine_order_side D s po =
     (case sig_direction s of
        Long \<Rightarrow> Inr (Some Buy)
      | Short \<Rightarrow> Inr (Some Sell)
      | Flat \<Rightarrow> (case po of None \<Rightarrow> Inr None
          | Some p \<Rightarrow> if parse0 D (p_size p) = 0 then Inr None
                      else if p_side p = PosLong then Inr (Some Sell) else Inr (Some Buy))
      | OtherDirection d \<Rightarrow> Inl (Errorf (''invalid direction: '' @ d)))"

subsection \<open>ProcessSignal\<close>

definition bump_rejected :: "decision_stats \<Rightarrow> decision_stats" where
  "bump_rejected st = st\<lparr>ds_rejected := ds_rejected st + 1\<rparr>"

definition build_order ::
  "decimal_lib \<Rightarrow> decision_deps \<Rightarrow> string \<Rightarrow> go_time \<Rightarrow> go_time \<Rightarrow> string \<Rightarrow> signal \<Rightarrow> decimal \<Rightarrow> order_side \<Rightarrow> order" where
  "build_order D de oid t1 t2 strategy s sz side =
     (let o0 = \<lparr>ord_id = oid, ord_exchange_id = [], ord_market = OtherMarket [], ord_symbol = sig_symbol s,
                ord_side = side, ord_type = MarketOrder, ord_price = None,
                ord_size = format_size_for_order D de (sig_symbol s) sz, ord_filled = ''0'',
                ord_status = Pending, ord_created = t1, ord_updated = t2, ord_stop_price = None,
                ord_strategy = strategy\<rparr>
      in case sig_price s of
           None \<Rightarrow> o0
         | Some p \<Rightarrow> if 0 < parse0 D p then o0\<lparr>ord_type := LimitOrder, ord_price := Some p\<rparr> else o0)"

definition process_signal ::
  "decimal_lib \<Rightarrow> decision_deps \<Rightarrow> projection option \<Rightarrow> string \<Rightarrow> go_time \<Rightarrow> go_time \<Rightarrow> string \<Rightarrow> signal \<Rightarrow>
   decision_stats \<Rightarrow> order option result \<times> decision_stats" where
  "process_signal D de acct oid t1 t2 strategy s st0 =
     (let st = st0\<lparr>ds_processed := ds_processed st0 + 1\<rparr> in
      case validate_signal D s of
        Some e \<Rightarrow> (Inl (Wrapf ''invalid signal: '' e), bump_rejected st)
      | None \<Rightarrow> (case acct of
          None \<Rightarrow> (Inl (Errorf ''account projection is not configured''), bump_rejected st)
        | Some p \<Rightarrow> (case snapshot p (sig_symbol s) of
            Inl e \<Rightarrow> (Inl (Wrapf ''account snapshot: '' e), bump_rejected st)
          | Inr (bal, po, rvn) \<Rightarrow> (case calculate_order_size D de s bal po of
              Inl e \<Rightarrow> (Inl (Wrapf ''failed to calculate order size: '' e), bump_rejected st)
            | Inr sz \<Rightarrow>
                if sz = 0 then (Inr None, st)
                else (case determine_order_side D s po of
                  Inl e \<Rightarrow> (Inl (Wrapf ''failed to determine order side: '' e), bump_rejected st)
                | Inr None \<Rightarrow> (Inr None, st)
                | Inr (Some side) \<Rightarrow>
                    (Inr (Some (build_order D de oid t1 t2 strategy s sz side)),
                     st\<lparr>ds_generated := ds_generated st + 1\<rparr>))))))"

subsection \<open>The lookups of the running system\<close>

text \<open>What sizing relies on from the ticker cache: the ticker it answers with is the one of the
  contract asked for.\<close>

locale ticker_lookup =
  fixes lookup :: "contract \<Rightarrow> ticker_snapshot option"
  assumes cached_contract: "lookup c = Some t \<Longrightarrow> tk_contract t = c"

definition router_after :: "(string list \<times> public_event) list \<Rightarrow> router" where
  "router_after evs = fold (\<lambda>(names, ev). on_public_event names (Some ev)) evs new_router"

lemma on_public_event_tickers:
  assumes "\<forall>c t. mr_tickers mr c = Some t \<longrightarrow> tk_contract t = c"
  shows "mr_tickers (on_public_event names ev mr) c = Some t \<Longrightarrow> tk_contract t = c"
  using assms by (auto simp: on_public_event_def on_ticker_def on_candlestick_def Let_def fold_emit
      split: option.splits public_kind.splits if_splits)

lemma router_after_tickers: "mr_tickers (router_after evs) c = Some t \<Longrightarrow> tk_contract t = c"
proof (induction evs arbitrary: c t rule: rev_induct)
  case (snoc ev evs)
  then show ?case
    using on_public_event_tickers [of "router_after evs" "fst ev" "Some (snd ev)" c t]
    by (simp add: router_after_def case_prod_beta)
qed (simp add: router_after_def new_router_def)

interpretation cache: ticker_lookup "get_cached_ticker (router_after evs)" for evs
  by unfold_locales (simp add: get_cached_ticker_def router_after_tickers)

text \<open>Sizing is a client of both interfaces.\<close>

locale sizing = decimal_laws D + contract_meta_lookup meta + ticker_lookup tick
  for D meta tick
begin

lemma multiplier_pos: "multiplier D m = Some q \<Longrightarrow> 0 < q"
  by (auto simp: multiplier_def split: option.splits if_splits)

text \<open>The size is positive and within the contract's maximum, and either it is not above
  the contract's own minimum, or its value at the ticker's price does not exceed the requested
  notional but for the rounding of the division.\<close>

lemma contracts_sound:
  assumes "notional_usdt_to_contracts D \<lparr>dd_meta = Some meta, dd_ticker = Some tick, dd_divisor = dv\<rparr> c n = Inr q"
    and n: "0 < n"
  shows "\<exists>m mult t price. meta c = Inr m \<and> m_contract m = c \<and> multiplier D m = Some mult \<and>
    tick c = Some t \<and> tk_contract t = c \<and> ticker_mark_price D t = Inr price \<and> 0 < price * mult \<and> 0 < q \<and>
    (\<forall>mx. dec_parse D (trim_space (m_size_max m)) = Some mx \<and> 0 < mx \<longrightarrow> q \<le> mx) \<and>
    (q \<le> min_size D m \<or> val q \<le> val n / val (price * mult) + 1 / (2 * 10 ^ 16))"
proof -
  obtain m mult t price where
    m: "meta c = Inr m" and mult: "multiplier D m = Some mult" and t: "tick c = Some t"
    and price: "ticker_mark_price D t = Inr price" and den: "0 < price * mult" and q: "0 < q"
    and qd: "q = cap_to_max D m (raise_to_min D m n
       (if m_decimal_size m then dec_div D n (price * mult) else dec_floor (dec_div D n (price * mult))))"
    using assms(1) n
    by (auto simp: notional_usdt_to_contracts_def Let_def split: sum.splits option.splits if_splits)
  define raw where "raw = (if m_decimal_size m then dec_div D n (price * mult) else dec_floor (dec_div D n (price * mult)))"
  have acc: "\<bar>val (dec_div D n (price * mult)) - val n / val (price * mult)\<bar> \<le> 1 / (2 * 10 ^ 16)"
    using den by (intro div_accuracy) auto
  have raw: "val raw \<le> val n / val (price * mult) + 1 / (2 * 10 ^ 16)"
    using acc floor_div_bound [OF den, of n] unfolding raw_def abs_le_iff by (cases "m_decimal_size m") auto
  have up: "raise_to_min D m n raw = raw \<or> raise_to_min D m n raw = min_size D m"
    by (simp add: raise_to_min_def Let_def)
  have cap: "q \<le> raise_to_min D m n raw"
    unfolding qd raw_def [symmetric] by (auto simp: cap_to_max_def Let_def split: option.splits)
  have mx: "q \<le> mx" if "dec_parse D (trim_space (m_size_max m)) = Some mx" "0 < mx" for mx
    unfolding qd raw_def [symmetric] using that parse_empty by (auto simp: cap_to_max_def Let_def not_less)
  have "q \<le> min_size D m \<or> val q \<le> val n / val (price * mult) + 1 / (2 * 10 ^ 16)"
  proof (cases "raise_to_min D m n raw = raw")
    case True
    then show ?thesis using cap raw by (simp only: val_le_iff) linarith
  next
    case False
    then show ?thesis using cap up by simp
  qed
  with m mult t price den q mx show ?thesis
    using found_contract [OF m] cached_contract [OF t] by blast
qed

end

text \<open>The dependencies of the running engine: the registry after its loads, the router after its
  market events.\<close>

definition system_deps ::
  "contract_meta option list result list \<Rightarrow> (string list \<times> public_event) list \<Rightarrow> int \<Rightarrow> decision_deps" where
  "system_deps replies evs dv =
     \<lparr>dd_meta = Some (contract_meta_of (registry_after replies)),
      dd_ticker = Some (get_cached_ticker (router_after evs)), dd_divisor = dv\<rparr>"

lemma sizing_system:
  "decimal_laws D \<Longrightarrow> sizing D (contract_meta_of (registry_after replies)) (get_cached_ticker (router_after evs))"
  by (intro sizing.intro reg.contract_meta_lookup_axioms cache.ticker_lookup_axioms)

interpretation sized: sizing ref_lib "contract_meta_of (registry_after replies)"
    "get_cached_ticker (router_after evs)" for replies evs
  by (rule sizing_system [OF ref.decimal_laws_axioms])


definition meta_ex :: contract_meta where
  "meta_ex =
     \<lparr>m_contract = ''BTC/USDT'', m_quanto = ''0.01'', m_size_min = ''1'', m_size_max = ''100'',
      m_price_step = ''0.1'', m_size_step = ''1'', m_decimal_size = False\<rparr>"

definition ticker_ex :: "string \<Rightarrow> ticker_snapshot" where
  "ticker_ex mark =
     \<lparr>tk_contract = ''BTC/USDT'', tk_last = mark, tk_mark = mark, tk_index = mark, tk_funding = ''0'',
      tk_change = ''0'', tk_volume = ''0'', tk_volume_base = ''0'', tk_volume_quote = ''0'',
      tk_open_interest = ''0'', tk_low = mark, tk_high = mark, tk_millis = 0\<rparr>"

definition replies_ex :: "contract_meta option list result list" where
  "replies_ex = [Inr [Some meta_ex]]"

definition market_ex :: "(string list \<times> public_event) list" where
  "market_ex = [([], \<lparr>pe_kind = PublicTicker, pe_payload = Some (TickerP (ticker_ex ''200''))\<rparr>)]"


text \<open>No sizing mode commits more than the available balance: for a valid signal the notional
  of the percent, fixed and default modes is at most the available balance, up to the rounding of
  the default mode's division.\<close>

theorem sizing_within_balance:
  assumes "decimal_laws D" and "validate_signal D s = None" and "0 \<le> avail"
    and "compute_usdt_notional D s avail dv = Inr n"
  shows "val n \<le> val avail + 1 / (2 * 10 ^ 16)"
proof (cases "sig_sizing s")
  case None
  define k where "k = (if dv \<le> 0 then 10 else dv)"
  have k: "1 \<le> k" by (simp add: k_def)
  have n: "n = dec_div D avail (of_int k)" using assms(4) None by (simp add: compute_usdt_notional_def k_def)
  have "\<bar>val n - val avail / val (of_int k)\<bar> \<le> 1 / (2 * 10 ^ 16)"
    unfolding n using k by (intro decimal_laws.div_accuracy [OF assms(1)]) (simp add: val_eq_iff)
  moreover have "val avail / val (of_int k) \<le> val avail"
    using k assms(3) by (simp add: val_le_iff divide_le_eq mult_left_le) (metis mult_left_mono mult.right_neutral of_int_1_le_iff)
  ultimately show ?thesis unfolding abs_le_iff by linarith
next
  case (Some m)
  with assms(4) show ?thesis
  proof (cases m)
    case Percent
    then obtain p where "n = avail * p" "p \<le> 1"
      using assms(4) Some by (auto simp: compute_usdt_notional_def Let_def not_less split: option.splits if_splits)
    then have "n \<le> avail" using assms(3) by (simp add: mult_left_le)
    then show ?thesis unfolding val_le_iff by (rule order.trans) simp
  next
    case Fixed
    then have "n \<le> avail"
      using assms(4) Some by (auto simp: compute_usdt_notional_def Let_def not_less split: option.splits if_splits)
    then show ?thesis unfolding val_le_iff by (rule order.trans) simp
  qed (use assms(4) Some in \<open>simp_all add: compute_usdt_notional_def Let_def\<close>)
qed

definition signal_ex :: "direction \<Rightarrow> sizing_mode option \<Rightarrow> string option \<Rightarrow> signal" where
  "signal_ex d m v =
     \<lparr>sig_symbol = ''BTC/USDT'', sig_direction = d, sig_strength = 1, sig_price = None, sig_sizing = m,
      sig_value = v, sig_reason = [], sig_timestamp = 0\<rparr>"

theorem sizing_within_balance_witness: "val (dec 500 0) \<le> val (dec 1000 0) + 1 / (2 * 10 ^ 16)"
  by (rule sizing_within_balance [OF ref.decimal_laws_axioms, of "signal_ex Long (Some Percent) (Some ''0.5'')" _ 10])
     code_simp+

text \<open>C14. What an order means: the engine produces one only for a valid signal and a ready
  account, with the signal's symbol, pending and unfilled; a long signal buys and a short one
  sells, and never when a position on the same side is already held; a flat signal only closes, a
  non-zero position on its opposite side with the position's size; and the order is a limit order
  exactly when the signal names a price, at that price.\<close>

theorem decision_order_meaning:
  assumes "process_signal D de acct oid t1 t2 strategy s st = (Inr (Some ord), st')"
  shows "validate_signal D s = None \<and> (\<exists>p bal po rvn. acct = Some p \<and> snapshot p (sig_symbol s) = Inr (bal, po, rvn) \<and>
    ord_symbol ord = sig_symbol s \<and> ord_id ord = oid \<and> ord_status ord = Pending \<and> ord_filled ord = ''0'' \<and>
    ord_strategy ord = strategy \<and>
    (case sig_direction s of
       Long \<Rightarrow> ord_side ord = Buy \<and> (\<forall>q. po = Some q \<and> p_side q = PosLong \<longrightarrow> parse0 D (p_size q) \<le> 0)
     | Short \<Rightarrow> ord_side ord = Sell \<and> (\<forall>q. po = Some q \<and> p_side q = PosShort \<longrightarrow> parse0 D (p_size q) \<le> 0)
     | Flat \<Rightarrow> (\<exists>q. po = Some q \<and> parse0 D (p_size q) \<noteq> 0 \<and>
         ord_side ord = (if p_side q = PosLong then Sell else Buy) \<and>
         ord_size ord = format_size_for_order D de (sig_symbol s) (parse0 D (p_size q)))
     | OtherDirection _ \<Rightarrow> False) \<and>
    ord_price ord = sig_price s \<and> ord_type ord = (if sig_price s = None then MarketOrder else LimitOrder))"
proof -
  obtain p bal po rvn sz side where
    v: "validate_signal D s = None" and p: "acct = Some p" "snapshot p (sig_symbol s) = Inr (bal, po, rvn)"
    and sz: "calculate_order_size D de s bal po = Inr sz" "sz \<noteq> 0"
    and side: "determine_order_side D s po = Inr (Some side)"
    and o1: "ord = build_order D de oid t1 t2 strategy s sz side"
    using assms by (auto simp: process_signal_def Let_def split: option.splits sum.splits prod.splits if_splits)
  have price: "ord_price ord = sig_price s \<and> ord_type ord = (if sig_price s = None then MarketOrder else LimitOrder)"
    using validate_signal_None(5) [OF v] by (auto simp: o1 build_order_def Let_def split: option.splits)
  have f: "ord_symbol ord = sig_symbol s" "ord_id ord = oid" "ord_status ord = Pending" "ord_filled ord = ''0''"
    "ord_strategy ord = strategy" "ord_side ord = side"
    "ord_size ord = format_size_for_order D de (sig_symbol s) sz"
    by (auto simp: o1 build_order_def Let_def split: option.splits)
  show ?thesis
  proof (cases "sig_direction s")
    case Long
    with sz side p v price f show ?thesis
      by (auto simp: calculate_order_size_def determine_order_side_def same_side_def not_less split: if_splits)
  next
    case Short
    with sz side p v price f show ?thesis
      by (auto simp: calculate_order_size_def determine_order_side_def same_side_def not_less split: if_splits)
  next
    case Flat
    with sz side p v price f show ?thesis
      by (auto simp: calculate_order_size_def determine_order_side_def split: option.splits if_splits)
  next
    case (OtherDirection d)
    with side show ?thesis by (simp add: determine_order_side_def)
  qed
qed

definition balance_ex :: balance where
  "balance_ex = \<lparr>b_currency = ''USDT'', b_total = ''1000'', b_available = ''1000'', b_frozen = ''0'', b_updated = 0\<rparr>"

definition account_ex :: projection where
  "account_ex =
     \<lparr>pj_balance = Some balance_ex, pj_positions = [''BTC/USDT'' \<mapsto> pos_ex ''BTC/USDT'' PosLong ''3''],
      pj_revision = 1, pj_ready = True, pj_equity_hook = False, pj_refresh_hook = False\<rparr>"

theorem decision_order_meaning_witness:
  "\<exists>ord st'. process_signal ref_lib (system_deps replies_ex market_ex 10) (Some account_ex) ''id'' 0 0 ''s''
      (signal_ex Flat None None) no_stats = (Inr (Some ord), st') \<and> ord_side ord = Sell \<and> ord_size ord = ''3''"
proof -
  let ?o = "build_order ref_lib (system_deps replies_ex market_ex 10) ''id'' 0 0 ''s'' (signal_ex Flat None None) 3 Sell"
  have r: "process_signal ref_lib (system_deps replies_ex market_ex 10) (Some account_ex) ''id'' 0 0 ''s''
      (signal_ex Flat None None) no_stats = (Inr (Some ?o), no_stats\<lparr>ds_processed := 1, ds_generated := 1\<rparr>)"
    by code_simp
  have "ord_size ?o = ''3''" by code_simp
  then show ?thesis
    using decision_order_meaning [OF r] r
    by (auto simp: signal_ex_def snapshot_def account_ex_def pos_ex_def)
qed

end
