(* ===== verification/PerpRisk.thy ===== *)
theory PerpRisk
  imports Decision EquityTracker
begin

text \<open>
  \<open>internal/app/market/perp/risk.go\<close> with \<open>ports.RiskContext\<close>, and \<open>EvaluateRules\<close> of
  \<open>internal/app/engine/risk_evaluator.go\<close>: the read-only facts an order is judged on, computed
  from the projection, the order count, the equity tracker and the sizing code, and their
  evaluation under a set of rules.

  A dependency that may be nil is an option. \<open>ks\<close> is the order in which the positions are
  ranged over.
\<close>

record risk_context =
  rx_strategy :: string
  rx_signal :: "signal option"
  rx_order :: "order option"
  rx_open_orders :: int
  rx_positions :: int
  rx_projection_ready :: bool
  rx_notional_available :: bool
  rx_opens :: bool
  rx_increasing :: bool
  rx_quote :: string
  rx_order_notional :: decimal
  rx_position_notional :: decimal
  rx_post_position_notional :: decimal
  rx_total_exposure :: decimal
  rx_post_total_exposure :: decimal
  rx_equity :: decimal
  rx_daily_loss :: decimal
  rx_drawdown :: decimal
  rx_post_leverage :: decimal
  rx_per_unit :: decimal

record perp_risk =
  pk_proj :: "projection option"
  pk_decision :: "decision_deps option"
  pk_open_orders :: "int option"
  pk_equity :: "equity_tracker option"
  pk_needs :: "(bool \<Rightarrow> bool) option"

text \<open>\<open>totalExposure\<close>: the loop over the positions.\<close>

fun sum_exposure :: "decimal_lib \<Rightarrow> decision_deps \<Rightarrow> position list \<Rightarrow> decimal \<Rightarrow> decimal result" where
  "sum_exposure D de [] tot = Inr tot"
| "sum_exposure D de (p # ps) tot =
     (case dec_parse D (trim_space (p_size p)) of
        None \<Rightarrow> sum_exposure D de ps tot
      | Some q \<Rightarrow> if \<not> 0 < q then sum_exposure D de ps tot
          else (case notional_for_contracts D de (p_contract p) q (p_mark p) of
             Inl e \<Rightarrow> Inl e
           | Inr n \<Rightarrow> sum_exposure D de ps (tot + n)))"

definition total_exposure :: "decimal_lib \<Rightarrow> perp_risk \<Rightarrow> contract list \<Rightarrow> decimal result" where
  "total_exposure D k ks =
     (case pk_proj k of None \<Rightarrow> Inl (Errorf ''projection not configured'')
      | Some p \<Rightarrow> (case pk_decision k of None \<Rightarrow> Inl (Errorf ''decision engine not configured'')
        | Some de \<Rightarrow> (case all_positions ks p of Inl e \<Rightarrow> Inl e
          | Inr ps \<Rightarrow> sum_exposure D de ps 0)))"

text \<open>The fields filled before the exposure is known to matter.\<close>

definition base_context ::
  "decimal_lib \<Rightarrow> perp_risk \<Rightarrow> contract list \<Rightarrow> string \<Rightarrow> signal option \<Rightarrow> order \<Rightarrow> risk_context" where
  "base_context D k ks strategy so ob =
     \<lparr>rx_strategy = strategy, rx_signal = so, rx_order = Some ob,
      rx_open_orders = (case pk_open_orders k of None \<Rightarrow> 0 | Some n \<Rightarrow> n),
      rx_positions = (case pk_proj k of None \<Rightarrow> 0 | Some p \<Rightarrow>
         if pj_ready p then (case open_position_count ks p of Inl _ \<Rightarrow> 0 | Inr n \<Rightarrow> n) else 0),
      rx_projection_ready = (case pk_proj k of None \<Rightarrow> False | Some p \<Rightarrow> pj_ready p),
      rx_notional_available = False,
      rx_opens = opens_exposure so, rx_increasing = False, rx_quote = ''USDT'',
      rx_order_notional = 0, rx_position_notional = 0, rx_post_position_notional = 0,
      rx_total_exposure = 0, rx_post_total_exposure = 0,
      rx_equity = (case pk_proj k of None \<Rightarrow> 0 | Some p \<Rightarrow>
         if pj_ready p then (case account_equity D p of Inl _ \<Rightarrow> 0 | Inr e \<Rightarrow> e) else 0),
      rx_daily_loss = (case pk_equity k of None \<Rightarrow> 0 | Some t \<Rightarrow> daily_loss t),
      rx_drawdown = (case pk_equity k of None \<Rightarrow> 0 | Some t \<Rightarrow> drawdown_ratio D t),
      rx_post_leverage = 0, rx_per_unit = 0\<rparr>"

text \<open>The notional part, for an order of \<open>qty\<close> contracts whose notional is \<open>n\<close>.\<close>

definition notional_context ::
  "decimal_lib \<Rightarrow> perp_risk \<Rightarrow> decision_deps \<Rightarrow> contract list \<Rightarrow> order \<Rightarrow> position option \<Rightarrow> decimal \<Rightarrow> decimal \<Rightarrow>
   risk_context \<Rightarrow> risk_context" where
  "notional_context D k de ks ob po qty n rc0 =
     (let rc = rc0\<lparr>rx_notional_available := True, rx_order_notional := n, rx_per_unit := dec_div D n qty\<rparr>;
          posn = (case po of None \<Rightarrow> Inr 0
                  | Some p \<Rightarrow> notional_for_contracts D de (ord_symbol ob) (parse0 D (trim_space (p_size p))) (p_mark p))
      in case posn of
           Inl e \<Rightarrow> rc\<lparr>rx_notional_available := False\<rparr>
         | Inr pn \<Rightarrow>
             let rc = rc\<lparr>rx_position_notional := pn\<rparr>
             in case total_exposure D k ks of
                  Inl e \<Rightarrow> rc\<lparr>rx_notional_available := False\<rparr>
                | Inr tot \<Rightarrow>
                    let rc = rc\<lparr>rx_total_exposure := tot,
                                rx_post_position_notional := (if rx_increasing rc then pn + n else pn),
                                rx_post_total_exposure := (if rx_increasing rc then tot + n else tot)\<rparr>
                    in if 0 < rx_equity rc
                       then let exposure = (if \<not> rx_increasing rc then rx_total_exposure rc
                                            else rx_post_total_exposure rc)
                            in rc\<lparr>rx_post_leverage := leverage_ratio D exposure (rx_equity rc)\<rparr>
                       else rc)"

definition build_risk_context ::
  "decimal_lib \<Rightarrow> perp_risk \<Rightarrow> contract list \<Rightarrow> string \<Rightarrow> signal option \<Rightarrow> order option \<Rightarrow> risk_context result" where
  "build_risk_context D k ks strategy so oo =
     (case oo of None \<Rightarrow> Inl (Errorf ''nil order'')
      | Some ob \<Rightarrow>
          let rc = base_context D k ks strategy so ob
          in Inr (if \<not> rx_opens rc then rc\<lparr>rx_notional_available := True\<rparr>
             else case pk_proj k of None \<Rightarrow> rc
             | Some p \<Rightarrow>
                if \<not> pj_ready p then rc
                else case position_for_contract p (ord_symbol ob) of Inl e \<Rightarrow> rc
                | Inr po \<Rightarrow>
                   let rc = rc\<lparr>rx_increasing := is_increasing_exposure D so po\<rparr>;
                       needs = (case pk_needs k of None \<Rightarrow> False | Some f \<Rightarrow> f (rx_increasing rc))
                   in if \<not> needs then rc\<lparr>rx_notional_available := True\<rparr>
                      else case pk_decision k of None \<Rightarrow> rc
                      | Some de \<Rightarrow> (case dec_parse D (trim_space (ord_size ob)) of None \<Rightarrow> rc
                        | Some qty \<Rightarrow>
                           if \<not> 0 < qty then rc
                           else case notional_for_contracts D de (ord_symbol ob) qty
                                       (case po of None \<Rightarrow> [] | Some q \<Rightarrow> p_mark q) of
                                  Inl e \<Rightarrow> rc
                                | Inr n \<Rightarrow> notional_context D k de ks ob po qty n rc)))"

subsection \<open>EvaluateRules\<close>

definition risk_input_of :: "rules \<Rightarrow> risk_context \<Rightarrow> order \<Rightarrow> risk_input" where
  "risk_input_of r rc ob =
     \<lparr>in_rules = r, in_order_size = ord_size ob, in_signal_opens = opens_exposure (rx_signal rc),
      in_open_orders = rx_open_orders rc, in_open_positions = rx_positions rc,
      in_projection_ready = rx_projection_ready rc, in_notional_available = rx_notional_available rc,
      in_opens = rx_opens rc, in_increasing = rx_increasing rc, in_order_notional = rx_order_notional rc,
      in_position_notional = rx_position_notional rc,
      in_post_position_notional = rx_post_position_notional rc,
      in_total_exposure = rx_total_exposure rc, in_post_total_exposure = rx_post_total_exposure rc,
      in_equity = rx_equity rc, in_daily_loss = rx_daily_loss rc, in_drawdown = rx_drawdown rc,
      in_post_leverage = rx_post_leverage rc, in_notional_per_unit = rx_per_unit rc\<rparr>"

definition evaluate_rules :: "decimal_lib \<Rightarrow> rules \<Rightarrow> risk_context option \<Rightarrow> verdict" where
  "evaluate_rules D r rco =
     (case rco of None \<Rightarrow> allow
      | Some rc \<Rightarrow> (case rx_order rc of None \<Rightarrow> allow | Some ob \<Rightarrow> evaluate D (risk_input_of r rc ob)))"

subsection \<open>What a context says\<close>

lemma base_context_sel [simp]:
  "rx_opens (base_context D k ks strategy so ob) = opens_exposure so"
  "rx_signal (base_context D k ks strategy so ob) = so"
  "rx_order (base_context D k ks strategy so ob) = Some ob"
  "rx_notional_available (base_context D k ks strategy so ob) = False"
  "rx_increasing (base_context D k ks strategy so ob) = False"
  "rx_projection_ready (base_context D k ks strategy so ob) = (\<exists>p. pk_proj k = Some p \<and> pj_ready p)"
  by (auto simp: base_context_def split: option.splits)

lemma notional_context_sel:
  "rx_order (notional_context D k de ks ob po qty n rc) = rx_order rc"
  "rx_signal (notional_context D k de ks ob po qty n rc) = rx_signal rc"
  "rx_opens (notional_context D k de ks ob po qty n rc) = rx_opens rc"
  "rx_increasing (notional_context D k de ks ob po qty n rc) = rx_increasing rc"
  "rx_equity (notional_context D k de ks ob po qty n rc) = rx_equity rc"
  "rx_projection_ready (notional_context D k de ks ob po qty n rc) = rx_projection_ready rc"
  by (auto simp: notional_context_def Let_def split: sum.splits)

lemma build_risk_context_sel:
  assumes "build_risk_context D k ks strategy so (Some ob) = Inr rc"
  shows "rx_order rc = Some ob" and "rx_signal rc = so" and "rx_opens rc = opens_exposure so"
    and "rx_equity rc = rx_equity (base_context D k ks strategy so ob)"
    and "rx_projection_ready rc = (\<exists>p. pk_proj k = Some p \<and> pj_ready p)"
  using assms by (auto simp: build_risk_context_def Let_def notional_context_sel split: option.splits sum.splits if_splits)

text \<open>Whenever the gate asks for the notional figures and they are available, they are those of
  the order, of its position and of the whole account.\<close>

lemma build_risk_context_notional:
  assumes b: "build_risk_context D k ks strategy so (Some ob) = Inr rc"
    and op: "opens_exposure so" and av: "rx_notional_available rc"
    and needs: "pk_needs k = Some f" "f (rx_increasing rc)"
  obtains p de po qty n pn tot where
    "pk_proj k = Some p" "pj_ready p" "pk_decision k = Some de" "po = pj_positions p (ord_symbol ob)"
    "rx_increasing rc = is_increasing_exposure D so po"
    "dec_parse D (trim_space (ord_size ob)) = Some qty" "0 < qty"
    "notional_for_contracts D de (ord_symbol ob) qty (case po of None \<Rightarrow> [] | Some q \<Rightarrow> p_mark q) = Inr n"
    "total_exposure D k ks = Inr tot"
    "rx_order_notional rc = n" "rx_per_unit rc = dec_div D n qty" "rx_position_notional rc = pn"
    "(case po of None \<Rightarrow> Inr 0 | Some q \<Rightarrow> notional_for_contracts D de (ord_symbol ob)
        (parse0 D (trim_space (p_size q))) (p_mark q)) = Inr pn"
    "rx_post_position_notional rc = (if rx_increasing rc then pn + n else pn)"
    "rx_post_total_exposure rc = (if rx_increasing rc then tot + n else tot)"
    "0 < rx_equity rc \<longrightarrow>
       rx_post_leverage rc = leverage_ratio D (rx_post_total_exposure rc) (rx_equity rc)"
proof -
  let ?base = "base_context D k ks strategy so ob"
  obtain p where p: "pk_proj k = Some p" "pj_ready p"
    using b op av by (auto simp: build_risk_context_def Let_def split: option.splits if_splits)
  define po where "po = pj_positions p (ord_symbol ob)"
  let ?rc = "?base\<lparr>rx_increasing := is_increasing_exposure D so po\<rparr>"
  have pos: "position_for_contract p (ord_symbol ob) = Inr po"
    using p by (simp add: position_for_contract_def po_def)
  have inc: "rx_increasing rc = is_increasing_exposure D so po"
    using b op p pos by (auto simp: build_risk_context_def Let_def notional_context_sel split: option.splits sum.splits if_splits)
  obtain de qty n where d: "pk_decision k = Some de" "dec_parse D (trim_space (ord_size ob)) = Some qty" "0 < qty"
    "notional_for_contracts D de (ord_symbol ob) qty (case po of None \<Rightarrow> [] | Some q \<Rightarrow> p_mark q) = Inr n"
    and rc: "rc = notional_context D k de ks ob po qty n ?rc"
    using b op p pos needs av inc
    by (auto simp: build_risk_context_def Let_def split: option.splits sum.splits if_splits)
  show ?thesis
    using that [OF p d(1) po_def inc d(2,3,4)] av inc unfolding rc notional_context_def Let_def
    by (auto split: sum.splits if_splits)
qed

subsection \<open>What a verdict guarantees\<close>


definition order_ex :: "order_side \<Rightarrow> string \<Rightarrow> order" where
  "order_ex side sz =
     \<lparr>ord_id = ''o1'', ord_exchange_id = [], ord_market = Perp, ord_symbol = ''BTC/USDT'',
      ord_side = side, ord_type = MarketOrder, ord_price = None, ord_size = sz, ord_filled = ''0'',
      ord_status = Pending, ord_created = 0, ord_updated = 0, ord_stop_price = None, ord_strategy = ''s''\<rparr>"

definition perp_risk_ex :: perp_risk where
  "perp_risk_ex =
     \<lparr>pk_proj = Some account_ex, pk_decision = Some (system_deps replies_ex market_ex 10),
      pk_open_orders = Some 1, pk_equity = Some new_equity_tracker, pk_needs = Some (\<lambda>_. True)\<rparr>"

definition context_ex :: "string \<Rightarrow> risk_context" where
  "context_ex sz = (case build_risk_context ref_lib perp_risk_ex [''BTC/USDT''] ''s'' (Some (signal_ex Long None None))
      (Some (order_ex Buy sz)) of Inr rc \<Rightarrow> rc | Inl e \<Rightarrow> base_context ref_lib perp_risk_ex [] ''s'' None (order_ex Buy sz))"

definition rules_ex :: "decimal \<Rightarrow> decimal \<Rightarrow> int \<Rightarrow> rules" where
  "rules_ex osz psz lev =
     default_rules\<lparr>r_max_order_size := osz, r_max_position_size := psz, r_max_leverage := lev\<rparr>"


text \<open>C11. A reduction only ever shrinks an order: the adjusted size is the printed form of a
  number strictly below the requested one, so that submitting it parses back to that number, and
  with a non-negative order-size limit it is positive.\<close>

theorem reduce_shrinks:
  assumes "decimal_laws D" and "v_kind (evaluate D i) = KReduce"
  shows "\<exists>qty a. dec_parse D (in_order_size i) = Some qty \<and>
           dec_parse D (v_adjusted (evaluate D i)) = Some a \<and>
           v_adjusted (evaluate D i) = dec_string D a \<and> a < qty \<and>
           (0 \<le> r_max_order_size (in_rules i) \<longrightarrow> 0 < a)"
  by (rule decimal_laws.evaluate_reduce [OF assms])

theorem reduce_shrinks_witness:
  "dec_parse ref_lib (v_adjusted (evaluate ref_lib
      (risk_input_of (rules_ex 4 0 0) (context_ex ''5'') (order_ex Buy ''5'')))) \<noteq> None"
proof -
  have "v_kind (evaluate ref_lib (risk_input_of (rules_ex 4 0 0) (context_ex ''5'') (order_ex Buy ''5''))) = KReduce"
    by code_simp
  from reduce_shrinks [OF ref.decimal_laws_axioms this] show ?thesis by force
qed

context decimal_laws
begin

lemma leverage_bound:
  assumes "0 < equity" and "leverage_ratio D exposure equity \<le> of_int l"
  shows "val exposure \<le> (of_int l + 1 / (2 * 10 ^ 16)) * val equity"
proof -
  have q: "leverage_ratio D exposure equity = dec_div D exposure equity" using assms(1) by (simp add: leverage_ratio_def)
  have "\<bar>val (dec_div D exposure equity) - val exposure / val equity\<bar> \<le> 1 / (2 * 10 ^ 16)"
    using assms(1) by (intro div_accuracy) auto
  moreover have "val (dec_div D exposure equity) \<le> of_int l"
    using assms(2) unfolding q val_le_iff by simp
  ultimately have "val exposure / val equity \<le> of_int l + 1 / (2 * 10 ^ 16)" unfolding abs_le_iff by linarith
  then show ?thesis using assms(1) by (simp add: val_less_iff divide_le_eq)
qed

lemma position_reduce_bound:
  assumes "v_kind (evaluate_position_size D i qty) = KReduce"
  shows "\<exists>a. v_adjusted (evaluate_position_size D i qty) = dec_string D a \<and> 0 < a \<and> a < qty \<and>
    val (in_position_notional i) + val a * val (in_notional_per_unit i)
      \<le> val (r_max_position_size (in_rules i)) + val (in_notional_per_unit i) / (2 * 10 ^ 16)"
proof -
  let ?u = "in_notional_per_unit i" and ?m = "r_max_position_size (in_rules i)"
  let ?d = "?m - in_position_notional i"
  let ?a = "dec_floor (dec_div D ?d ?u)"
  note r = evaluate_position_size_reduce [OF assms]
  have u: "0 < val ?u" using r(4) by (simp add: val_less_iff)
  have "val ?a \<le> val ?d / val ?u + 1 / (2 * 10 ^ 16)" by (rule floor_div_bound [OF r(4)])
  then have "val ?a * val ?u \<le> (val ?d / val ?u + 1 / (2 * 10 ^ 16)) * val ?u"
    using u by (intro mult_right_mono) auto
  also have "\<dots> = val ?d + val ?u / (2 * 10 ^ 16)" using u by (simp add: distrib_right)
  finally show ?thesis using r(1,2,3) by (intro exI [of _ ?a]) simp
qed

end

lemma leverage_core:
  assumes "decimal_laws D"
    and "build_risk_context D k ks strategy so (Some ob) = Inr rc" and "opens_exposure so"
    and "pk_needs k = Some f" and "f (rx_increasing rc)"
    and "0 < rx_equity rc" and "rx_notional_available rc" and "rx_post_leverage rc \<le> of_int l"
  shows "\<exists>de qty mark n tot. pk_decision k = Some de \<and> dec_parse D (trim_space (ord_size ob)) = Some qty \<and> 0 < qty \<and>
    notional_for_contracts D de (ord_symbol ob) qty mark = Inr n \<and> total_exposure D k ks = Inr tot \<and>
    0 < rx_equity rc \<and>
    val (if rx_increasing rc then tot + n else tot)
      \<le> (of_int l + 1 / (2 * 10 ^ 16)) * val (rx_equity rc)"
proof (rule build_risk_context_notional [OF assms(2,3,7,4,5)])
  fix p de po qty n pn tot
  assume "pk_decision k = Some de" "dec_parse D (trim_space (ord_size ob)) = Some qty" "0 < qty"
    "notional_for_contracts D de (ord_symbol ob) qty (case po of None \<Rightarrow> [] | Some q \<Rightarrow> p_mark q) = Inr n"
    "total_exposure D k ks = Inr tot"
    and e: "rx_post_total_exposure rc = (if rx_increasing rc then tot + n else tot)"
    and l: "0 < rx_equity rc \<longrightarrow>
     rx_post_leverage rc = leverage_ratio D (rx_post_total_exposure rc) (rx_equity rc)"
  moreover have "val (if rx_increasing rc then tot + n else tot)
    \<le> (of_int l + 1 / (2 * 10 ^ 16)) * val (rx_equity rc)"
    using decimal_laws.leverage_bound [OF assms(1,6)] assms(6,8) l unfolding e by simp
  ultimately show ?thesis using assms(6) by blast
qed



text \<open>A reduction by the position limit fits the limit: the reduced number of contracts,
  priced at the order's own notional per contract, brings the position's notional to at most the
  limit, up to the rounding of the division.\<close>

theorem position_reduction_fits:
  assumes "decimal_laws D" and "v_kind (evaluate_position_size D i qty) = KReduce"
  shows "\<exists>a. v_adjusted (evaluate_position_size D i qty) = dec_string D a \<and> 0 < a \<and> a < qty \<and>
    val (in_position_notional i) + val a * val (in_notional_per_unit i)
      \<le> val (r_max_position_size (in_rules i)) + val (in_notional_per_unit i) / (2 * 10 ^ 16)"
  by (rule decimal_laws.position_reduce_bound [OF assms])

theorem position_reduction_fits_witness:
  "\<exists>a. v_adjusted (evaluate_position_size ref_lib (risk_input_of (rules_ex 0 10 0) (context_ex ''8'') (order_ex Buy ''8'')) 8)
     = dec_string ref_lib a \<and> 0 < a \<and> a < 8"
proof -
  have "v_kind (evaluate_position_size ref_lib (risk_input_of (rules_ex 0 10 0) (context_ex ''8'') (order_ex Buy ''8'')) 8)
      = KReduce" by code_simp
  from position_reduction_fits [OF ref.decimal_laws_axioms this] show ?thesis by blast
qed

text \<open>The two reductions do not compose: when the order-size limit reduces an order, the
  position limit is not checked. A position worth 3 USDT under a position limit of 4 USDT and an
  order-size limit of 7 contracts of 1 USDT: an order for 8 contracts is reduced to 7, which would
  make the position 10 USDT, although the same order for 7 contracts is itself reduced to 1.\<close>

theorem order_size_reduction_skips_position_limit:
  "let big = evaluate ref_lib (risk_input_of (rules_ex 7 4 0) (context_ex ''8'') (order_ex Buy ''8''));
       fit = evaluate ref_lib (risk_input_of (rules_ex 7 4 0) (context_ex ''7'') (order_ex Buy ''7''))
   in v_kind big = KReduce \<and> v_code big = ''RISK_MAX_ORDER_SIZE'' \<and> v_adjusted big = ''7'' \<and>
      v_kind fit = KReduce \<and> v_code fit = ''RISK_MAX_POSITION_SIZE'' \<and> v_adjusted fit = ''1''"
  by code_simp

end
