(* ===== verification/OMS.thy ===== *)
theory OMS
  imports Instrument RefDecimal
begin

text \<open>
  \<open>internal/app/oms\<close>: the order management system. One goroutine takes commands (submit, cancel,
  sync, flush) and normalised order events in turn, so that its life is a sequence of steps over
  one state.

  The orders are held by pointer: the update channel carries the id of an order, whose fields
  the reader sees as they are when it reads; what is saved to the store is a copy. The market
  executor's answers, the context's cancellation, the clock and the choice of a \<open>select\<close> with
  several ready cases are arguments: \<open>env_sent\<close> says whether a send was chosen over the
  cancelled context.
\<close>

subsection \<open>State\<close>

record oms =
  oms_orders :: "string \<rightharpoonup> order"
  oms_default :: market
  oms_executors :: "market \<Rightarrow> bool"
  oms_store :: bool
  oms_meta :: "(contract \<Rightarrow> contract_meta result) option"
  oms_max_retries :: int
  oms_updates :: "string list"
  oms_saves :: "order list"
  oms_submitted :: int
  oms_filled :: int
  oms_cancelled :: int
  oms_rejected :: int
  oms_failed :: int
  oms_retries :: int
  oms_last_update :: go_time

definition new_oms :: "(market \<Rightarrow> bool) \<Rightarrow> bool \<Rightarrow> (contract \<Rightarrow> contract_meta result) option \<Rightarrow> int \<Rightarrow> oms" where
  "new_oms execs store meta retries =
     \<lparr>oms_orders = Map.empty, oms_default = Perp, oms_executors = execs, oms_store = store,
      oms_meta = meta, oms_max_retries = retries, oms_updates = [], oms_saves = [],
      oms_submitted = 0, oms_filled = 0, oms_cancelled = 0, oms_rejected = 0, oms_failed = 0,
      oms_retries = 0, oms_last_update = zero_time\<rparr>"

record oms_env =
  env_t0 :: go_time
  env_t1 :: go_time
  env_t2 :: go_time
  env_sent :: "order \<Rightarrow> bool"

definition put_order :: "order \<Rightarrow> oms \<Rightarrow> oms" where
  "put_order ob s = s\<lparr>oms_orders := (oms_orders s)(ord_id ob \<mapsto> ob)\<rparr>"

text \<open>\<open>sendOrderUpdate\<close> and \<open>syncOrderToStore\<close>; a failed save is only logged.\<close>

definition send_order_update :: "oms_env \<Rightarrow> order \<Rightarrow> oms \<Rightarrow> oms" where
  "send_order_update env ob s =
     (if \<not> env_sent env ob then s
      else let s1 = s\<lparr>oms_updates := oms_updates s @ [ord_id ob]\<rparr>
           in if oms_store s then s1\<lparr>oms_saves := oms_saves s @ [ob]\<rparr> else s1)"

definition has_executor :: "oms \<Rightarrow> order \<Rightarrow> bool" where
  "has_executor s ob =
     (let m = (if market_valid (ord_market ob) then ord_market ob else oms_default s) in oms_executors s m)"

subsection \<open>Validation before placing\<close>

definition optional_positive :: "decimal_lib \<Rightarrow> string \<Rightarrow> decimal option" where
  "optional_positive D s0 =
     (let s = trim_space s0
      in if s = [] then None
         else case dec_parse D s of None \<Rightarrow> None | Some d \<Rightarrow> if 0 < d then Some d else None)"

definition validate_order_size :: "decimal_lib \<Rightarrow> contract_meta \<Rightarrow> string \<Rightarrow> go_error option" where
  "validate_order_size D m sz =
     (case dec_parse D (trim_space sz) of
        None \<Rightarrow> Some (Errorf (''invalid order size '' @ quoted sz))
      | Some x \<Rightarrow>
          if \<not> 0 < x then Some (Errorf (''invalid order size '' @ quoted sz))
          else if \<not> m_decimal_size m \<and> x \<noteq> dec_trunc x then
            Some (Errorf (''size must be integer contracts for '' @ m_contract m))
          else if (case optional_positive D (m_size_min m) of None \<Rightarrow> False | Some mn \<Rightarrow> x < mn) then
            Some (Errorf (''size '' @ dec_string D x @ '' below minimum '' @
              dec_string D (the (optional_positive D (m_size_min m))) @ '' for '' @ m_contract m))
          else if (case optional_positive D (m_size_max m) of None \<Rightarrow> False | Some mx \<Rightarrow> mx < x) then
            Some (Errorf (''size '' @ dec_string D x @ '' above maximum '' @
              dec_string D (the (optional_positive D (m_size_max m))) @ '' for '' @ m_contract m))
          else if (case optional_positive D (m_size_step m) of None \<Rightarrow> False | Some st \<Rightarrow> dec_mod x st \<noteq> 0) then
            Some (Errorf (''size '' @ dec_string D x @ '' not aligned to step '' @
              dec_string D (the (optional_positive D (m_size_step m))) @ '' for '' @ m_contract m))
          else None)"

definition validate_limit_price :: "decimal_lib \<Rightarrow> contract_meta \<Rightarrow> string \<Rightarrow> go_error option" where
  "validate_limit_price D m ps =
     (case dec_parse D (trim_space ps) of
        None \<Rightarrow> Some (Errorf (''invalid limit price '' @ quoted ps))
      | Some x \<Rightarrow>
          if \<not> 0 < x then Some (Errorf (''invalid limit price '' @ quoted ps))
          else if (case optional_positive D (m_price_step m) of None \<Rightarrow> False | Some st \<Rightarrow> dec_mod x st \<noteq> 0) then
            Some (Errorf (''price '' @ dec_string D x @ '' not aligned to tick '' @
              dec_string D (the (optional_positive D (m_price_step m))) @ '' for '' @ m_contract m))
          else None)"

definition validate_order_for_place :: "decimal_lib \<Rightarrow> oms \<Rightarrow> order \<Rightarrow> go_error option" where
  "validate_order_for_place D s ob =
     (case oms_meta s of
        None \<Rightarrow> None
      | Some lk \<Rightarrow> (case lk (ord_symbol ob) of
          Inl e \<Rightarrow> Some e
        | Inr m \<Rightarrow> (case validate_order_size D m (ord_size ob) of
            Some e \<Rightarrow> Some e
          | None \<Rightarrow> (case ord_price ob of
              None \<Rightarrow> None
            | Some p \<Rightarrow> if ord_type ob = LimitOrder \<and> trim_space p \<noteq> []
                        then validate_limit_price D m p else None))))"

subsection \<open>Submission\<close>

text \<open>What the environment does at one attempt: the context may be done before it, or during the
  wait that precedes every attempt but the first; otherwise the exchange answers.\<close>

record attempt =
  at_ctx :: "go_error option"
  at_wait :: "go_error option"
  at_place :: "string result"

datatype loop_result = Placed string | Stopped go_error | Exhausted "go_error option"

text \<open>The retry loop from attempt \<open>i\<close> with \<open>n\<close> attempts left; it also returns the number of
  retries and the number of calls of \<open>Place\<close>.\<close>

fun submit_loop :: "(nat \<Rightarrow> attempt) \<Rightarrow> nat \<Rightarrow> nat \<Rightarrow> go_error option \<Rightarrow> loop_result \<times> nat \<times> nat" where
  "submit_loop scr i 0 err = (Exhausted err, 0, 0)"
| "submit_loop scr i (Suc n) err =
     (case at_ctx (scr i) of
        Some e \<Rightarrow> (Stopped e, 0, 0)
      | None \<Rightarrow>
          if 0 < i \<and> at_wait (scr i) \<noteq> None then (Stopped (the (at_wait (scr i))), 0, 0)
          else case at_place (scr i) of
            Inr exid \<Rightarrow> (Placed exid, if 0 < i then 1 else 0, 1)
          | Inl e \<Rightarrow>
              (case submit_loop scr (Suc i) n (Some e) of (r, retries, calls) \<Rightarrow>
                 (r, retries + (if 0 < i then 1 else 0), calls + 1)))"

definition attempts :: "oms \<Rightarrow> nat" where
  "attempts s = nat (oms_max_retries s + 1)"

definition handle_submit_error :: "oms_env \<Rightarrow> order \<Rightarrow> oms \<Rightarrow> oms" where
  "handle_submit_error env ob s =
     (let ob' = ob\<lparr>ord_status := Rejected, ord_updated := env_t2 env\<rparr>;
          s1 = send_order_update env ob' (put_order ob' s)
      in s1\<lparr>oms_rejected := oms_rejected s1 + 1, oms_failed := oms_failed s1 + 1\<rparr>)"

definition handle_submit_success :: "oms_env \<Rightarrow> order \<Rightarrow> string \<Rightarrow> oms \<Rightarrow> oms" where
  "handle_submit_success env ob exid s =
     (let ob' = ob\<lparr>ord_exchange_id := exid, ord_status := Submitted, ord_updated := env_t2 env\<rparr>
      in send_order_update env ob' (put_order ob' s))"

definition exhausted_error :: "oms \<Rightarrow> go_error option \<Rightarrow> go_error" where
  "exhausted_error s err =
     Wrapf (''failed after '' @ show_int (oms_max_retries s) @ '' retries: '')
       (case err of Some e \<Rightarrow> e | None \<Rightarrow> Errorf ''%!w(<nil>)'')"

definition submit_with_retry ::
  "decimal_lib \<Rightarrow> oms_env \<Rightarrow> (nat \<Rightarrow> attempt) \<Rightarrow> order \<Rightarrow> oms \<Rightarrow> go_error option \<times> oms" where
  "submit_with_retry D env scr ob s =
     (case validate_order_for_place D s ob of
        Some e \<Rightarrow> (Some e, handle_submit_error env ob s)
      | None \<Rightarrow>
          if \<not> has_executor s ob then
            let e = Errorf ''no market executor for order'' in (Some e, handle_submit_error env ob s)
          else (case submit_loop scr 0 (attempts s) None of (r, retries, calls) \<Rightarrow>
            let s1 = s\<lparr>oms_retries := oms_retries s + int retries\<rparr>
            in case r of
                 Placed exid \<Rightarrow> (None, handle_submit_success env ob exid s1)
               | Stopped e \<Rightarrow> (Some e, handle_submit_error env ob s1)
               | Exhausted err \<Rightarrow>
                   (Some (exhausted_error s err), handle_submit_error env ob s1)))"

definition duplicate_error :: "order \<Rightarrow> go_error" where
  "duplicate_error ex =
     Errorf (''duplicate order id '' @ quoted (ord_id ex) @ '': existing order in state '' @ status_str (ord_status ex))"

definition exec_submit ::
  "decimal_lib \<Rightarrow> oms_env \<Rightarrow> (nat \<Rightarrow> attempt) \<Rightarrow> order option \<Rightarrow> oms \<Rightarrow> go_error option \<times> oms" where
  "exec_submit D env scr oo s =
     (case oo of
        None \<Rightarrow> (Some (Errorf ''nil order''), s)
      | Some ob \<Rightarrow> (case oms_orders s (ord_id ob) of
          Some ex \<Rightarrow> (Some (duplicate_error ex), s)
        | None \<Rightarrow>
            let ob1 = ob\<lparr>ord_market := (if market_valid (ord_market ob) then ord_market ob else oms_default s),
                         ord_status := Pending, ord_created := env_t0 env, ord_updated := env_t0 env\<rparr>;
                s1 = send_order_update env ob1 (put_order ob1 s);
                s2 = s1\<lparr>oms_submitted := oms_submitted s1 + 1, oms_last_update := env_t1 env\<rparr>
            in submit_with_retry D env scr ob1 s2))"

subsection \<open>Cancel, events, sync, flush, hydrate\<close>

definition order_not_found :: "string \<Rightarrow> go_error" where
  "order_not_found oid = Errorf (''order not found: '' @ oid)"

text \<open>\<open>answer\<close> is the executor's answer to the cancellation, nil being success.\<close>

definition exec_cancel ::
  "oms_env \<Rightarrow> (order \<Rightarrow> go_error option) \<Rightarrow> string \<Rightarrow> oms \<Rightarrow> go_error option \<times> oms" where
  "exec_cancel env answer oid s =
     (case oms_orders s oid of
        None \<Rightarrow> (Some (order_not_found oid), s)
      | Some ob \<Rightarrow>
          if is_terminal (ord_status ob) then
            (Some (Errorf (''cannot cancel order in status: '' @ status_str (ord_status ob))), s)
          else if \<not> has_executor s ob then (Some (Errorf ''no market executor for order''), s)
          else case answer ob of
            Some e \<Rightarrow> (Some (Wrapf ''failed to cancel order: '' e), s)
          | None \<Rightarrow>
              let ob' = ob\<lparr>ord_status := Cancelled, ord_updated := env_t0 env\<rparr>;
                  s1 = send_order_update env ob' (s\<lparr>oms_orders := (oms_orders s)(oid \<mapsto> ob')\<rparr>)
              in (None, s1\<lparr>oms_cancelled := oms_cancelled s1 + 1\<rparr>))"

text \<open>The order an event is about: by client id, then by exchange id, the first of the range
  order \<open>ks\<close>.\<close>

definition event_order :: "string list \<Rightarrow> order_event \<Rightarrow> oms \<Rightarrow> order option" where
  "event_order ks ev s =
     (case (if oe_client_id ev \<noteq> [] then oms_orders s (oe_client_id ev) else None) of
        Some ob \<Rightarrow> Some ob
      | None \<Rightarrow> if oe_exchange_id ev \<noteq> []
                then find (\<lambda>ob. ord_exchange_id ob = oe_exchange_id ev) (map_values ks (oms_orders s))
                else None)"

definition apply_order_event :: "oms_env \<Rightarrow> string list \<Rightarrow> order_event option \<Rightarrow> oms \<Rightarrow> oms" where
  "apply_order_event env ks evo s =
     (case evo of
        None \<Rightarrow> s
      | Some ev \<Rightarrow> (case event_order ks ev s of
          None \<Rightarrow> s
        | Some ob \<Rightarrow>
            let ob' = ob\<lparr>ord_status := oe_status ev, ord_filled := oe_filled ev, ord_updated := oe_updated ev\<rparr>;
                s1 = send_order_update env ob' (put_order ob' s)
            in if ord_status ob' = Filled then s1\<lparr>oms_filled := oms_filled s1 + 1\<rparr> else s1))"

definition exec_sync ::
  "oms_env \<Rightarrow> string list \<Rightarrow> (order \<Rightarrow> order_event option result) \<Rightarrow> string \<Rightarrow> oms \<Rightarrow> go_error option \<times> oms" where
  "exec_sync env ks answer oid s =
     (case oms_orders s oid of
        None \<Rightarrow> (Some (order_not_found oid), s)
      | Some ob \<Rightarrow>
          if \<not> has_executor s ob then (Some (Errorf ''no market executor for order''), s)
          else case answer ob of
            Inl e \<Rightarrow> (Some (Wrapf ''failed to sync order from exchange: '' e), s)
          | Inr evo \<Rightarrow> (None, apply_order_event env ks evo s))"

text \<open>Saving in the range order until the first failure.\<close>

fun flush_all :: "(order \<Rightarrow> go_error option) \<Rightarrow> order list \<Rightarrow> oms \<Rightarrow> go_error option \<times> oms" where
  "flush_all save [] s = (None, s)"
| "flush_all save (ob # obs) s =
     (let s1 = s\<lparr>oms_saves := oms_saves s @ [ob]\<rparr>
      in case save ob of Some e \<Rightarrow> (Some e, s1) | None \<Rightarrow> flush_all save obs s1)"

definition exec_flush :: "string list \<Rightarrow> (order \<Rightarrow> go_error option) \<Rightarrow> oms \<Rightarrow> go_error option \<times> oms" where
  "exec_flush ks save s =
     (if \<not> oms_store s then (None, s) else flush_all save (map_values ks (oms_orders s)) s)"

definition hydrate_one :: "order option \<Rightarrow> oms \<Rightarrow> oms" where
  "hydrate_one oo s =
     (case oo of None \<Rightarrow> s
      | Some ob \<Rightarrow> put_order (ob\<lparr>ord_market := (if market_valid (ord_market ob) then ord_market ob else oms_default s)\<rparr>) s)"

definition hydrate_from_snapshot :: "order option list \<Rightarrow> oms \<Rightarrow> oms" where
  "hydrate_from_snapshot obs s = fold hydrate_one obs s"

subsection \<open>Queries\<close>

definition non_final_in :: "string \<Rightarrow> order \<Rightarrow> bool" where
  "non_final_in strategy ob \<longleftrightarrow>
     (strategy \<noteq> [] \<longrightarrow> ord_strategy ob = strategy) \<and> is_open (ord_status ob)"

definition non_final_order_count_locked :: "string list \<Rightarrow> string \<Rightarrow> oms \<Rightarrow> nat" where
  "non_final_order_count_locked ks strategy s =
     length (filter (non_final_in strategy) (map_values ks (oms_orders s)))"

definition orders_by_symbol :: "string list \<Rightarrow> contract \<Rightarrow> oms \<Rightarrow> order list" where
  "orders_by_symbol ks c s = filter (\<lambda>ob. ord_symbol ob = c) (map_values ks (oms_orders s))"

definition orders_by_status :: "string list \<Rightarrow> order_status \<Rightarrow> oms \<Rightarrow> order list" where
  "orders_by_status ks st s = filter (\<lambda>ob. ord_status ob = st) (map_values ks (oms_orders s))"

subsection \<open>The loop\<close>

datatype oms_input =
    Submit oms_env "nat \<Rightarrow> attempt" "order option"
  | Cancel oms_env "order \<Rightarrow> go_error option" string
  | Sync oms_env "string list" "order \<Rightarrow> order_event option result" string
  | Flush "string list" "order \<Rightarrow> go_error option"
  | Event oms_env "string list" order_event

fun oms_step :: "decimal_lib \<Rightarrow> oms_input \<Rightarrow> oms \<Rightarrow> oms" where
  "oms_step D (Submit env scr oo) s = snd (exec_submit D env scr oo s)"
| "oms_step D (Cancel env answer oid) s = snd (exec_cancel env answer oid s)"
| "oms_step D (Sync env ks answer oid) s = snd (exec_sync env ks answer oid s)"
| "oms_step D (Flush ks save) s = snd (exec_flush ks save s)"
| "oms_step D (Event env ks ev) s = apply_order_event env ks (Some ev) s"

definition oms_run :: "decimal_lib \<Rightarrow> oms_input list \<Rightarrow> oms \<Rightarrow> oms" where
  "oms_run D ins s = fold (oms_step D) ins s"

subsection \<open>Bookkeeping\<close>

lemma put_order_sel [simp]:
  "oms_orders (put_order ob s) = (oms_orders s)(ord_id ob \<mapsto> ob)"
  "oms_store (put_order ob s) = oms_store s" "oms_saves (put_order ob s) = oms_saves s"
  "oms_meta (put_order ob s) = oms_meta s" "oms_max_retries (put_order ob s) = oms_max_retries s"
  "oms_submitted (put_order ob s) = oms_submitted s" "oms_rejected (put_order ob s) = oms_rejected s"
  "oms_retries (put_order ob s) = oms_retries s" "oms_default (put_order ob s) = oms_default s"
  "oms_executors (put_order ob s) = oms_executors s"
  by (simp_all add: put_order_def)

lemma send_order_update_sel [simp]:
  "oms_orders (send_order_update env ob s) = oms_orders s"
  "oms_store (send_order_update env ob s) = oms_store s"
  "oms_meta (send_order_update env ob s) = oms_meta s"
  "oms_max_retries (send_order_update env ob s) = oms_max_retries s"
  "oms_submitted (send_order_update env ob s) = oms_submitted s"
  "oms_rejected (send_order_update env ob s) = oms_rejected s"
  "oms_retries (send_order_update env ob s) = oms_retries s"
  "oms_default (send_order_update env ob s) = oms_default s"
  "oms_executors (send_order_update env ob s) = oms_executors s"
  by (simp_all add: send_order_update_def Let_def)

lemma handle_submit_sel [simp]:
  "oms_orders (handle_submit_error env ob s) =
     (oms_orders s)(ord_id ob \<mapsto> ob\<lparr>ord_status := Rejected, ord_updated := env_t2 env\<rparr>)"
  "oms_rejected (handle_submit_error env ob s) = oms_rejected s + 1"
  "oms_submitted (handle_submit_error env ob s) = oms_submitted s"
  "oms_retries (handle_submit_error env ob s) = oms_retries s"
  "oms_orders (handle_submit_success env ob x s) =
     (oms_orders s)(ord_id ob \<mapsto> ob\<lparr>ord_exchange_id := x, ord_status := Submitted, ord_updated := env_t2 env\<rparr>)"
  "oms_rejected (handle_submit_success env ob x s) = oms_rejected s"
  "oms_submitted (handle_submit_success env ob x s) = oms_submitted s"
  "oms_retries (handle_submit_success env ob x s) = oms_retries s"
  by (simp_all add: handle_submit_error_def handle_submit_success_def Let_def)

subsection \<open>The store follows the memory\<close>

text \<open>What a reader of the store sees: the last saved copy of each id.\<close>

definition persisted :: "oms \<Rightarrow> (string \<rightharpoonup> order)" where
  "persisted s = fold (\<lambda>ob m. m(ord_id ob \<mapsto> ob)) (oms_saves s) Map.empty"

definition write_through :: "oms \<Rightarrow> bool" where
  "write_through s \<longleftrightarrow> oms_store s \<and> persisted s = oms_orders s \<and>
     (\<forall>k ob. oms_orders s k = Some ob \<longrightarrow> ord_id ob = k)"

lemma write_through_key: "write_through s \<Longrightarrow> oms_orders s k = Some ob \<Longrightarrow> ord_id ob = k"
  by (simp add: write_through_def)

lemma write_through_cong:
  assumes "write_through s" and "oms_orders s' = oms_orders s" and "oms_saves s' = oms_saves s"
    and "oms_store s' = oms_store s"
  shows "write_through s'"
  using assms by (simp add: write_through_def persisted_def)

lemma write_through_send [inv_intros]:
  assumes "write_through s" and "env_sent env ob"
  shows "write_through (send_order_update env ob (put_order ob s))"
  using assms by (auto simp: write_through_def persisted_def send_order_update_def put_order_def Let_def)

lemma write_through_error [inv_intros]:
  assumes "write_through s" and "\<forall>ob. env_sent env ob"
  shows "write_through (handle_submit_error env ob s)"
  unfolding handle_submit_error_def Let_def
  by (rule write_through_cong [OF write_through_send]) (use assms in auto)

lemma write_through_success [inv_intros]:
  assumes "write_through s" and "\<forall>ob. env_sent env ob"
  shows "write_through (handle_submit_success env ob x s)"
  using assms write_through_send unfolding handle_submit_success_def Let_def by blast

lemma write_through_retry:
  assumes "write_through s" and "\<forall>ob. env_sent env ob"
  shows "write_through (snd (submit_with_retry D env scr ob s))"
proof -
  have err: "write_through (handle_submit_error env ob (s\<lparr>oms_retries := n\<rparr>))" for n
    by (rule write_through_error [OF write_through_cong [OF assms(1)] assms(2)]) simp_all
  have ok: "write_through (handle_submit_success env ob x (s\<lparr>oms_retries := n\<rparr>))" for n x
    by (rule write_through_success [OF write_through_cong [OF assms(1)] assms(2)]) simp_all
  have "write_through (handle_submit_error env ob s)" by (rule write_through_error [OF assms])
  with err ok show ?thesis
    unfolding submit_with_retry_def Let_def case_prod_beta
    by (simp split: option.split loop_result.split)
qed

lemma write_through_submit [inv_intros]:
  assumes "write_through s" and "\<forall>ob. env_sent env ob"
  shows "write_through (snd (exec_submit D env scr oo s))"
proof (cases oo)
  case None
  then show ?thesis using assms by (simp add: exec_submit_def)
next
  case (Some ob)
  show ?thesis
  proof (cases "oms_orders s (ord_id ob)")
    case None
    show ?thesis
      unfolding exec_submit_def Some option.case None Let_def
      by (rule write_through_retry [OF write_through_cong [OF write_through_send [OF assms(1)]] assms(2)])
         (use assms(2) in auto)
  next
    case (Some ex)
    then show ?thesis using assms \<open>oo = _\<close> by (simp add: exec_submit_def)
  qed
qed

lemma write_through_cancel [inv_intros]:
  assumes "write_through s" and "\<forall>ob. env_sent env ob"
  shows "write_through (snd (exec_cancel env answer oid s))"
proof (cases "oms_orders s oid")
  case (Some ob)
  let ?ob = "ob\<lparr>ord_status := Cancelled, ord_updated := env_t0 env\<rparr>"
  have "write_through (send_order_update env ?ob (put_order ?ob s))"
    using assms by (intro write_through_send) auto
  moreover have "put_order ?ob s = s\<lparr>oms_orders := (oms_orders s)(oid \<mapsto> ?ob)\<rparr>"
    using write_through_key [OF assms(1) Some] by (simp add: put_order_def)
  ultimately have w: "write_through (send_order_update env ?ob (s\<lparr>oms_orders := (oms_orders s)(oid \<mapsto> ?ob)\<rparr>))"
    by (simp only:)
  have "write_through ((send_order_update env ?ob (s\<lparr>oms_orders := (oms_orders s)(oid \<mapsto> ?ob)\<rparr>))
      \<lparr>oms_cancelled := n\<rparr>)" for n
    by (rule write_through_cong [OF w]) simp_all
  with assms(1) show ?thesis
    unfolding exec_cancel_def Let_def Some option.case by (simp split: option.split)
qed (use assms in \<open>simp add: exec_cancel_def\<close>)

lemma write_through_event [inv_intros]:
  assumes "write_through s" and "\<forall>ob. env_sent env ob"
  shows "write_through (apply_order_event env ks evo s)"
proof -
  have *: "write_through ((send_order_update env ob (put_order ob s))\<lparr>oms_filled := n\<rparr>)" for ob n
    by (rule write_through_cong [OF write_through_send [OF assms(1)]]) (use assms(2) in auto)
  have "write_through (send_order_update env ob (put_order ob s))" for ob
    using assms by (intro write_through_send) auto
  with * assms(1) show ?thesis
    unfolding apply_order_event_def Let_def by (simp split: option.split)
qed

lemma flush_all_orders: "oms_orders (snd (flush_all save obs s)) = oms_orders s \<and>
    oms_store (snd (flush_all save obs s)) = oms_store s"
  by (induction save obs s rule: flush_all.induct) (auto simp: Let_def split: option.splits)

lemma write_through_flush_all:
  "write_through s \<Longrightarrow> \<forall>ob \<in> set obs. oms_orders s (ord_id ob) = Some ob \<Longrightarrow>
   write_through (snd (flush_all save obs s))"
proof (induction save obs s rule: flush_all.induct)
  case (2 save ob obs s)
  have w: "write_through (s\<lparr>oms_saves := oms_saves s @ [ob]\<rparr>)"
    using 2(2,3) by (simp add: write_through_def persisted_def fun_upd_idem)
  show ?case
  proof (cases "save ob")
    case None
    with 2(1) [OF refl None w] 2(3) show ?thesis by simp
  qed (simp add: w)
qed simp

lemma write_through_flush [inv_intros]: "write_through s \<Longrightarrow> write_through (snd (exec_flush ks save s))"
  unfolding exec_flush_def
  by (auto intro!: write_through_flush_all simp: set_map_values dest: write_through_key)

fun reliable :: "oms_input \<Rightarrow> bool" where
  "reliable (Submit env _ _) = (\<forall>ob. env_sent env ob)"
| "reliable (Cancel env _ _) = (\<forall>ob. env_sent env ob)"
| "reliable (Sync env _ _ _) = (\<forall>ob. env_sent env ob)"
| "reliable (Flush _ _) = True"
| "reliable (Event env _ _) = (\<forall>ob. env_sent env ob)"

lemma write_through_step: "write_through s \<Longrightarrow> reliable i \<Longrightarrow> write_through (oms_step D i s)"
proof (cases i)
  case (Sync env ks answer oid)
  assume "write_through s" "reliable i"
  with Sync show ?thesis
    by (auto simp: exec_sync_def write_through_event split: option.splits sum.splits)
qed (auto intro: inv_intros)

lemma write_through_run: "write_through s \<Longrightarrow> \<forall>i \<in> set ins. reliable i \<Longrightarrow> write_through (oms_run D ins s)"
  unfolding oms_run_def by (induction ins arbitrary: s) (simp_all add: write_through_step)


definition env_ex :: oms_env where
  "env_ex = \<lparr>env_t0 = 1, env_t1 = 2, env_t2 = 3, env_sent = (\<lambda>_. True)\<rparr>"

definition scr_ex :: "nat \<Rightarrow> attempt" where
  "scr_ex i = \<lparr>at_ctx = None, at_wait = None, at_place = (if i < 2 then Inl (Errorf ''busy'') else Inr ''x7'')\<rparr>"

definition oms_order_ex :: order where
  "oms_order_ex =
     \<lparr>ord_id = ''o1'', ord_exchange_id = [], ord_market = Perp, ord_symbol = ''BTC/USDT'',
      ord_side = Buy, ord_type = MarketOrder, ord_price = None, ord_size = ''3'', ord_filled = ''0'',
      ord_status = Pending, ord_created = 0, ord_updated = 0, ord_stop_price = None, ord_strategy = ''s''\<rparr>"

definition oms_ex :: oms where
  "oms_ex = new_oms (\<lambda>m. m = Perp) True None 3"


subsection \<open>Submission\<close>

text \<open>The loop stops at the first attempt that the exchange accepts; it gives up only on a
  cancelled context or after the last attempt.\<close>

lemma submit_loop_spec:
  assumes "submit_loop scr i n err = (r, retries, calls)"
  shows "calls \<le> n \<and>
    (\<forall>x. r = Placed x \<longrightarrow> (\<exists>j. i \<le> j \<and> j < i + n \<and> at_place (scr j) = Inr x \<and>
       (\<forall>l. i \<le> l \<and> l < j \<longrightarrow> \<not> is_ok (at_place (scr l))) \<and>
       calls = Suc (j - i) \<and> retries = (if i = 0 then j else Suc (j - i)))) \<and>
    (\<forall>e. r = Exhausted e \<longrightarrow> calls = n \<and> (\<forall>l. i \<le> l \<and> l < i + n \<longrightarrow> \<not> is_ok (at_place (scr l))))"
  using assms
proof (induction scr i n err arbitrary: r retries calls rule: submit_loop.induct)
  case (2 scr i n err)
  show ?case
  proof (cases "at_ctx (scr i) = None \<and> \<not> (0 < i \<and> at_wait (scr i) \<noteq> None)")
    case False
    then show ?thesis using 2(2) by (auto split: option.splits if_splits)
  next
    case go: True
    show ?thesis
    proof (cases "at_place (scr i)")
      case (Inr x)
      then show ?thesis using 2(2) go by (auto split: if_splits intro!: exI [of _ i])
    next
      case (Inl e)
      obtain r1 re1 c1 where rec: "submit_loop scr (Suc i) n (Some e) = (r1, re1, c1)" by (metis prod_cases3)
      have eq: "r = r1" "retries = re1 + (if 0 < i then 1 else 0)" "calls = c1 + 1"
        using 2(2) go Inl rec by (auto split: if_splits)
      have ih: "c1 \<le> n \<and>
        (\<forall>x. r1 = Placed x \<longrightarrow> (\<exists>j. Suc i \<le> j \<and> j < Suc i + n \<and> at_place (scr j) = Inr x \<and>
           (\<forall>l. Suc i \<le> l \<and> l < j \<longrightarrow> \<not> is_ok (at_place (scr l))) \<and>
           c1 = Suc (j - Suc i) \<and> re1 = (if Suc i = 0 then j else Suc (j - Suc i)))) \<and>
        (\<forall>e. r1 = Exhausted e \<longrightarrow> c1 = n \<and> (\<forall>l. Suc i \<le> l \<and> l < Suc i + n \<longrightarrow> \<not> is_ok (at_place (scr l))))"
        by (rule 2(1) [OF _ _ Inl rec]) (use go in auto)
      have bad: "\<not> is_ok (at_place (scr i))" by (simp add: Inl)
      have ge: "\<not> is_ok (at_place (scr l))" if "\<forall>l. Suc i \<le> l \<and> l < j \<longrightarrow> \<not> is_ok (at_place (scr l))" "i \<le> l" "l < j" for l j
        using that bad by (cases "l = i") auto
      show ?thesis
      proof (intro conjI allI impI)
        show "calls \<le> Suc n" using ih eq by simp
      next
        fix x assume "r = Placed x"
        with ih eq obtain j where j: "Suc i \<le> j" "j < Suc i + n" "at_place (scr j) = Inr x"
          "\<forall>l. Suc i \<le> l \<and> l < j \<longrightarrow> \<not> is_ok (at_place (scr l))"
          "c1 = Suc (j - Suc i)" "re1 = Suc (j - Suc i)" by auto
        then show "\<exists>j. i \<le> j \<and> j < i + Suc n \<and> at_place (scr j) = Inr x \<and>
           (\<forall>l. i \<le> l \<and> l < j \<longrightarrow> \<not> is_ok (at_place (scr l))) \<and>
           calls = Suc (j - i) \<and> retries = (if i = 0 then j else Suc (j - i))"
          using eq ge [OF j(4)] by (intro exI [of _ j]) auto
      next
        fix e' assume "r = Exhausted e'"
        then have "r1 = Exhausted e'" using eq(1) by simp
        with ih eq(3) show "calls = Suc n" by simp
      next
        fix e' l assume "r = Exhausted e'" "i \<le> l \<and> l < i + Suc n"
        moreover from this have "r1 = Exhausted e'" using eq(1) by simp
        ultimately show "\<not> is_ok (at_place (scr l))" using ih ge [of "Suc i + n" l] by simp
      qed
    qed
  qed
qed auto

lemma submit_with_retry_outcome:
  assumes "submit_with_retry D env scr ob s = (reply, s')"
  shows "\<exists>ob'. oms_orders s' = (oms_orders s)(ord_id ob \<mapsto> ob') \<and>
      (case reply of
         Some e \<Rightarrow> ob' = ob\<lparr>ord_status := Rejected, ord_updated := env_t2 env\<rparr> \<and> oms_rejected s' = oms_rejected s + 1
       | None \<Rightarrow> \<exists>j x. validate_order_for_place D s ob = None \<and> int j \<le> oms_max_retries s \<and> at_place (scr j) = Inr x \<and>
           (\<forall>l < j. \<not> is_ok (at_place (scr l))) \<and>
           ob' = ob\<lparr>ord_exchange_id := x, ord_status := Submitted, ord_updated := env_t2 env\<rparr> \<and>
           oms_rejected s' = oms_rejected s \<and> oms_retries s' = oms_retries s + int j)"
proof (cases "reply")
  case (Some e)
  then show ?thesis using assms
    by (auto simp: submit_with_retry_def Let_def case_prod_beta split: option.splits loop_result.splits if_splits)
next
  case None
  obtain r retries calls where l: "submit_loop scr 0 (attempts s) None = (r, retries, calls)" by (metis prod_cases3)
  from assms None l obtain x where x: "validate_order_for_place D s ob = None" "r = Placed x"
    and s': "s' = handle_submit_success env ob x (s\<lparr>oms_retries := oms_retries s + int retries\<rparr>)"
    by (auto simp: submit_with_retry_def Let_def split: option.splits loop_result.splits if_splits)
  with submit_loop_spec [OF l] obtain j where "j < attempts s" "at_place (scr j) = Inr x"
    "\<forall>l < j. \<not> is_ok (at_place (scr l))" "retries = j" by auto
  then have "int j \<le> oms_max_retries s \<and> at_place (scr j) = Inr x \<and> (\<forall>l < j. \<not> is_ok (at_place (scr l))) \<and>
      oms_retries s' = oms_retries s + int j"
    unfolding attempts_def s' by auto
  with x s' None show ?thesis by auto
qed



subsection \<open>Validation\<close>

lemma validate_order_size_None:
  assumes "validate_order_size D m sz = None"
  obtains x where "dec_parse D (trim_space sz) = Some x" "0 < x" "m_decimal_size m \<or> (\<exists>k. x = of_int k)"
    "\<And>mn. optional_positive D (m_size_min m) = Some mn \<Longrightarrow> mn \<le> x"
    "\<And>mx. optional_positive D (m_size_max m) = Some mx \<Longrightarrow> x \<le> mx"
    "\<And>st. optional_positive D (m_size_step m) = Some st \<Longrightarrow> \<exists>k. x = of_int k * st"
proof -
  have pos: "optional_positive D t = Some d \<Longrightarrow> 0 < d" for t d
    by (auto simp: optional_positive_def Let_def split: option.splits if_splits)
  show ?thesis
    using assms that
    by (auto simp: validate_order_size_def not_less dec_trunc_fixed_iff [symmetric] dec_mod_zero_iff [symmetric] pos
        split: option.splits if_splits)
qed

text \<open>C18. Only orders the contract allows reach the exchange: when the check before placing
  passes with a metadata lookup, the order's size is a positive number within the contract's
  minimum and maximum, a whole number of contracts unless the contract allows decimals, and an
  integer multiple of the size step; the price of a limit order, when given, is a positive
  multiple of the price step.\<close>

theorem place_validation_sound:
  assumes "validate_order_for_place D s ob = None" and "oms_meta s = Some lk"
  shows "\<exists>m x. lk (ord_symbol ob) = Inr m \<and> dec_parse D (trim_space (ord_size ob)) = Some x \<and> 0 < x \<and>
    (m_decimal_size m \<or> (\<exists>k. x = of_int k)) \<and>
    (\<forall>mn. optional_positive D (m_size_min m) = Some mn \<longrightarrow> mn \<le> x) \<and>
    (\<forall>mx. optional_positive D (m_size_max m) = Some mx \<longrightarrow> x \<le> mx) \<and>
    (\<forall>st. optional_positive D (m_size_step m) = Some st \<longrightarrow> (\<exists>k. x = of_int k * st)) \<and>
    (\<forall>p. ord_type ob = LimitOrder \<and> ord_price ob = Some p \<and> trim_space p \<noteq> [] \<longrightarrow>
       (\<exists>y. dec_parse D (trim_space p) = Some y \<and> 0 < y \<and>
         (\<forall>st. optional_positive D (m_price_step m) = Some st \<longrightarrow> (\<exists>k. y = of_int k * st))))"
proof -
  obtain m where m: "lk (ord_symbol ob) = Inr m" "validate_order_size D m (ord_size ob) = None"
    and p: "\<And>p. ord_type ob = LimitOrder \<and> ord_price ob = Some p \<and> trim_space p \<noteq> [] \<Longrightarrow> validate_limit_price D m p = None"
    using assms by (auto simp: validate_order_for_place_def split: sum.splits option.splits if_splits)
  have pos: "optional_positive D t = Some d \<Longrightarrow> 0 < d" for t d
    by (auto simp: optional_positive_def Let_def split: option.splits if_splits)
  have price: "\<exists>y. dec_parse D (trim_space p) = Some y \<and> 0 < y \<and>
      (\<forall>st. optional_positive D (m_price_step m) = Some st \<longrightarrow> (\<exists>k. y = of_int k * st))"
    if "ord_type ob = LimitOrder \<and> ord_price ob = Some p \<and> trim_space p \<noteq> []" for p
    using p [OF that]
    by (auto simp: validate_limit_price_def dec_mod_zero_iff [symmetric] pos split: option.splits if_splits)
  show ?thesis
    by (rule validate_order_size_None [OF m(2)]) (use m(1) price in blast)
qed

definition oms_meta_ex :: contract_meta where
  "oms_meta_ex =
     \<lparr>m_contract = ''BTC/USDT'', m_quanto = ''0.01'', m_size_min = ''1'', m_size_max = ''100'',
      m_price_step = ''0.1'', m_size_step = ''1'', m_decimal_size = False\<rparr>"

theorem place_validation_sound_witness:
  "\<exists>x. dec_parse ref_lib (trim_space ''3'') = Some x \<and> 0 < x \<and> x \<le> 100"
proof -
  let ?s = "new_oms (\<lambda>m. m = Perp) True (Some (contract_meta_of [''BTC/USDT'' \<mapsto> oms_meta_ex])) 3"
  have v: "validate_order_for_place ref_lib ?s oms_order_ex = None" by code_simp
  have l: "oms_meta ?s = Some (contract_meta_of [''BTC/USDT'' \<mapsto> oms_meta_ex])" by (simp add: new_oms_def)
  have e: "contract_meta_of [''BTC/USDT'' \<mapsto> oms_meta_ex] (ord_symbol oms_order_ex) = Inr oms_meta_ex"
    by (simp add: contract_meta_of_def oms_order_ex_def)
  have mx: "optional_positive ref_lib (m_size_max oms_meta_ex) = Some 100" by code_simp
  show ?thesis using place_validation_sound [OF v l] mx unfolding e by (auto simp: oms_order_ex_def)
qed

subsection \<open>Cancellation and events\<close>

text \<open>Final orders are final for the commands: no submission, cancellation or flush changes
  an order that is filled, cancelled or rejected, and cancelling one is an error that changes
  nothing. (An order event or a sync can: see below.)\<close>

theorem commands_keep_final_orders:
  assumes "oms_orders s oid = Some ob" and "is_terminal (ord_status ob)"
  shows "oms_orders (snd (exec_submit D env scr oo s)) oid = Some ob \<and>
    oms_orders (snd (exec_cancel env answer oid' s)) oid = Some ob \<and>
    oms_orders (snd (exec_flush ks save s)) oid = Some ob \<and>
    exec_cancel env answer oid s =
      (Some (Errorf (''cannot cancel order in status: '' @ status_str (ord_status ob))), s)"
proof (intro conjI)
  show "oms_orders (snd (exec_submit D env scr oo s)) oid = Some ob"
  proof (cases oo)
    case (Some nb)
    obtain reply s' where e: "exec_submit D env scr (Some nb) s = (reply, s')" by (metis prod.exhaust)
    show ?thesis
    proof (cases "oms_orders s (ord_id nb)")
      case None
      then have "ord_id nb \<noteq> oid" using assms(1) by auto
      then show ?thesis using assms(1) None
        by (auto simp: Some exec_submit_def submit_with_retry_def Let_def case_prod_beta
            split: option.splits loop_result.splits)
    qed (use assms(1) Some in \<open>simp add: exec_submit_def\<close>)
  qed (use assms(1) in \<open>simp add: exec_submit_def\<close>)
  show "oms_orders (snd (exec_cancel env answer oid' s)) oid = Some ob"
    using assms by (auto simp: exec_cancel_def Let_def split: option.splits)
  show "oms_orders (snd (exec_flush ks save s)) oid = Some ob"
    using assms(1) by (simp add: exec_flush_def flush_all_orders)
  show "exec_cancel env answer oid s =
      (Some (Errorf (''cannot cancel order in status: '' @ status_str (ord_status ob))), s)"
    using assms by (simp add: exec_cancel_def)
qed

definition filled_oms_ex :: oms where
  "filled_oms_ex = put_order (oms_order_ex\<lparr>ord_status := Filled, ord_exchange_id := ''x7''\<rparr>) oms_ex"

theorem commands_keep_final_orders_witness:
  "fst (exec_cancel env_ex (\<lambda>_. None) ''o1'' filled_oms_ex) =
     Some (Errorf ''cannot cancel order in status: Filled'')"
proof -
  have "oms_orders filled_oms_ex ''o1'' = Some (oms_order_ex\<lparr>ord_status := Filled, ord_exchange_id := ''x7''\<rparr>)"
    by (simp add: filled_oms_ex_def oms_order_ex_def)
  from commands_keep_final_orders [OF this] show ?thesis by simp
qed

definition submitted_oms_ex :: oms where
  "submitted_oms_ex = put_order (oms_order_ex\<lparr>ord_status := Submitted, ord_exchange_id := ''x7''\<rparr>) oms_ex"

text \<open>Order events are applied without regard to the order's current status: an event that
  arrives late reopens a filled order, which the count of open orders then includes again, and a
  repeated fill is counted twice in the statistics.\<close>

theorem late_event_reopens_order:
  "let ev = (\<lambda>st. \<lparr>oe_market = Perp, oe_exchange_id = ''x7'', oe_client_id = ''o1'', oe_status = st,
                 oe_filled = ''3'', oe_updated = 9\<rparr>)
   in non_final_order_count_locked [''o1''] [] filled_oms_ex = 0 \<and>
      non_final_order_count_locked [''o1''] [] (apply_order_event env_ex [''o1''] (Some (ev Submitted)) filled_oms_ex) = 1 \<and>
      oms_filled (apply_order_event env_ex [''o1''] (Some (ev Filled))
        (apply_order_event env_ex [''o1''] (Some (ev Filled)) submitted_oms_ex)) = 2"
  by code_simp

text \<open>The open-order count that the risk rules read is the number of orders in memory that
  are pending, submitted or partially filled (of the given strategy, or of all for the empty
  name), whatever order Go ranges in; a successful cancellation of a counted order lowers it by
  one.\<close>

theorem non_final_count:
  assumes "iterates ks (oms_orders s)"
  shows "non_final_order_count_locked ks strategy s =
      card {k. \<exists>ob. oms_orders s k = Some ob \<and> non_final_in strategy ob} \<and>
    (oms_orders s oid = Some ob \<and> non_final_in strategy ob \<and> has_executor s ob \<and> answer ob = None \<longrightarrow>
     non_final_order_count_locked ks strategy (snd (exec_cancel env answer oid s)) + 1 =
     non_final_order_count_locked ks strategy s)"
proof
  have "length (filter P (map_values ks m)) = length (filter (\<lambda>k. \<exists>ob. m k = Some ob \<and> P ob) ks)"
    for m :: "string \<rightharpoonup> order" and P
    by (induction ks) (auto split: option.splits)
  moreover have "distinct ks" "set ks = dom (oms_orders s)" using assms by (simp_all add: iterates_def)
  ultimately show "non_final_order_count_locked ks strategy s =
      card {k. \<exists>ob. oms_orders s k = Some ob \<and> non_final_in strategy ob}"
    unfolding non_final_order_count_locked_def
    by (simp add: distinct_card [symmetric] domI Collect_conj_eq [symmetric])
       (metis (no_types, lifting) Collect_cong domI)
next
  show "oms_orders s oid = Some ob \<and> non_final_in strategy ob \<and> has_executor s ob \<and> answer ob = None \<longrightarrow>
     non_final_order_count_locked ks strategy (snd (exec_cancel env answer oid s)) + 1 =
     non_final_order_count_locked ks strategy s"
  proof
    assume a: "oms_orders s oid = Some ob \<and> non_final_in strategy ob \<and> has_executor s ob \<and> answer ob = None"
    then have "\<not> is_terminal (ord_status ob)" by (auto simp: non_final_in_def open_not_terminal)
    with a have e: "oms_orders (snd (exec_cancel env answer oid s)) =
        (oms_orders s)(oid \<mapsto> ob\<lparr>ord_status := Cancelled, ord_updated := env_t0 env\<rparr>)"
      by (simp add: exec_cancel_def Let_def)
    have k: "distinct ks" "oid \<in> set ks" using assms a by (auto simp: iterates_def)
    have "\<not> non_final_in strategy (ob\<lparr>ord_status := Cancelled, ord_updated := env_t0 env\<rparr>)"
      by (simp add: non_final_in_def)
    with length_filter_map_values_upd [where m = "oms_orders s" and ks = ks and k = oid and v = ob,
        OF k conjunct1 [OF a], of "non_final_in strategy"] a
    show "non_final_order_count_locked ks strategy (snd (exec_cancel env answer oid s)) + 1 =
        non_final_order_count_locked ks strategy s"
      unfolding non_final_order_count_locked_def e by fastforce
  qed
qed

theorem non_final_count_witness:
  "non_final_order_count_locked [''o1''] [] (put_order oms_order_ex oms_ex) = card {''o1''}"
proof -
  have i: "iterates [''o1''] (oms_orders (put_order oms_order_ex oms_ex))"
    by (simp add: iterates_def oms_order_ex_def oms_ex_def new_oms_def)
  have c: "{k. \<exists>ob. oms_orders (put_order oms_order_ex oms_ex) k = Some ob \<and> non_final_in [] ob} = {''o1''}"
    by (auto simp: oms_order_ex_def oms_ex_def new_oms_def non_final_in_def split: if_splits)
  show ?thesis
    by (rule conjunct1 [OF non_final_count [OF i, where strategy = "[]"], unfolded c])
qed

end
