(* ===== verification/StrategyConfig.thy ===== *)
theory StrategyConfig
  imports GoFloat Models RiskDomain
begin

text \<open>
  The strategies of the catalogue: \<open>internal/app/strategy/loader.go\<close> (discovery and validation of
  \<open>config.yaml\<close>), \<open>risk_config.go\<close> (the optional \<open>risk\<close> section), \<open>interval.go\<close> (candle
  intervals). A directory entry carries what the file system and the YAML parser answer for it;
  \<open>NewFromFloat\<close> of the decimal library is the parameter \<open>nff\<close> on finite floats, and panics on the
  others, as its documentation says. An operation that may panic returns \<open>None\<close> when it does.
\<close>

subsection \<open>Intervals\<close>

definition allowed_intervals :: "string list" where
  "allowed_intervals =
     [''10s'', ''1m'', ''5m'', ''15m'', ''30m'', ''1h'', ''4h'', ''8h'', ''1d'', ''7d'']"

definition validate_interval :: "string \<Rightarrow> go_error option" where
  "validate_interval iv0 =
     (let iv = trim_space iv0
      in if iv = [] then Some (Errorf ''interval is required'')
         else if iv \<notin> set allowed_intervals
         then Some (Errorf (''invalid interval '' @ quoted iv @ '': allowed [''
                            @ join_with '' '' allowed_intervals @ '']''))
         else None)"

definition resolve_interval :: "string \<Rightarrow> string \<Rightarrow> string result" where
  "resolve_interval cfg_iv default_iv =
     (let iv0 = trim_space cfg_iv;
          iv = (if iv0 = [] then trim_space default_iv else iv0)
      in case validate_interval iv of Some e \<Rightarrow> Inl e | None \<Rightarrow> Inr iv)"

lemma validate_interval_None: "validate_interval iv = None \<longleftrightarrow> trim_space iv \<in> set allowed_intervals"
  by (auto simp: validate_interval_def Let_def allowed_intervals_def)

lemma resolve_interval_allowed: "resolve_interval a b = Inr iv \<Longrightarrow> iv \<in> set allowed_intervals"
  by (auto simp: resolve_interval_def Let_def validate_interval_None split: option.splits if_splits)

subsection \<open>The risk section\<close>

record risk_raw =
  rr_max_order_size :: "go_float option"
  rr_max_open_orders :: "int option"
  rr_max_positions :: "int option"
  rr_max_position_size :: "go_float option"
  rr_max_daily_loss :: "go_float option"
  rr_max_drawdown :: "go_float option"
  rr_max_leverage :: "int option"
  rr_position_lock :: "bool option"

definition float_neg :: "go_float option \<Rightarrow> bool" where
  "float_neg f = (case f of None \<Rightarrow> False | Some x \<Rightarrow> float_less x (Fin 0))"

definition int_neg :: "int option \<Rightarrow> bool" where
  "int_neg i = (case i of None \<Rightarrow> False | Some x \<Rightarrow> x < 0)"

definition drawdown_bad :: "go_float option \<Rightarrow> bool" where
  "drawdown_bad f = (case f of None \<Rightarrow> False
     | Some x \<Rightarrow> float_le x (Fin 0) \<or> float_less (Fin 1) x)"

definition validate_risk_config :: "risk_raw option \<Rightarrow> go_error option" where
  "validate_risk_config ro =
     (case ro of None \<Rightarrow> None
      | Some r \<Rightarrow>
         if float_neg (rr_max_order_size r)
           then Some (Errorf ''risk.max_order_size must be non-negative'')
         else if int_neg (rr_max_open_orders r)
           then Some (Errorf ''risk.max_open_orders must be non-negative'')
         else if int_neg (rr_max_positions r)
           then Some (Errorf ''risk.max_positions must be non-negative'')
         else if float_neg (rr_max_position_size r)
           then Some (Errorf ''risk.max_position_size must be non-negative'')
         else if float_neg (rr_max_daily_loss r)
           then Some (Errorf ''risk.max_daily_loss must be non-negative'')
         else if drawdown_bad (rr_max_drawdown r)
           then Some (Errorf ''risk.max_drawdown must be in (0, 1]'')
         else if int_neg (rr_max_leverage r)
           then Some (Errorf ''risk.max_leverage must be non-negative'')
         else None)"

text \<open>\<open>NewFromFloat\<close> of an optional field: the outer option is the panic.\<close>

fun dec_of_float :: "(rat \<Rightarrow> decimal) \<Rightarrow> go_float option \<Rightarrow> decimal option option" where
  "dec_of_float nff None = Some None"
| "dec_of_float nff (Some (Fin q)) = Some (Some (nff q))"
| "dec_of_float nff (Some _) = None"

definition risk_overrides_from_raw ::
  "(rat \<Rightarrow> decimal) \<Rightarrow> risk_raw option \<Rightarrow> overrides option option" where
  "risk_overrides_from_raw nff ro =
     (case ro of None \<Rightarrow> Some None
      | Some r \<Rightarrow>
        (case dec_of_float nff (rr_max_order_size r) of None \<Rightarrow> None | Some mos \<Rightarrow>
        (case dec_of_float nff (rr_max_position_size r) of None \<Rightarrow> None | Some mps \<Rightarrow>
        (case dec_of_float nff (rr_max_daily_loss r) of None \<Rightarrow> None | Some mdl \<Rightarrow>
        (case dec_of_float nff (rr_max_drawdown r) of None \<Rightarrow> None | Some mdd \<Rightarrow>
           let ov = \<lparr>ov_max_order_size = mos, ov_max_open_orders = rr_max_open_orders r,
                     ov_max_positions = rr_max_positions r, ov_max_position_size = mps,
                     ov_max_daily_loss = mdl, ov_max_drawdown = mdd,
                     ov_max_leverage = rr_max_leverage r, ov_position_lock = rr_position_lock r\<rparr>
           in Some (if \<not> has_effective_overrides ov then None else Some ov))))))"

subsection \<open>Strategy configurations\<close>

record strategy_config =
  st_name :: string
  st_enabled :: bool
  st_symbols :: "string list"
  st_interval :: string
  st_history_bars :: int
  st_subscribe_ticker :: bool
  st_market_name :: string
  st_risk :: "risk_raw option"

text \<open>\<open>Strategy\<close> embeds its configuration; the path of its script is left to the process
  spawner.\<close>

record strategy_cfg = strategy_config +
  st_market :: market
  st_overrides :: "overrides option"

definition validate_config :: "strategy_config \<Rightarrow> go_error option" where
  "validate_config c =
     (if st_name c = [] then Some (Errorf ''strategy name is required'')
      else if length (st_symbols c) = 0 then Some (Errorf ''at least one symbol is required'')
      else if [] \<in> set (st_symbols c) then Some (Errorf ''empty symbol in symbols list'')
      else case (if trim_space (st_interval c) \<noteq> []
                 then validate_interval (trim_space (st_interval c)) else None) of
        Some e \<Rightarrow> Some e
      | None \<Rightarrow>
        if st_history_bars c < 0 then Some (Errorf ''history_bars must be non-negative'')
        else if 2000 < st_history_bars c then Some (Errorf ''history_bars must not exceed 2000'')
        else case validate_risk_config (st_risk c) of
          Some e \<Rightarrow> Some e
        | None \<Rightarrow>
          if trim_space (st_market_name c) \<noteq> [] then
            (case parse_market (st_market_name c) of
               Inl e \<Rightarrow> Some e
             | Inr mk \<Rightarrow> if mk = Spot
                 then Some (Errorf (''market '' @ quoted (market_str mk) @ '' not supported in this build''))
                 else None)
          else None)"

definition valid_interval_field :: "string \<Rightarrow> bool" where
  "valid_interval_field iv \<longleftrightarrow> trim_space iv = [] \<or> trim_space iv \<in> set allowed_intervals"

text \<open>What an accepted configuration satisfies, field by field.\<close>

lemma validate_config_iff:
  "validate_config c = None \<longleftrightarrow>
     st_name c \<noteq> [] \<and> st_symbols c \<noteq> [] \<and> [] \<notin> set (st_symbols c) \<and>
     valid_interval_field (st_interval c) \<and> 0 \<le> st_history_bars c \<and> st_history_bars c \<le> 2000 \<and>
     validate_risk_config (st_risk c) = None \<and> parse_market (st_market_name c) = Inr Perp"
proof -
  have m: "(trim_space s \<noteq> [] \<longrightarrow> (\<exists>mk. parse_market s = Inr mk \<and> mk \<noteq> Spot)) \<longleftrightarrow>
      parse_market s = Inr Perp" for s
    by (auto simp: parse_market_def to_lower_def Let_def split: if_splits)
  have i: "(if trim_space iv \<noteq> [] then validate_interval (trim_space iv) else None) = None \<longleftrightarrow>
      valid_interval_field iv" for iv
    by (auto simp: valid_interval_field_def validate_interval_None)
  show ?thesis
    unfolding m [symmetric] i [symmetric]
    by (auto simp: validate_config_def split: option.splits sum.splits if_splits)
qed

subsection \<open>Discovery\<close>

record dir_entry =
  de_name :: string
  de_is_dir :: bool
  de_has_script :: bool
  de_has_config :: bool
  de_parsed :: "strategy_config result"

definition load_strategy_config :: "dir_entry \<Rightarrow> strategy_config result" where
  "load_strategy_config e =
     (case de_parsed e of Inl err \<Rightarrow> Inl err
      | Inr c \<Rightarrow> (case validate_config c of
          Some err \<Rightarrow> Inl (Wrapf ''invalid config: '' err) | None \<Rightarrow> Inr c))"

type_synonym catalog = "string \<rightharpoonup> strategy_cfg"

definition strategy_of :: "strategy_config \<Rightarrow> market \<Rightarrow> overrides option \<Rightarrow> strategy_cfg" where
  "strategy_of c mk ov = strategy_config.extend c \<lparr>st_market = mk, st_overrides = ov\<rparr>"

fun discover_loop :: "(rat \<Rightarrow> decimal) \<Rightarrow> dir_entry list \<Rightarrow> catalog \<Rightarrow> catalog result option" where
  "discover_loop nff [] cat = Some (Inr cat)"
| "discover_loop nff (e # es) cat =
     (if \<not> de_is_dir e \<or> \<not> de_has_script e \<or> \<not> de_has_config e then discover_loop nff es cat
      else case load_strategy_config e of
        Inl err \<Rightarrow> Some (Inl (Wrapf (''failed to load strategy '' @ de_name e @ '': '') err))
      | Inr c \<Rightarrow> (case parse_market (st_market_name c) of
          Inl err \<Rightarrow> Some (Inl (Wrapf (''failed to load strategy '' @ de_name e @ '': '') err))
        | Inr mk \<Rightarrow>
            if mk = Spot then Some (Inl (Errorf (''failed to load strategy '' @ de_name e
                   @ '': market '' @ quoted (market_str mk) @ '' not supported in this build'')))
            else (case risk_overrides_from_raw nff (st_risk c) of
                None \<Rightarrow> None
              | Some ov \<Rightarrow> discover_loop nff es (cat(st_name c \<mapsto> strategy_of c mk ov)))))"

text \<open>\<open>None\<close> for the directory: it does not exist.\<close>

definition discover_strategies ::
  "(rat \<Rightarrow> decimal) \<Rightarrow> string \<Rightarrow> dir_entry list result option \<Rightarrow> catalog result option" where
  "discover_strategies nff dir entries =
     (case entries of
        None \<Rightarrow> Some (Inl (Errorf (''strategies directory not found: '' @ dir)))
      | Some (Inl err) \<Rightarrow> Some (Inl (Wrapf ''failed to read strategies directory: '' err))
      | Some (Inr es) \<Rightarrow> discover_loop nff es Map.empty)"

subsection \<open>What discovery accepts\<close>

lemma strategy_of_sel [simp]:
  "st_name (strategy_of c mk ov) = st_name c" "st_symbols (strategy_of c mk ov) = st_symbols c"
  "st_interval (strategy_of c mk ov) = st_interval c"
  "st_history_bars (strategy_of c mk ov) = st_history_bars c"
  "st_risk (strategy_of c mk ov) = st_risk c" "st_market (strategy_of c mk ov) = mk"
  "st_enabled (strategy_of c mk ov) = st_enabled c"
  "st_overrides (strategy_of c mk ov) = ov"
  by (simp_all add: strategy_of_def strategy_config.defs)

definition overrides_in_range :: "overrides \<Rightarrow> bool" where
  "overrides_in_range ov \<longleftrightarrow>
     (\<forall>d \<in> set_option (ov_max_order_size ov) \<union> set_option (ov_max_position_size ov)
          \<union> set_option (ov_max_daily_loss ov). 0 \<le> d) \<and>
     (\<forall>d \<in> set_option (ov_max_drawdown ov). 0 < d \<and> d \<le> 1) \<and>
     (\<forall>i \<in> set_option (ov_max_open_orders ov) \<union> set_option (ov_max_positions ov)
          \<union> set_option (ov_max_leverage ov). 0 \<le> i)"

text \<open>The documented behaviour of \<open>NewFromFloat\<close> discovery relies on: the decimal of a float
  keeps its sign and its order against one.\<close>

definition keeps_range :: "(rat \<Rightarrow> decimal) \<Rightarrow> bool" where
  "keeps_range nff \<longleftrightarrow> (\<forall>q. (0 \<le> q \<longrightarrow> 0 \<le> nff q) \<and> (0 < q \<longrightarrow> 0 < nff q) \<and> (q \<le> 1 \<longrightarrow> nff q \<le> 1))"

lemma dec_of_float_nonneg:
  assumes "keeps_range nff" "dec_of_float nff f = Some r" "\<not> float_neg f" "d \<in> set_option r"
  shows "0 \<le> d"
  using assms by (cases "(nff, f)" rule: dec_of_float.cases)
    (auto simp: keeps_range_def float_neg_def not_less)

lemma dec_of_float_drawdown:
  assumes "keeps_range nff" "dec_of_float nff f = Some r" "\<not> drawdown_bad f" "d \<in> set_option r"
  shows "0 < d \<and> d \<le> 1"
  using assms by (cases "(nff, f)" rule: dec_of_float.cases)
    (auto simp: keeps_range_def drawdown_bad_def float_le_def not_less neq_iff)

lemma validated_overrides_in_range:
  assumes n: "keeps_range nff" and v: "validate_risk_config r = None"
    and o: "risk_overrides_from_raw nff r = Some (Some ov)"
  shows "overrides_in_range ov"
proof -
  obtain rr where r: "r = Some rr" using o by (cases r) (auto simp: risk_overrides_from_raw_def)
  have ok: "\<not> float_neg (rr_max_order_size rr)" "\<not> int_neg (rr_max_open_orders rr)"
    "\<not> int_neg (rr_max_positions rr)" "\<not> float_neg (rr_max_position_size rr)"
    "\<not> float_neg (rr_max_daily_loss rr)" "\<not> drawdown_bad (rr_max_drawdown rr)"
    "\<not> int_neg (rr_max_leverage rr)"
    using v by (auto simp: r validate_risk_config_def split: if_splits)
  have i: "\<And>x i. \<not> int_neg x \<Longrightarrow> i \<in> set_option x \<Longrightarrow> 0 \<le> i"
    by (auto simp: int_neg_def)
  obtain a b c d where f: "dec_of_float nff (rr_max_order_size rr) = Some a"
      "dec_of_float nff (rr_max_position_size rr) = Some b"
      "dec_of_float nff (rr_max_daily_loss rr) = Some c"
      "dec_of_float nff (rr_max_drawdown rr) = Some d"
    and ov: "ov_max_order_size ov = a" "ov_max_position_size ov = b" "ov_max_daily_loss ov = c"
      "ov_max_drawdown ov = d" "ov_max_open_orders ov = rr_max_open_orders rr"
      "ov_max_positions ov = rr_max_positions rr" "ov_max_leverage ov = rr_max_leverage rr"
    using o by (auto simp: r risk_overrides_from_raw_def Let_def split: option.splits if_splits)
  show ?thesis
    using dec_of_float_nonneg [OF n f(1) ok(1)] dec_of_float_nonneg [OF n f(2) ok(4)]
      dec_of_float_nonneg [OF n f(3) ok(5)] dec_of_float_drawdown [OF n f(4) ok(6)]
      i [OF ok(2)] i [OF ok(3)] i [OF ok(7)]
    unfolding overrides_in_range_def ov by blast
qed

definition valid_strategy :: "strategy_cfg \<Rightarrow> bool" where
  "valid_strategy st \<longleftrightarrow>
     st_name st \<noteq> [] \<and> st_symbols st \<noteq> [] \<and> [] \<notin> set (st_symbols st) \<and>
     valid_interval_field (st_interval st) \<and> 0 \<le> st_history_bars st \<and> st_history_bars st \<le> 2000 \<and>
     st_market st = Perp \<and>
     (case st_overrides st of None \<Rightarrow> True
      | Some ov \<Rightarrow> has_effective_overrides ov \<and> overrides_in_range ov)"

definition valid_catalog :: "catalog \<Rightarrow> bool" where
  "valid_catalog cat \<longleftrightarrow> (\<forall>n st. cat n = Some st \<longrightarrow> st_name st = n \<and> valid_strategy st)"

lemma from_raw_effective:
  "risk_overrides_from_raw nff r = Some (Some ov) \<Longrightarrow> has_effective_overrides ov"
  by (auto simp: risk_overrides_from_raw_def Let_def split: option.splits if_splits)

lemma discovered_valid:
  assumes "keeps_range nff" "validate_config c = None" "parse_market (st_market_name c) = Inr mk"
    and "risk_overrides_from_raw nff (st_risk c) = Some ov"
  shows "valid_strategy (strategy_of c mk ov)"
  using assms validated_overrides_in_range [of nff "st_risk c"] from_raw_effective [of nff "st_risk c"]
  by (auto simp: valid_strategy_def validate_config_iff split: option.splits)

lemma valid_catalog_upd:
  "valid_catalog cat \<Longrightarrow> valid_strategy st \<Longrightarrow> valid_catalog (cat(st_name st \<mapsto> st))"
  by (auto simp: valid_catalog_def)

lemma load_valid: "load_strategy_config e = Inr c \<Longrightarrow> validate_config c = None"
  by (auto simp: load_strategy_config_def split: sum.splits option.splits)

lemma discover_loop_valid:
  assumes n: "keeps_range nff"
  shows "discover_loop nff es cat = Some (Inr cat') \<Longrightarrow> valid_catalog cat \<Longrightarrow> valid_catalog cat'"
proof (induction es arbitrary: cat)
  case (Cons e es)
  show ?case
  proof (cases "\<not> de_is_dir e \<or> \<not> de_has_script e \<or> \<not> de_has_config e")
    case True
    then show ?thesis using Cons by auto
  next
    case False
    then obtain c mk ov where c: "load_strategy_config e = Inr c"
        and mk: "parse_market (st_market_name c) = Inr mk"
        and ov: "risk_overrides_from_raw nff (st_risk c) = Some ov"
        and rest: "discover_loop nff es (cat(st_name c \<mapsto> strategy_of c mk ov)) = Some (Inr cat')"
      using Cons.prems(1) by (auto split: sum.splits option.splits if_splits)
    have "valid_strategy (strategy_of c mk ov)"
      by (rule discovered_valid [OF n load_valid [OF c] mk ov])
    from valid_catalog_upd [OF Cons.prems(2) this] show ?thesis
      by (intro Cons.IH [OF rest]) (simp only: strategy_of_sel)
  qed
qed simp

lemma discover_loop_last_wins:
  assumes "discover_loop nff es cat = Some (Inr cat')"
  shows "cat' n = cat n \<or> (\<exists>e \<in> set es. \<exists>c. load_strategy_config e = Inr c \<and> st_name c = n \<and>
     (\<exists>mk ov. cat' n = Some (strategy_of c mk ov)))"
  using assms
proof (induction es arbitrary: cat)
  case (Cons e es)
  show ?case
  proof (cases "\<not> de_is_dir e \<or> \<not> de_has_script e \<or> \<not> de_has_config e")
    case True
    then show ?thesis using Cons by auto
  next
    case False
    then obtain c mk ov where c: "load_strategy_config e = Inr c"
        and rest: "discover_loop nff es (cat(st_name c \<mapsto> strategy_of c mk ov)) = Some (Inr cat')"
      using Cons.prems(1) by (auto split: sum.splits option.splits if_splits)
    from Cons.IH [OF rest] c show ?thesis by (cases "n = st_name c") auto
  qed
qed simp

text \<open>C24. A successful discovery yields a catalogue of valid strategies filed under their own
  names: a name, symbols none of which is empty, an interval that is blank or on the whitelist, a
  warm-up length of 0 to 2000 bars, the perpetual market, and risk overrides in range. Every one
  of them is the configuration of a directory entry that passed the loader's validation.\<close>

theorem discover_catalog_sound:
  assumes "keeps_range nff"
    and "discover_strategies nff dir (Some (Inr es)) = Some (Inr cat)"
  shows "valid_catalog cat \<and>
    (\<forall>n st. cat n = Some st \<longrightarrow> (\<exists>e \<in> set es. \<exists>c ov. load_strategy_config e = Inr c \<and>
       st_name c = n \<and> st = strategy_of c Perp ov))"
proof (intro conjI allI impI)
  have l: "discover_loop nff es Map.empty = Some (Inr cat)"
    using assms(2) by (simp add: discover_strategies_def)
  show v: "valid_catalog cat"
    by (rule discover_loop_valid [OF assms(1) l]) (simp add: valid_catalog_def)
  fix n st assume st: "cat n = Some st"
  then obtain e c mk ov where e: "e \<in> set es" "load_strategy_config e = Inr c" "st_name c = n"
      "st = strategy_of c mk ov"
    using discover_loop_last_wins [OF l, of n] by auto
  moreover have "valid_strategy st" using v st by (simp add: valid_catalog_def)
  then have "mk = Perp" using e(4) by (simp add: valid_strategy_def)
  ultimately show "\<exists>e \<in> set es. \<exists>c ov. load_strategy_config e = Inr c \<and>
       st_name c = n \<and> st = strategy_of c Perp ov" by blast
qed

definition ex_risk :: "go_float option \<Rightarrow> risk_raw" where
  "ex_risk f = \<lparr>rr_max_order_size = f, rr_max_open_orders = Some 3, rr_max_positions = None,
     rr_max_position_size = None, rr_max_daily_loss = None, rr_max_drawdown = Some (Fin (1 / 2)),
     rr_max_leverage = None, rr_position_lock = None\<rparr>"

definition ex_config :: "go_float option \<Rightarrow> strategy_config" where
  "ex_config f = \<lparr>st_name = ''ma'', st_enabled = True, st_symbols = [''BTC/USDT''],
     st_interval = '' 5m '', st_history_bars = 200, st_subscribe_ticker = False,
     st_market_name = [], st_risk = Some (ex_risk f)\<rparr>"

definition ex_entry :: "go_float option \<Rightarrow> dir_entry" where
  "ex_entry f = \<lparr>de_name = ''ma'', de_is_dir = True, de_has_script = True, de_has_config = True,
     de_parsed = Inr (ex_config f)\<rparr>"

definition ceil_dec :: "rat \<Rightarrow> decimal" where
  "ceil_dec q = of_int \<lceil>q\<rceil>"

lemma keeps_range_ceil: "keeps_range ceil_dec"
  by (auto simp: keeps_range_def ceil_dec_def)

lemmas ex_strategy_defs = ex_risk_def ex_config_def ex_entry_def

lemma ex_discovers:
  "case discover_strategies ceil_dec ''s'' (Some (Inr [ex_entry (Some (Fin 5))])) of
     Some (Inr cat) \<Rightarrow> cat ''ma'' \<noteq> None | _ \<Rightarrow> False"
  by code_simp

theorem discover_catalog_sound_witness:
  "\<exists>cat st. discover_strategies ceil_dec ''s'' (Some (Inr [ex_entry (Some (Fin 5))])) = Some (Inr cat) \<and>
     cat ''ma'' = Some st \<and> valid_strategy st"
proof -
  obtain cat st where c: "discover_strategies ceil_dec ''s'' (Some (Inr [ex_entry (Some (Fin 5))])) = Some (Inr cat)"
    and st: "cat ''ma'' = Some st"
    using ex_discovers by (auto split: option.splits sum.splits)
  from discover_catalog_sound [OF keeps_range_ceil c] st have "valid_strategy st"
    by (auto simp: valid_catalog_def)
  with c st show ?thesis by blast
qed

text \<open>The validation accepts limits that are not numbers: for an accepted risk section the
  conversion to overrides panics exactly when one of the float limits is a NaN, or one of the
  sizes is infinite.\<close>

theorem nan_limit_panics:
  assumes "validate_risk_config (Some r) = None"
  shows "risk_overrides_from_raw nff (Some r) = None \<longleftrightarrow>
    rr_max_drawdown r = Some NaN \<or>
    (\<exists>f \<in> {rr_max_order_size r, rr_max_position_size r, rr_max_daily_loss r}.
       f = Some NaN \<or> f = Some PInf)"
proof -
  have f: "dec_of_float nff x = None \<longleftrightarrow> x = Some NaN \<or> x = Some PInf"
    if "\<not> float_neg x" for x
    using that by (cases "(nff, x)" rule: dec_of_float.cases) (auto simp: float_neg_def)
  have d: "dec_of_float nff x = None \<longleftrightarrow> x = Some NaN" if "\<not> drawdown_bad x" for x
    using that by (cases "(nff, x)" rule: dec_of_float.cases) (auto simp: drawdown_bad_def float_le_def)
  have ok: "\<not> float_neg (rr_max_order_size r)" "\<not> float_neg (rr_max_position_size r)"
    "\<not> float_neg (rr_max_daily_loss r)" "\<not> drawdown_bad (rr_max_drawdown r)"
    using assms by (auto simp: validate_risk_config_def split: if_splits)
  show ?thesis
    using f [OF ok(1)] f [OF ok(2)] f [OF ok(3)] d [OF ok(4)]
    by (auto simp: risk_overrides_from_raw_def Let_def split: option.split)
qed

theorem nan_limit_panics_witness:
  "validate_config (ex_config (Some NaN)) = None \<and>
   discover_strategies ceil_dec ''s'' (Some (Inr [ex_entry (Some NaN)])) = None"
proof -
  have v: "validate_risk_config (Some (ex_risk (Some NaN))) = None" by code_simp
  have "risk_overrides_from_raw ceil_dec (Some (ex_risk (Some NaN))) = None"
    using nan_limit_panics [OF v, of ceil_dec] by (simp add: ex_risk_def)
  moreover have "validate_config (ex_config (Some NaN)) = None" by code_simp
  moreover have "parse_market [] = Inr Perp" by code_simp
  ultimately show ?thesis
    by (simp add: discover_strategies_def load_strategy_config_def ex_entry_def)
      (simp add: ex_config_def)
qed

end
