(* ===== verification/RiskPipeline.thy ===== *)
theory RiskPipeline
  imports PerpRisk OMS StrategyConfig
begin

text \<open>
  The engine's path from a signal to the order queue: \<open>dispatchSignal\<close> (\<open>engine.go\<close>), the two
  risk tiers (\<open>strategy_risk.go\<close>, \<open>risk_evaluator.go\<close>), the notional gate (\<open>risk_input.go\<close>), the
  choice of the market (\<open>market_dispatch.go\<close>) and the kill switch (\<open>kill_switch.go\<close>).

  A market is the pair of functions the engine calls. The account and the order book may change
  between two calls, so that the context built after a strategy-tier reduction
  (\<open>mk_rebuild\<close>) is another function than the first one (\<open>mk_build\<close>).
\<close>

subsection \<open>State\<close>

record kill_switch =
  ks_active :: bool
  ks_at :: go_time
  ks_reason :: string

definition kill_switch_off :: kill_switch where
  "kill_switch_off = \<lparr>ks_active = False, ks_at = zero_time, ks_reason = []\<rparr>"

record market_impl =
  mk_decide :: "string \<Rightarrow> signal \<Rightarrow> order option result"
  mk_build :: "string \<Rightarrow> signal \<Rightarrow> order \<Rightarrow> risk_context result"
  mk_rebuild :: "string \<Rightarrow> signal \<Rightarrow> order \<Rightarrow> risk_context result"

datatype evaluator = StaticRules rules | RemoteEvaluator "risk_context \<Rightarrow> verdict result"

record engine =
  en_kill :: kill_switch
  en_markets :: "market \<Rightarrow> market_impl option"
  en_strategies :: "string \<rightharpoonup> strategy_cfg"
  en_evaluator :: evaluator
  en_strategy_orders :: "(string \<Rightarrow> int) option"
  en_projection :: "projection option"

subsection \<open>Markets and rules\<close>

definition market_for :: "engine \<Rightarrow> market \<Rightarrow> market_impl option" where
  "market_for en m = (if \<not> market_valid m then None else en_markets en m)"

definition strategy_market :: "engine \<Rightarrow> string \<Rightarrow> market" where
  "strategy_market en name =
     (case en_strategies en name of
        Some st \<Rightarrow> if market_valid (st_market st) then st_market st else Perp
      | None \<Rightarrow> Perp)"

definition global_rules :: "engine \<Rightarrow> rules" where
  "global_rules en = (case en_evaluator en of StaticRules r \<Rightarrow> r | RemoteEvaluator _ \<Rightarrow> default_rules)"

definition rules_need_leverage :: "rules \<Rightarrow> bool" where
  "rules_need_leverage r \<longleftrightarrow> 0 < r_max_leverage r"

definition rules_need_position_size :: "rules \<Rightarrow> bool" where
  "rules_need_position_size r \<longleftrightarrow> 0 < r_max_position_size r"

text \<open>The loop over the strategies, in the range order \<open>names\<close>.\<close>

definition some_strategy_needs :: "(rules \<Rightarrow> bool) \<Rightarrow> string list \<Rightarrow> engine \<Rightarrow> bool" where
  "some_strategy_needs need names en \<longleftrightarrow>
     list_ex (\<lambda>st. case st_overrides st of
         None \<Rightarrow> False
       | Some ov \<Rightarrow> has_effective_overrides ov \<and> need (merge_rules (global_rules en) ov))
       (map_values names (en_strategies en))"

definition risk_needs_leverage :: "string list \<Rightarrow> engine \<Rightarrow> bool" where
  "risk_needs_leverage names en \<longleftrightarrow>
     (if rules_need_leverage (global_rules en) then True
      else some_strategy_needs rules_need_leverage names en)"

definition risk_needs_position_size :: "string list \<Rightarrow> engine \<Rightarrow> bool" where
  "risk_needs_position_size names en \<longleftrightarrow>
     (if rules_need_position_size (global_rules en) then True
      else some_strategy_needs rules_need_position_size names en)"

definition needs_notional :: "string list \<Rightarrow> engine \<Rightarrow> bool \<Rightarrow> bool" where
  "needs_notional names en increasing \<longleftrightarrow>
     risk_needs_leverage names en \<or> (increasing \<and> risk_needs_position_size names en)"

subsection \<open>The strategy tier\<close>

definition open_position_count_for_strategy ::
  "decimal_lib \<Rightarrow> contract list \<Rightarrow> engine \<Rightarrow> string list \<Rightarrow> int result" where
  "open_position_count_for_strategy D ks en symbols =
     (case en_projection en of
        None \<Rightarrow> Inr (- 1)
      | Some p \<Rightarrow>
          if \<not> pj_ready p then Inr (- 1)
          else if length symbols = 0 then Inr 0
          else let allowed = filter (\<lambda>c. c \<noteq> []) (map trim_space symbols)
               in case all_positions ks p of
                    Inl e \<Rightarrow> Inl e
                  | Inr ps \<Rightarrow> Inr (int (length (filter (\<lambda>q. p_contract q \<in> set allowed \<and>
                      (case dec_parse D (trim_space (p_size q)) of None \<Rightarrow> False | Some x \<Rightarrow> 0 < x)) ps))))"

definition build_strategy_risk_context ::
  "decimal_lib \<Rightarrow> contract list \<Rightarrow> engine \<Rightarrow> risk_context \<Rightarrow> string \<Rightarrow> string list \<Rightarrow> risk_context result" where
  "build_strategy_risk_context D ks en rc name symbols =
     (let rc1 = (case en_strategy_orders en of None \<Rightarrow> rc | Some f \<Rightarrow> rc\<lparr>rx_open_orders := f name\<rparr>)
      in case open_position_count_for_strategy D ks en symbols of
           Inl e \<Rightarrow> Inl e
         | Inr n \<Rightarrow> Inr (rc1\<lparr>rx_positions := n\<rparr>))"

text \<open>The verdict, the order (its size reduced in place) and the context of the global tier.\<close>

definition evaluate_strategy_risk ::
  "decimal_lib \<Rightarrow> contract list \<Rightarrow> engine \<Rightarrow> string \<Rightarrow> signal \<Rightarrow> order \<Rightarrow> risk_context \<Rightarrow>
   (verdict \<times> order \<times> risk_context) result" where
  "evaluate_strategy_risk D ks en name s ob rc =
     (case en_strategies en name of
        None \<Rightarrow> Inr (allow, ob, rc)
      | Some st \<Rightarrow> (case st_overrides st of
          None \<Rightarrow> Inr (allow, ob, rc)
        | Some ov \<Rightarrow>
            if \<not> has_effective_overrides ov then Inr (allow, ob, rc)
            else (case build_strategy_risk_context D ks en rc name (st_symbols st) of
              Inl e \<Rightarrow> Inl e
            | Inr scoped \<Rightarrow>
                let v = prefix_strategy_verdict
                          (evaluate_rules D (merge_rules (global_rules en) ov) (Some scoped))
                in if v_kind v = KReduce then
                     let ob' = ob\<lparr>ord_size := v_adjusted v\<rparr>
                     in case market_for en (strategy_market en name) of
                          None \<Rightarrow> Inl (Errorf ''market not registered'')
                        | Some m \<Rightarrow> (case mk_rebuild m name s ob' of
                            Inl e \<Rightarrow> Inl e | Inr rc' \<Rightarrow> Inr (v, ob', rc'))
                   else Inr (v, ob, rc))))"

definition evaluate_global :: "decimal_lib \<Rightarrow> engine \<Rightarrow> risk_context \<Rightarrow> verdict result" where
  "evaluate_global D en rc =
     (case en_evaluator en of StaticRules r \<Rightarrow> Inr (evaluate_rules D r (Some rc)) | RemoteEvaluator f \<Rightarrow> f rc)"

subsection \<open>dispatchSignal\<close>

datatype dispatch =
    KillSwitchRejected
  | MarketNotRegistered
  | DecideFailed go_error
  | NoOrder
  | ContextFailed go_error
  | StrategyRiskFailed go_error
  | StrategyRejected verdict
  | UnknownStrategyVerdict verdict
  | RiskFailed go_error
  | RiskRejected verdict
  | UnknownVerdict verdict
  | Queued order

definition global_tier :: "decimal_lib \<Rightarrow> engine \<Rightarrow> order \<Rightarrow> risk_context \<Rightarrow> dispatch" where
  "global_tier D en ob rc =
     (case evaluate_global D en rc of
        Inl e \<Rightarrow> RiskFailed e
      | Inr v \<Rightarrow> (case v_kind v of
          KReject \<Rightarrow> RiskRejected v
        | KReduce \<Rightarrow> Queued (ob\<lparr>ord_size := v_adjusted v\<rparr>)
        | KAllow \<Rightarrow> Queued ob
        | KOther _ \<Rightarrow> UnknownVerdict v))"

definition dispatch_signal ::
  "decimal_lib \<Rightarrow> contract list \<Rightarrow> engine \<Rightarrow> string \<Rightarrow> signal \<Rightarrow> dispatch" where
  "dispatch_signal D ks en name s =
     (if ks_active (en_kill en) \<and> opens_exposure (Some s) then KillSwitchRejected
      else let mk = strategy_market en name in
        case market_for en mk of
          None \<Rightarrow> MarketNotRegistered
        | Some m \<Rightarrow> (case mk_decide m name s of
            Inl e \<Rightarrow> DecideFailed e
          | Inr None \<Rightarrow> NoOrder
          | Inr (Some ob0) \<Rightarrow>
              let ob = (if \<not> market_valid (ord_market ob0) then ob0\<lparr>ord_market := mk\<rparr> else ob0)
              in case mk_build m name s ob of
                   Inl e \<Rightarrow> ContextFailed e
                 | Inr rc \<Rightarrow> (case evaluate_strategy_risk D ks en name s ob rc of
                     Inl e \<Rightarrow> StrategyRiskFailed e
                   | Inr (v, ob1, rc1) \<Rightarrow> (case v_kind v of
                       KReject \<Rightarrow> StrategyRejected v
                     | KReduce \<Rightarrow> global_tier D en ob1 rc1
                     | KAllow \<Rightarrow> global_tier D en ob1 rc1
                     | KOther _ \<Rightarrow> UnknownStrategyVerdict v))))"

subsection \<open>The kill switch\<close>

text \<open>What a caller sees; the reason is kept apart from the active flag.\<close>

definition kill_switch_snapshot :: "kill_switch \<Rightarrow> kill_switch" where
  "kill_switch_snapshot k =
     \<lparr>ks_active = ks_active k, ks_at = (if ks_active k then ks_at k else zero_time), ks_reason = ks_reason k\<rparr>"

text \<open>\<open>ListOpenOrdersSnapshot\<close>, in the range order \<open>ks\<close>.\<close>

definition list_open_orders :: "string list \<Rightarrow> int \<Rightarrow> oms \<Rightarrow> order list" where
  "list_open_orders ks limit0 s =
     (let limit = (if limit0 \<le> 0 then 500 else limit0)
      in take (nat limit) (filter (\<lambda>ob. \<not> is_terminal (ord_status ob)) (map_values ks (oms_orders s))))"

text \<open>The cancellations, one after the other: attempted, failed and the OMS afterwards.\<close>

fun cancel_each :: "oms_env \<Rightarrow> (order \<Rightarrow> go_error option) \<Rightarrow> order list \<Rightarrow> oms \<Rightarrow> nat \<times> nat \<times> oms" where
  "cancel_each env answer [] s = (0, 0, s)"
| "cancel_each env answer (ob # obs) s =
     (if ord_id ob = [] then cancel_each env answer obs s
      else case exec_cancel env answer (ord_id ob) s of (err, s1) \<Rightarrow>
        (case cancel_each env answer obs s1 of (a, f, s2) \<Rightarrow>
           (a + 1, f + (if err = None then 0 else 1), s2)))"

definition cancel_all_open_orders ::
  "oms_env \<Rightarrow> (order \<Rightarrow> go_error option) \<Rightarrow> string list \<Rightarrow> oms \<Rightarrow> nat \<times> nat \<times> oms" where
  "cancel_all_open_orders env answer ks s = cancel_each env answer (list_open_orders ks 500 s) s"

text \<open>\<open>auto\<close> is the configured cancellation on activation.\<close>

definition activate_kill_switch ::
  "oms_env \<Rightarrow> (order \<Rightarrow> go_error option) \<Rightarrow> string list \<Rightarrow> go_time \<Rightarrow> bool \<Rightarrow> string \<Rightarrow> bool \<Rightarrow> kill_switch \<times> oms \<Rightarrow>
   (kill_switch \<times> nat \<times> nat) \<times> kill_switch \<times> oms" where
  "activate_kill_switch env answer ks now auto reason cancel = (\<lambda>(k, s).
     let first = \<not> ks_active k;
         k1 = (if first then \<lparr>ks_active = True, ks_at = now, ks_reason = trim_space reason\<rparr> else k);
         should_cancel = (if \<not> cancel then auto else cancel)
     in if first \<and> should_cancel
        then (case cancel_all_open_orders env answer ks s of (a, f, s1) \<Rightarrow>
                ((kill_switch_snapshot k1, a, f), k1, s1))
        else ((kill_switch_snapshot k1, 0, 0), k1, s))"

definition deactivate_kill_switch :: "kill_switch \<Rightarrow> kill_switch \<times> kill_switch" where
  "deactivate_kill_switch k = (kill_switch_snapshot kill_switch_off, kill_switch_off)"

subsection \<open>The market contract\<close>

text \<open>What the pipeline relies on from a market: a risk context is about the order and the signal
  it was asked for.\<close>

locale risk_market =
  fixes build :: "string \<Rightarrow> signal \<Rightarrow> order \<Rightarrow> risk_context result"
  assumes about_order: "build name s ob = Inr rc \<Longrightarrow> rx_order rc = Some ob"
    and about_signal: "build name s ob = Inr rc \<Longrightarrow> rx_signal rc = Some s"
    and opens: "build name s ob = Inr rc \<Longrightarrow> rx_opens rc = opens_exposure (Some s)"
begin

text \<open>The rules see that order's size and that signal.\<close>

lemma evaluated:
  "build name s ob = Inr rc \<Longrightarrow> evaluate_rules D r (Some rc) = evaluate D (risk_input_of r rc ob)"
  by (simp add: evaluate_rules_def about_order)

lemma not_reject_guards:
  assumes "build name s ob = Inr rc" and "r_enable r" and "v_kind (evaluate_rules D r (Some rc)) \<noteq> KReject"
  shows "guards_passed (risk_input_of r rc ob)"
  using assms evaluate_not_reject [of "risk_input_of r rc ob" D] evaluated [OF assms(1), of D r]
  by (simp add: risk_input_of_def)

end

definition perp_build ::
  "decimal_lib \<Rightarrow> perp_risk \<Rightarrow> contract list \<Rightarrow> string \<Rightarrow> signal \<Rightarrow> order \<Rightarrow> risk_context result" where
  "perp_build D k ks name s ob = build_risk_context D k ks name (Some s) (Some ob)"

interpretation perp: risk_market "perp_build D k ks" for D k ks
  by unfold_locales (auto simp: perp_build_def dest: build_risk_context_sel)

subsection \<open>What reaches the order queue\<close>

text \<open>The rules of the strategy tier, if the strategy has effective overrides.\<close>

definition strategy_rules :: "engine \<Rightarrow> string \<Rightarrow> rules option" where
  "strategy_rules en name =
     (case en_strategies en name of None \<Rightarrow> None
      | Some st \<Rightarrow> (case st_overrides st of None \<Rightarrow> None
        | Some ov \<Rightarrow> if has_effective_overrides ov then Some (merge_rules (global_rules en) ov) else None))"

text \<open>One tier that does not reject: the order that leaves it has passed the guards, and its size
  parses to a positive number that is at most the one it had.\<close>

definition not_larger :: "decimal_lib \<Rightarrow> order \<Rightarrow> order \<Rightarrow> bool" where
  "not_larger D ob' ob \<longleftrightarrow>
     (\<exists>q q'. dec_parse D (ord_size ob) = Some q \<and> dec_parse D (ord_size ob') = Some q' \<and> q' \<le> q) \<and>
     ob' = ob\<lparr>ord_size := ord_size ob'\<rparr>"

lemma not_larger_trans: "not_larger D c b \<Longrightarrow> not_larger D b a \<Longrightarrow> not_larger D c a"
  unfolding not_larger_def by (metis (no_types, lifting) option.inject order.trans order.update_convs(8) order.surjective)

context decimal_laws
begin

lemma tier_not_larger:
  assumes "r_enable (in_rules i)" and "v_kind (evaluate D i) \<noteq> KReject" and "in_order_size i = ord_size ob"
  shows "not_larger D (if v_kind (evaluate D i) = KReduce then ob\<lparr>ord_size := v_adjusted (evaluate D i)\<rparr> else ob) ob"
proof (cases "v_kind (evaluate D i) = KReduce")
  case True
  with evaluate_reduce [OF True] assms(3) show ?thesis by (auto simp: not_larger_def)
next
  case False
  obtain q where "dec_parse D (in_order_size i) = Some q" using assms(1,2) by (rule evaluate_Some)
  with False assms(3) show ?thesis by (auto simp: not_larger_def)
qed

end

lemma risk_input_of_sel:
  "in_rules (risk_input_of r rc ob) = r" "in_order_size (risk_input_of r rc ob) = ord_size ob"
  by (simp_all add: risk_input_of_def)

definition with_market :: "market \<Rightarrow> order \<Rightarrow> order" where
  "with_market mk ob = (if \<not> market_valid (ord_market ob) then ob\<lparr>ord_market := mk\<rparr> else ob)"

text \<open>The perpetual market as the engine sees it: a decision function and the risk contexts of two
  successive states of the account.\<close>

definition perp_market_of ::
  "decimal_lib \<Rightarrow> (string \<Rightarrow> signal \<Rightarrow> order option result) \<Rightarrow> perp_risk \<Rightarrow> contract list \<Rightarrow> perp_risk \<Rightarrow>
   contract list \<Rightarrow> market_impl" where
  "perp_market_of D decide k1 ks1 k2 ks2 =
     \<lparr>mk_decide = decide, mk_build = perp_build D k1 ks1, mk_rebuild = perp_build D k2 ks2\<rparr>"

lemma dispatch_Queued:
  assumes "dispatch_signal D ks en name s = Queued ord"
  obtains m ob0 rc v ob1 rc1 where
    "\<not> (ks_active (en_kill en) \<and> opens_exposure (Some s))" "market_for en (strategy_market en name) = Some m"
    "mk_decide m name s = Inr (Some ob0)"
    "mk_build m name s (with_market (strategy_market en name) ob0) = Inr rc"
    "evaluate_strategy_risk D ks en name s (with_market (strategy_market en name) ob0) rc = Inr (v, ob1, rc1)"
    "v_kind v = KReduce \<or> v_kind v = KAllow" "global_tier D en ob1 rc1 = Queued ord"
  using assms unfolding dispatch_signal_def Let_def with_market_def [symmetric]
  by (simp split: if_splits option.splits sum.splits prod.splits verdict_kind.splits)

lemma global_tier_static:
  assumes "global_tier D en ob rc = Queued ord" and "en_evaluator en = StaticRules r"
  shows "v_kind (evaluate_rules D r (Some rc)) \<noteq> KReject \<and>
    ord = (if v_kind (evaluate_rules D r (Some rc)) = KReduce
           then ob\<lparr>ord_size := v_adjusted (evaluate_rules D r (Some rc))\<rparr> else ob)"
  using assms by (auto simp: global_tier_def evaluate_global_def split: verdict_kind.splits)

lemma strategy_tier_cases:
  assumes "evaluate_strategy_risk D ks en name s ob rc = Inr (v, ob1, rc1)" and "v_kind v \<noteq> KReject"
  obtains (none) "strategy_rules en name = None" "ob1 = ob" "rc1 = rc"
  | (keep) r' scoped where "strategy_rules en name = Some r'"
      "build_strategy_risk_context D ks en rc name (st_symbols (the (en_strategies en name))) = Inr scoped"
      "v_kind (evaluate_rules D r' (Some scoped)) \<noteq> KReject" "v_kind (evaluate_rules D r' (Some scoped)) \<noteq> KReduce"
      "ob1 = ob" "rc1 = rc"
  | (reduced) r' scoped m where "strategy_rules en name = Some r'"
      "build_strategy_risk_context D ks en rc name (st_symbols (the (en_strategies en name))) = Inr scoped"
      "v_kind (evaluate_rules D r' (Some scoped)) = KReduce"
      "ob1 = ob\<lparr>ord_size := v_adjusted (evaluate_rules D r' (Some scoped))\<rparr>"
      "market_for en (strategy_market en name) = Some m" "mk_rebuild m name s ob1 = Inr rc1"
proof (cases "strategy_rules en name")
  case None
  then have "ob1 = ob" "rc1 = rc"
    using assms(1) by (auto simp: evaluate_strategy_risk_def strategy_rules_def split: option.splits if_splits)
  with None show ?thesis by (rule none)
next
  case (Some r')
  then obtain st ov where st: "en_strategies en name = Some st" "st_overrides st = Some ov"
    "has_effective_overrides ov" and r': "r' = merge_rules (global_rules en) ov"
    by (auto simp: strategy_rules_def split: option.splits if_splits)
  obtain sc where sc: "build_strategy_risk_context D ks en rc name (st_symbols st) = Inr sc"
    using assms(1) st by (auto simp: evaluate_strategy_risk_def split: sum.splits)
  have sc': "build_strategy_risk_context D ks en rc name (st_symbols (the (en_strategies en name))) = Inr sc"
    using sc st by simp
  let ?v = "evaluate_rules D r' (Some sc)"
  show ?thesis
  proof (cases "v_kind ?v = KReduce")
    case True
    then show ?thesis
      using assms(1) st sc reduced [OF Some sc' True]
      by (simp add: evaluate_strategy_risk_def r' Let_def split: option.splits sum.splits)
  next
    case False
    then have "v = prefix_strategy_verdict ?v" "ob1 = ob" "rc1 = rc"
      using assms(1) st sc by (auto simp: evaluate_strategy_risk_def r')
    with False assms(2) show ?thesis by (intro keep [OF Some sc']) simp_all
  qed
qed

lemma build_strategy_risk_context_sel:
  assumes "build_strategy_risk_context D ks en rc name symbols = Inr scoped"
  shows "rx_order scoped = rx_order rc" "rx_signal scoped = rx_signal rc" "rx_opens scoped = rx_opens rc"
    "rx_equity scoped = rx_equity rc" "rx_notional_available scoped = rx_notional_available rc"
    "rx_post_leverage scoped = rx_post_leverage rc" "rx_increasing scoped = rx_increasing rc"
  using assms by (auto simp: build_strategy_risk_context_def Let_def split: option.splits sum.splits)

lemma strategy_rules_enable: "strategy_rules en name = Some r' \<Longrightarrow> r_enable r' = r_enable (global_rules en)"
  by (auto simp: strategy_rules_def split: option.splits if_splits)


definition overrides_ex :: overrides where
  "overrides_ex = no_overrides\<lparr>ov_max_order_size := Some 3, ov_max_leverage := Some 2\<rparr>"

definition decide_ex :: "string \<Rightarrow> signal \<Rightarrow> order option result" where
  "decide_ex name s = fst (process_signal ref_lib (system_deps replies_ex market_ex 10)
     (Some (account_ex\<lparr>pj_positions := Map.empty\<rparr>)) ''o1'' 0 0 name s no_stats)"

definition flat_risk_ex :: "(bool \<Rightarrow> bool) \<Rightarrow> perp_risk" where
  "flat_risk_ex f = perp_risk_ex\<lparr>pk_proj := Some (account_ex\<lparr>pj_positions := Map.empty\<rparr>), pk_needs := Some f\<rparr>"

definition engine_ex :: "bool \<Rightarrow> engine" where
  "engine_ex killed =
     \<lparr>en_kill = (if killed then \<lparr>ks_active = True, ks_at = 5, ks_reason = ''halt''\<rparr> else kill_switch_off),
      en_markets = (\<lambda>m. if m = Perp then Some (perp_market_of ref_lib decide_ex (flat_risk_ex (\<lambda>_. True)) []
         (flat_risk_ex (\<lambda>_. True)) []) else None),
      en_strategies = [''s'' \<mapsto> \<lparr>st_name = ''s'', st_enabled = True, st_symbols = [''BTC/USDT''],
          st_interval = ''1m'', st_history_bars = 0, st_subscribe_ticker = False, st_market_name = [],
          st_risk = None, st_market = Perp, st_overrides = Some overrides_ex\<rparr>],
      en_evaluator = StaticRules (rules_ex 100 0 0),
      en_strategy_orders = None, en_projection = None\<rparr>"


text \<open>The gate covers every rule that needs the figures.\<close>

lemma needs_notional_strategy:
  assumes "iterates names (en_strategies en)" and "strategy_rules en name = Some r'" and "rules_need_leverage r'"
  shows "needs_notional names en i"
proof -
  obtain st ov where st: "en_strategies en name = Some st" "st_overrides st = Some ov"
    "has_effective_overrides ov" and r': "r' = merge_rules (global_rules en) ov"
    using assms(2) by (auto simp: strategy_rules_def split: option.splits if_splits)
  have "st \<in> set (map_values names (en_strategies en))"
    using assms(1) st(1) by (auto simp: set_map_values iterates_def)
  then have "some_strategy_needs rules_need_leverage names en"
    using st(2,3) assms(3) unfolding some_strategy_needs_def list_ex_iff r'
    by (intro bexI [of _ st]) simp_all
  then show ?thesis by (simp add: needs_notional_def risk_needs_leverage_def)
qed


definition gated_engine_ex :: engine where
  "gated_engine_ex = (engine_ex False)\<lparr>en_markets := (\<lambda>m. if m = Perp then Some (perp_market_of ref_lib decide_ex
     (flat_risk_ex (needs_notional [''s''] (engine_ex False))) [] (flat_risk_ex (\<lambda>_. True)) []) else None)\<rparr>"


subsection \<open>Kill switch properties\<close>

text \<open>Apart from its guard the pipeline does not look at the kill switch.\<close>

lemma kill_switch_irrelevant:
  "global_rules (en\<lparr>en_kill := a\<rparr>) = global_rules en"
  "market_for (en\<lparr>en_kill := a\<rparr>) = market_for en"
  "strategy_market (en\<lparr>en_kill := a\<rparr>) = strategy_market en"
  "open_position_count_for_strategy D cs (en\<lparr>en_kill := a\<rparr>) = open_position_count_for_strategy D cs en"
  "build_strategy_risk_context D cs (en\<lparr>en_kill := a\<rparr>) = build_strategy_risk_context D cs en"
  "evaluate_strategy_risk D cs (en\<lparr>en_kill := a\<rparr>) = evaluate_strategy_risk D cs en"
  "global_tier D (en\<lparr>en_kill := a\<rparr>) = global_tier D en"
proof -
  show g: "global_rules (en\<lparr>en_kill := a\<rparr>) = global_rules en" by (simp add: global_rules_def)
  show m: "market_for (en\<lparr>en_kill := a\<rparr>) = market_for en" by (rule ext) (simp add: market_for_def)
  show st: "strategy_market (en\<lparr>en_kill := a\<rparr>) = strategy_market en"
    by (rule ext) (simp add: strategy_market_def)
  show "open_position_count_for_strategy D cs (en\<lparr>en_kill := a\<rparr>) = open_position_count_for_strategy D cs en"
    by (rule ext) (simp add: open_position_count_for_strategy_def)
  then show b: "build_strategy_risk_context D cs (en\<lparr>en_kill := a\<rparr>) = build_strategy_risk_context D cs en"
    by (intro ext) (simp add: build_strategy_risk_context_def)
  show "evaluate_strategy_risk D cs (en\<lparr>en_kill := a\<rparr>) = evaluate_strategy_risk D cs en"
    by (intro ext) (simp only: evaluate_strategy_risk_def g m st b engine.ext_inject engine.simps engine.update_convs engine.select_convs refl, simp)
  show "global_tier D (en\<lparr>en_kill := a\<rparr>) = global_tier D en"
    by (intro ext) (simp add: global_tier_def evaluate_global_def)
qed

text \<open>C8. Once the kill switch is activated no signal that opens exposure leads to an order,
  whatever the market and the rules say, while signals that close are treated exactly as without
  it; activating it again changes neither its reason nor its instant and cancels nothing; and
  deactivating restores the former treatment.\<close>

theorem kill_switch_blocks_openings:
  assumes "activate_kill_switch env answer ks now auto_cancel reason cancel (k, s) = (res, k', s')"
  shows "ks_active k' \<and>
    (opens_exposure (Some sig) \<longrightarrow> dispatch_signal D cs (en\<lparr>en_kill := k'\<rparr>) name sig = KillSwitchRejected) \<and>
    (\<not> opens_exposure (Some sig) \<longrightarrow>
       dispatch_signal D cs (en\<lparr>en_kill := k'\<rparr>) name sig = dispatch_signal D cs (en\<lparr>en_kill := kill_switch_off\<rparr>) name sig) \<and>
    (ks_active k \<longrightarrow> k' = k \<and> s' = s) \<and>
    (\<not> ks_active k \<longrightarrow> k' = \<lparr>ks_active = True, ks_at = now, ks_reason = trim_space reason\<rparr>) \<and>
    snd (deactivate_kill_switch k') = kill_switch_off"
proof -
  have "dispatch_signal D cs (en\<lparr>en_kill := a\<rparr>) name sig = dispatch_signal D cs (en\<lparr>en_kill := b\<rparr>) name sig"
    if "\<not> opens_exposure (Some sig)" for a b
    using that unfolding dispatch_signal_def kill_switch_irrelevant by simp
  then show ?thesis
    using assms by (auto simp: activate_kill_switch_def Let_def dispatch_signal_def deactivate_kill_switch_def
        split: if_splits prod.splits)
qed

theorem kill_switch_blocks_openings_witness:
  "dispatch_signal ref_lib [] ((engine_ex False)\<lparr>en_kill := \<lparr>ks_active = True, ks_at = 7, ks_reason = ''halt''\<rparr>\<rparr>) ''s''
     (signal_ex Long None None) = KillSwitchRejected"
proof -
  have a: "activate_kill_switch env_ex (\<lambda>_. None) [] 7 False '' halt'' False (kill_switch_off, oms_ex) =
      ((\<lparr>ks_active = True, ks_at = 7, ks_reason = ''halt''\<rparr>, 0, 0), \<lparr>ks_active = True, ks_at = 7, ks_reason = ''halt''\<rparr>, oms_ex)"
  proof -
    have "trim_space '' halt'' = ''halt''" by code_simp
    then show ?thesis by (simp add: activate_kill_switch_def kill_switch_off_def kill_switch_snapshot_def Let_def)
  qed
  have "opens_exposure (Some (signal_ex Long None None))" by code_simp
  then show ?thesis using kill_switch_blocks_openings [OF a] by blast
qed

text \<open>Cancelling every listed order.\<close>

definition cancellable :: "oms \<Rightarrow> (order \<Rightarrow> go_error option) \<Rightarrow> order \<Rightarrow> bool" where
  "cancellable s answer ob \<longleftrightarrow> \<not> is_terminal (ord_status ob) \<and> has_executor s ob \<and> answer ob = None"

lemma exec_cancel_ok:
  assumes "oms_orders s oid = Some ob" and "cancellable s answer ob"
  shows "fst (exec_cancel env answer oid s) = None"
    and "oms_orders (snd (exec_cancel env answer oid s)) =
         (oms_orders s)(oid \<mapsto> ob\<lparr>ord_status := Cancelled, ord_updated := env_t0 env\<rparr>)"
    and "has_executor (snd (exec_cancel env answer oid s)) = has_executor s"
  using assms by (simp_all add: exec_cancel_def cancellable_def Let_def has_executor_def fun_eq_iff)

lemma cancel_each_ok:
  assumes "distinct (map ord_id obs)" and "\<forall>ob \<in> set obs. oms_orders s (ord_id ob) = Some ob \<and> cancellable s answer ob \<and> ord_id ob \<noteq> []"
  shows "\<exists>s'. cancel_each env answer obs s = (length obs, 0, s') \<and>
    oms_orders s' = (\<lambda>k. if k \<in> ord_id ` set obs
      then map_option (\<lambda>ob. ob\<lparr>ord_status := Cancelled, ord_updated := env_t0 env\<rparr>) (oms_orders s k) else oms_orders s k)"
  using assms
proof (induction obs arbitrary: s)
  case (Cons ob obs)
  let ?s = "snd (exec_cancel env answer (ord_id ob) s)"
  have ob: "oms_orders s (ord_id ob) = Some ob" "cancellable s answer ob" "ord_id ob \<noteq> []"
    using Cons.prems(2) by (blast intro: list.set_intros)+
  note c = exec_cancel_ok [OF ob(1) ob(2), where env = env]
  have "\<forall>x \<in> set obs. oms_orders ?s (ord_id x) = Some x \<and> cancellable ?s answer x \<and> ord_id x \<noteq> []"
  proof
    fix x assume x: "x \<in> set obs"
    have "ord_id x \<in> set (map ord_id obs)" using x by simp
    then have "ord_id x \<noteq> ord_id ob" using Cons.prems(1) by (metis distinct.simps(2) list.simps(9))
    moreover from Cons.prems(2) x
    have "oms_orders s (ord_id x) = Some x \<and> cancellable s answer x \<and> ord_id x \<noteq> []" by (blast intro: list.set_intros)
    ultimately show "oms_orders ?s (ord_id x) = Some x \<and> cancellable ?s answer x \<and> ord_id x \<noteq> []"
      unfolding c(2) cancellable_def c(3) by simp
  qed
  with Cons.IH [of ?s] Cons.prems(1) obtain s' where s': "cancel_each env answer obs ?s = (length obs, 0, s')"
    "oms_orders s' = (\<lambda>k. if k \<in> ord_id ` set obs
      then map_option (\<lambda>ob. ob\<lparr>ord_status := Cancelled, ord_updated := env_t0 env\<rparr>) (oms_orders ?s k) else oms_orders ?s k)"
    by auto
  have "cancel_each env answer (ob # obs) s = (length (ob # obs), 0, s')"
    using ob(3) c(1) s'(1) by (cases "exec_cancel env answer (ord_id ob) s") auto
  moreover have "oms_orders s' = (\<lambda>k. if k \<in> ord_id ` set (ob # obs)
      then map_option (\<lambda>ob. ob\<lparr>ord_status := Cancelled, ord_updated := env_t0 env\<rparr>) (oms_orders s k) else oms_orders s k)"
  proof
    fix k
    show "oms_orders s' k = (if k \<in> ord_id ` set (ob # obs)
      then map_option (\<lambda>ob. ob\<lparr>ord_status := Cancelled, ord_updated := env_t0 env\<rparr>) (oms_orders s k) else oms_orders s k)"
      using Cons.prems(1) ob(1) unfolding s'(2) c(2) by (cases "k = ord_id ob") simp_all
  qed
  ultimately show ?case by blast
qed simp

text \<open>C9. Activating the kill switch with cancellation leaves no open order behind, when at most
  500 orders are open, every order is filed under its own non-empty id, and the exchange accepts
  the cancellations: each open order is attempted once, none fails, each ends Cancelled and the
  final orders keep their state.\<close>

theorem kill_switch_cancels_all:
  assumes "iterates ks (oms_orders s)"
    and "\<forall>k ob. oms_orders s k = Some ob \<longrightarrow> ord_id ob = k \<and> k \<noteq> [] \<and> (is_terminal (ord_status ob) \<or> cancellable s answer ob)"
    and "card {k. \<exists>ob. oms_orders s k = Some ob \<and> \<not> is_terminal (ord_status ob)} \<le> 500"
    and "\<not> ks_active k"
  shows "\<exists>st k' s'. activate_kill_switch env answer ks now auto_cancel reason True (k, s) =
      ((st, card {k. \<exists>ob. oms_orders s k = Some ob \<and> \<not> is_terminal (ord_status ob)}, 0), k', s') \<and>
    (\<forall>oid. oms_orders s' oid = (case oms_orders s oid of None \<Rightarrow> None
       | Some ob \<Rightarrow> Some (if is_terminal (ord_status ob) then ob
                        else ob\<lparr>ord_status := Cancelled, ord_updated := env_t0 env\<rparr>)))"
proof -
  let ?open = "\<lambda>ob. \<not> is_terminal (ord_status ob)"
  let ?l = "filter ?open (map_values ks (oms_orders s))"
  have ks: "distinct ks" "set ks = dom (oms_orders s)" using assms(1) by (simp_all add: iterates_def)
  have ids: "map ord_id (filter ?open (map_values ls (oms_orders s))) =
      filter (\<lambda>k. \<exists>ob. oms_orders s k = Some ob \<and> ?open ob) ls" for ls
    using assms(2) by (induction ls) (auto split: option.splits)
  have n: "length ?l = card {k. \<exists>ob. oms_orders s k = Some ob \<and> ?open ob}"
  proof -
    have "length ?l = length (map ord_id ?l)" by simp
    also have "\<dots> = card (set (filter (\<lambda>k. \<exists>ob. oms_orders s k = Some ob \<and> ?open ob) ks))"
      unfolding ids by (rule distinct_card [symmetric]) (simp add: ks(1))
    also have "set (filter (\<lambda>k. \<exists>ob. oms_orders s k = Some ob \<and> ?open ob) ks) = {k. \<exists>ob. oms_orders s k = Some ob \<and> ?open ob}"
      using ks(2) by auto
    finally show ?thesis .
  qed
  have l: "list_open_orders ks 500 s = ?l" using assms(3) n by (simp add: list_open_orders_def)
  have d: "distinct (map ord_id ?l)" unfolding ids using ks(1) by simp
  have "\<forall>ob \<in> set ?l. oms_orders s (ord_id ob) = Some ob \<and> cancellable s answer ob \<and> ord_id ob \<noteq> []"
    using assms(2) by (auto simp: set_map_values)
  from cancel_each_ok [OF d this, of env] obtain s' where
    s': "cancel_each env answer ?l s = (length ?l, 0, s')"
    "oms_orders s' = (\<lambda>k. if k \<in> ord_id ` set ?l
      then map_option (\<lambda>ob. ob\<lparr>ord_status := Cancelled, ord_updated := env_t0 env\<rparr>) (oms_orders s k) else oms_orders s k)"
    by blast
  have mem: "oid \<in> ord_id ` set ?l \<longleftrightarrow> (\<exists>ob. oms_orders s oid = Some ob \<and> ?open ob)" for oid
    using arg_cong [OF ids [of ks], of set] ks(2) by auto
  have "oms_orders s' oid = (case oms_orders s oid of None \<Rightarrow> None
       | Some ob \<Rightarrow> Some (if is_terminal (ord_status ob) then ob
                        else ob\<lparr>ord_status := Cancelled, ord_updated := env_t0 env\<rparr>))" for oid
    unfolding s'(2) mem by (auto split: option.splits)
  with assms(4) s'(1) n show ?thesis
    by (auto simp: activate_kill_switch_def Let_def cancel_all_open_orders_def l)
qed

theorem kill_switch_cancels_all_witness:
  "\<exists>s'. (\<exists>st k'. activate_kill_switch env_ex (\<lambda>_. None) [''o1''] 7 False ''halt'' True (kill_switch_off, submitted_oms_ex) =
      ((st, 1, 0), k', s')) \<and> map_option ord_status (oms_orders s' ''o1'') = Some Cancelled"
proof -
  let ?o = "oms_order_ex\<lparr>ord_status := Submitted, ord_exchange_id := ''x7''\<rparr>"
  have o1: "oms_orders submitted_oms_ex = [''o1'' \<mapsto> ?o]"
    by (simp add: submitted_oms_ex_def oms_ex_def new_oms_def oms_order_ex_def)
  have c: "cancellable submitted_oms_ex (\<lambda>_. None) ?o"
    by (simp add: cancellable_def has_executor_def submitted_oms_ex_def oms_ex_def new_oms_def oms_order_ex_def market_valid_def)
  have "{k. \<exists>ob. oms_orders submitted_oms_ex k = Some ob \<and> \<not> is_terminal (ord_status ob)} = {''o1''}"
    by (auto simp: o1 split: if_splits)
  note s = this
  have "\<exists>st k' s'. activate_kill_switch env_ex (\<lambda>_. None) [''o1''] 7 False ''halt'' True (kill_switch_off, submitted_oms_ex) =
      ((st, card {''o1''}, 0), k', s') \<and>
    (\<forall>oid. oms_orders s' oid = (case oms_orders submitted_oms_ex oid of None \<Rightarrow> None
       | Some ob \<Rightarrow> Some (if is_terminal (ord_status ob) then ob
                        else ob\<lparr>ord_status := Cancelled, ord_updated := env_t0 env_ex\<rparr>)))"
    by (rule kill_switch_cancels_all [where ks = "[''o1'']" and s = submitted_oms_ex and k = kill_switch_off
          and answer = "\<lambda>_. None", unfolded s])
       (use c in \<open>auto simp: o1 iterates_def kill_switch_off_def oms_order_ex_def split: if_splits\<close>)
  then show ?thesis by (auto simp: o1)
qed

end
