(* ===== verification/CrashTracker.thy ===== *)
theory CrashTracker
  imports GoFloat
begin

text \<open>
  The crash bookkeeping behind the automatic restart (\<open>internal/app/engine/restart.go\<close>): the crash
  times of a strategy, their pruning to a window, and the exponential backoff. A slice and its
  backing array are both modelled: \<open>pruneCrashTimes\<close> filters in place, so that a caller which
  drops the returned slice still sees the overwritten array through its own slice.
\<close>

record restart_settings =
  rs_enabled :: bool
  rs_max_crashes :: int
  rs_crash_window :: duration
  rs_initial_backoff :: duration
  rs_max_backoff :: duration
  rs_multiplier :: int

definition default_restart_settings :: restart_settings where
  "default_restart_settings =
     \<lparr>rs_enabled = True, rs_max_crashes = 3, rs_crash_window = 300 * second,
      rs_initial_backoff = 3 * second, rs_max_backoff = 60 * second, rs_multiplier = 2\<rparr>"

subsection \<open>Crash times\<close>

type_synonym crash_times = "string \<rightharpoonup> go_time list"

definition times_of :: "crash_times \<Rightarrow> string \<Rightarrow> go_time list" where
  "times_of ct name = (case ct name of None \<Rightarrow> [] | Some ts \<Rightarrow> ts)"

definition record_crash :: "string \<Rightarrow> go_time \<Rightarrow> crash_times \<Rightarrow> crash_times" where
  "record_crash name t ct = ct(name \<mapsto> times_of ct name @ [t])"

text \<open>The slice the function returns, and the contents of the argument's slice afterwards.\<close>

definition prune_crash_times :: "go_time list \<Rightarrow> duration \<Rightarrow> go_time \<Rightarrow> go_time list \<times> go_time list" where
  "prune_crash_times ts window now =
     (if window \<le> 0 \<or> length ts = 0 then (ts, ts)
      else let out = filter (\<lambda>t. \<not> t < now - window) ts
           in (out, out @ drop (length out) ts))"

definition prune_and_count :: "string \<Rightarrow> duration \<Rightarrow> go_time \<Rightarrow> crash_times \<Rightarrow> int \<times> crash_times" where
  "prune_and_count name window now ct =
     (let out = fst (prune_crash_times (times_of ct name) window now)
      in (int (length out), ct(name \<mapsto> out)))"

definition count_in_window :: "string \<Rightarrow> duration \<Rightarrow> go_time \<Rightarrow> crash_times \<Rightarrow> int \<times> crash_times" where
  "count_in_window name window now ct =
     (case prune_crash_times (times_of ct name) window now of
        (out, rest) \<Rightarrow> (int (length out), if ct name = None then ct else ct(name \<mapsto> rest)))"

text \<open>\<open>circuitOpen\<close>: the answer and the tracker after the count.\<close>

definition circuit_open :: "restart_settings \<Rightarrow> string \<Rightarrow> go_time \<Rightarrow> crash_times \<Rightarrow> bool \<times> crash_times" where
  "circuit_open cfg name now ct =
     (case count_in_window name (rs_crash_window cfg) now ct of
        (n, ct') \<Rightarrow> (rs_max_crashes cfg \<le> n, ct'))"

definition record_strategy_crash :: "restart_settings \<Rightarrow> string \<Rightarrow> go_time \<Rightarrow> crash_times \<Rightarrow> int \<times> crash_times" where
  "record_strategy_crash cfg name now ct =
     prune_and_count name (rs_crash_window cfg) now (record_crash name now ct)"

subsection \<open>Backoff\<close>

text \<open>\<open>Duration.Seconds\<close> of a duration that is not negative.\<close>

definition dur_seconds :: "duration \<Rightarrow> go_float" where
  "dur_seconds d = fadd (f64 (of_int (d div second))) (fdiv_by (f64 (of_int (d mod second))) (10 ^ 9))"

definition compute_backoff :: "(go_float \<Rightarrow> int) \<Rightarrow> restart_settings \<Rightarrow> nat \<Rightarrow> duration" where
  "compute_backoff impl cfg attempt =
     (if rs_initial_backoff cfg \<le> 0 then 0
      else let mult = (if rs_multiplier cfg \<le> 0 then 2 else rs_multiplier cfg);
               secs = dur_seconds (rs_initial_backoff cfg);
               grown = ((\<lambda>s. fmul s (f64 (of_int mult))) ^^ attempt) secs;
               capped = (if 0 < rs_max_backoff cfg
                         then fmin grown (dur_seconds (rs_max_backoff cfg)) else grown)
           in to_int64 impl (fmul capped (Fin (10 ^ 9))))"

lemma dur_seconds_whole:
  assumes "0 \<le> k" "k < 2 ^ 53"
  shows "dur_seconds (k * second) = Fin (of_int k)"
  using f64_int [OF assms] by (simp add: dur_seconds_def second_def fdiv_by_def f64_def [of 0])

lemma grown_mono:
  assumes "is_f64 x" "nonneg_le x x" "1 \<le> m" "a \<le> b"
  shows "nonneg_le (((\<lambda>s. fmul s (Fin m)) ^^ a) x) (((\<lambda>s. fmul s (Fin m)) ^^ b) x)"
proof -
  have inv: "is_f64 (((\<lambda>s. fmul s (Fin m)) ^^ n) x) \<and>
      nonneg_le (((\<lambda>s. fmul s (Fin m)) ^^ n) x) (((\<lambda>s. fmul s (Fin m)) ^^ n) x)" for n
    using assms(1-3) by (induction n) (auto simp: is_f64_fmul intro: fmul_mono)
  show ?thesis
    using assms(4)
  proof (induction rule: dec_induct)
    case base
    then show ?case using inv by blast
  next
    case (step n)
    have "nonneg_le (((\<lambda>s. fmul s (Fin m)) ^^ n) x) (((\<lambda>s. fmul s (Fin m)) ^^ Suc n) x)"
      using fmul_grows [of _ m] inv [of n] assms(3) by simp
    then show ?case using step.IH nonneg_le_trans by blast
  qed
qed

lemma to_int64_whole:
  assumes "nonneg_le x (Fin (of_int m))" "m < 2 ^ 63"
  shows "0 \<le> to_int64 impl x \<and> to_int64 impl x \<le> m"
proof -
  obtain q where q: "x = Fin q" "0 \<le> q" "q \<le> of_int m" using assms(1) by (cases x) auto
  then have "0 \<le> \<lfloor>q\<rfloor>" "\<lfloor>q\<rfloor> \<le> m" by (simp_all add: floor_le_iff)
  then show ?thesis using q assms(2) by (simp add: to_int64_def)
qed

lemma to_int64_mono:
  assumes "nonneg_le x y" "nonneg_le y (Fin (of_int m))" "m < 2 ^ 63"
  shows "to_int64 impl x \<le> to_int64 impl y"
proof -
  obtain p q where q: "x = Fin p" "y = Fin q" "0 \<le> p" "p \<le> q" "q \<le> of_int m"
    using assms(1,2) by (cases x; cases y) auto
  then have "0 \<le> \<lfloor>p\<rfloor>" "\<lfloor>q\<rfloor> \<le> m" by (simp_all add: floor_le_iff)
  moreover have "\<lfloor>p\<rfloor> \<le> \<lfloor>q\<rfloor>" using q by (intro floor_mono)
  moreover note q
  ultimately have "0 \<le> \<lfloor>p\<rfloor>" "\<lfloor>p\<rfloor> \<le> \<lfloor>q\<rfloor>" "\<lfloor>q\<rfloor> \<le> m" "0 \<le> q" by auto
  then show ?thesis using q assms(3) by (simp add: to_int64_def)
qed

lemma to_int64_of_int: "0 \<le> k \<Longrightarrow> k < 2 ^ 63 \<Longrightarrow> to_int64 impl (Fin (of_int k)) = k"
  by (simp add: to_int64_def)

text \<open>With whole seconds configured, the delay is a capped geometric growth, in floats.\<close>

definition capped_growth :: "int \<Rightarrow> int \<Rightarrow> int \<Rightarrow> nat \<Rightarrow> go_float" where
  "capped_growth k i m n =
     fmul (fmin (((\<lambda>s. fmul s (Fin (of_int k))) ^^ n) (Fin (of_int i))) (Fin (of_int m))) (Fin (10 ^ 9))"

lemma compute_backoff_capped:
  assumes "rs_initial_backoff cfg = i * second" "rs_max_backoff cfg = m * second"
    and "0 < i" "i \<le> m" "m * second < 2 ^ 53" and "rs_multiplier cfg < 2 ^ 53"
  defines "k \<equiv> (if rs_multiplier cfg \<le> 0 then 2 else rs_multiplier cfg)"
  shows "1 \<le> k \<and> compute_backoff impl cfg n = to_int64 impl (capped_growth k i m n)"
proof -
  have k: "f64 (of_int k) = Fin (of_int k)" "1 \<le> k"
    using f64_int [of k] assms(6) by (auto simp: k_def)
  have im: "0 < m" "m < 2 ^ 53" "i < 2 ^ 53" using assms(3-5) by (auto simp: second_def)
  have i: "dur_seconds (rs_initial_backoff cfg) = Fin (of_int i)"
    and mx: "dur_seconds (rs_max_backoff cfg) = Fin (of_int m)"
    unfolding assms(1,2) using dur_seconds_whole im assms(3) by simp_all
  show ?thesis
    using im k(2) assms(1-3)
    unfolding compute_backoff_def capped_growth_def Let_def k_def [symmetric] k(1) i mx
    by (simp add: second_def)
qed

lemma capped_growth_mono:
  assumes "0 < i" "i < 2 ^ 53" "0 < m" "1 \<le> k" "a \<le> b"
  shows "nonneg_le (capped_growth k i m a) (capped_growth k i m b)"
proof -
  have "is_f64 (Fin (of_int i))" using f64_int [of i] assms(1,2) by (simp add: is_f64_def)
  then show ?thesis
    unfolding capped_growth_def using assms by (intro fmul_mono fmin_mono grown_mono) auto
qed

lemma capped_growth_cap:
  assumes "0 < i" "i < 2 ^ 53" "1 \<le> k" "0 < m" "m * second < 2 ^ 53"
  shows "nonneg_le (capped_growth k i m n) (Fin (of_int (m * second)))"
proof -
  let ?g = "((\<lambda>s. fmul s (Fin (of_int k))) ^^ n) (Fin (of_int i))"
  have "is_f64 (Fin (of_int i))" using f64_int [of i] assms(1,2) by (simp add: is_f64_def)
  then have "nonneg_le ?g ?g" using assms by (intro grown_mono) auto
  then have "nonneg_le (fmin ?g (Fin (of_int m))) (Fin (of_int m))"
    using assms by (intro fmin_le) auto
  then have "nonneg_le (capped_growth k i m n) (fmul (Fin (of_int m)) (Fin (10 ^ 9)))"
    unfolding capped_growth_def by (intro fmul_mono) auto
  moreover have "f64 (of_int m * 10 ^ 9) = Fin (of_int (m * second))"
    using f64_int [of "m * second"] assms by (simp add: second_def)
  ultimately show ?thesis by (simp only: fmul.simps)
qed

lemma capped_growth_first:
  assumes "0 < i" "i \<le> m" "m * second < 2 ^ 53"
  shows "capped_growth k i m 0 = Fin (of_int (i * second))"
proof -
  have "fmin (Fin (of_int i)) (Fin (of_int m)) = Fin (of_int i)"
    using assms(2) by (simp add: fmin_def)
  moreover have "f64 (of_int i * 10 ^ 9) = Fin (of_int (i * second))"
    using f64_int [of "i * second"] assms by (simp add: second_def)
  ultimately show ?thesis by (simp add: capped_growth_def)
qed

text \<open>The facts a configuration with whole seconds gives.\<close>

lemma backoff_facts:
  assumes "rs_initial_backoff cfg = i * second" "rs_max_backoff cfg = m * second"
    and "0 < i" "i \<le> m" "m * second < 2 ^ 53" and "rs_multiplier cfg < 2 ^ 53"
  shows backoff_first: "compute_backoff impl cfg 0 = i * second"
    and backoff_mono: "a \<le> b \<Longrightarrow> compute_backoff impl cfg a \<le> compute_backoff impl cfg b"
    and backoff_range: "0 \<le> compute_backoff impl cfg b \<and> compute_backoff impl cfg b \<le> m * second"
proof -
  obtain k where k: "1 \<le> k"
      and b: "\<And>n. compute_backoff impl cfg n = to_int64 impl (capped_growth k i m n)"
    using compute_backoff_capped [OF assms] by blast
  have im: "0 < m" "i < 2 ^ 53" using assms(3-5) by (auto simp: second_def)
  have small: "m * second < 2 ^ 63" using assms(5) by simp
  have cap: "nonneg_le (capped_growth k i m n) (Fin (of_int (m * second)))" for n
    by (rule capped_growth_cap [OF assms(3) im(2) k im(1) assms(5)])
  show "compute_backoff impl cfg 0 = i * second"
    unfolding b capped_growth_first [OF assms(3-5)] using assms(3-5)
    by (intro to_int64_of_int) (simp_all add: second_def)
  show "a \<le> b \<Longrightarrow> compute_backoff impl cfg a \<le> compute_backoff impl cfg b"
    unfolding b by (rule to_int64_mono [OF capped_growth_mono [OF assms(3) im(2,1) k] cap small])
  show "0 \<le> compute_backoff impl cfg b \<and> compute_backoff impl cfg b \<le> m * second"
    unfolding b by (rule to_int64_whole [OF cap small])
qed

text \<open>With whole seconds configured and a cap that is not below the initial delay, the delay of
  the first restart is the initial one, a later attempt never waits less than an earlier one, and
  no attempt waits longer than the cap; this holds through the float64 arithmetic of the code,
  overflow to infinity included.\<close>

theorem backoff_schedule:
  assumes "rs_initial_backoff cfg = i * second" "rs_max_backoff cfg = m * second"
    and "0 < i" "i \<le> m" "m * second < 2 ^ 53" and "rs_multiplier cfg < 2 ^ 53"
  shows "compute_backoff impl cfg 0 = rs_initial_backoff cfg \<and>
    (a \<le> b \<longrightarrow> compute_backoff impl cfg a \<le> compute_backoff impl cfg b) \<and>
    0 \<le> compute_backoff impl cfg b \<and> compute_backoff impl cfg b \<le> rs_max_backoff cfg"
  using backoff_first [OF assms] backoff_mono [OF assms] backoff_range [OF assms] assms(1,2) by auto

theorem backoff_schedule_witness:
  "compute_backoff (\<lambda>_. 0) default_restart_settings 1 \<le> compute_backoff (\<lambda>_. 0) default_restart_settings 7 \<and>
   compute_backoff (\<lambda>_. 0) default_restart_settings 7 \<le> 60 * second"
  using backoff_schedule [of default_restart_settings 3 60 "\<lambda>_. 0" 1 7]
  by (simp add: default_restart_settings_def second_def)

subsection \<open>The counts\<close>

lemma times_of_upd [simp]: "times_of (ct(n \<mapsto> ts)) m = (if m = n then ts else times_of ct m)"
  by (simp add: times_of_def)

lemma times_of_prune_and_count:
  "times_of (snd (prune_and_count n w now ct)) m =
     (if m = n then fst (prune_crash_times (times_of ct n) w now) else times_of ct m)"
  by (simp add: prune_and_count_def Let_def)

lemma times_of_count_in_window:
  "times_of (snd (count_in_window n w now ct)) m =
     (if m = n then snd (prune_crash_times (times_of ct n) w now) else times_of ct m)"
  by (auto simp: count_in_window_def times_of_def prune_crash_times_def Let_def split: option.splits)

lemma fst_count_in_window:
  "fst (count_in_window n w now ct) = int (length (fst (prune_crash_times (times_of ct n) w now)))"
  by (simp add: count_in_window_def case_prod_beta)

definition since :: "go_time \<Rightarrow> go_time list \<Rightarrow> nat" where
  "since c ts = length (filter (\<lambda>t. c \<le> t) ts)"

lemma since_append [simp]: "since c (xs @ ys) = since c xs + since c ys"
  by (simp add: since_def)

lemma since_prune:
  assumes "now - w \<le> c"
  shows "since c ts \<le> since c (fst (prune_crash_times ts w now))"
    and "since c ts \<le> since c (snd (prune_crash_times ts w now))"
    and "since c ts \<le> length (fst (prune_crash_times ts w now))"
proof -
  have f: "filter (\<lambda>t. \<not> t < now - w \<and> c \<le> t) ts = filter (\<lambda>t. c \<le> t) ts"
    using assms by (intro filter_cong) auto
  then show a: "since c ts \<le> since c (fst (prune_crash_times ts w now))"
    and "since c ts \<le> since c (snd (prune_crash_times ts w now))"
    by (auto simp: prune_crash_times_def since_def Let_def)
  have "since c xs \<le> length xs" for xs by (simp add: since_def)
  with a show "since c ts \<le> length (fst (prune_crash_times ts w now))"
    using le_trans by blast
qed

text \<open>The operations the engine performs on the tracker, with the history of all recorded crashes
  and the time of the last operation.\<close>

inductive tracker_step :: "duration \<Rightarrow> (string \<Rightarrow> go_time list) \<times> go_time \<times> crash_times \<Rightarrow>
    (string \<Rightarrow> go_time list) \<times> go_time \<times> crash_times \<Rightarrow> bool" for w where
  crash: "clk \<le> now \<Longrightarrow>
    tracker_step w (H, clk, ct) (H(n := H n @ [now]), now, snd (prune_and_count n w now (record_crash n now ct)))"
| count: "clk \<le> now \<Longrightarrow> tracker_step w (H, clk, ct) (H, now, snd (count_in_window n w now ct))"

definition tracker_inv :: "duration \<Rightarrow> (string \<Rightarrow> go_time list) \<times> go_time \<times> crash_times \<Rightarrow> bool" where
  "tracker_inv w = (\<lambda>(H, clk, ct). \<forall>n c. clk - w \<le> c \<longrightarrow> since c (H n) \<le> since c (times_of ct n))"

lemma tracker_inv_step: "tracker_step w s s' \<Longrightarrow> tracker_inv w s \<Longrightarrow> tracker_inv w s'"
proof (induction rule: tracker_step.induct)
  case (crash clk now H ct n)
  show ?case
  proof (simp add: tracker_inv_def times_of_prune_and_count record_crash_def, intro conjI impI allI)
    fix c assume c: "now - w \<le> c"
    have "since c (H n @ [now]) \<le> since c (times_of ct n @ [now])"
      using crash c by (simp add: tracker_inv_def)
    also have "\<dots> \<le> since c (fst (prune_crash_times (times_of ct n @ [now]) w now))"
      by (rule since_prune(1) [OF c])
    finally show "since c (H n) + since c [now] \<le> since c (fst (prune_crash_times (times_of ct n @ [now]) w now))"
      by simp
  qed (use crash in \<open>auto simp: tracker_inv_def\<close>)
next
  case (count clk now H ct n)
  show ?case
  proof (simp add: tracker_inv_def times_of_count_in_window, intro conjI impI allI)
    fix c assume c: "now - w \<le> c"
    have "since c (H n) \<le> since c (times_of ct n)" using count c by (simp add: tracker_inv_def)
    also have "\<dots> \<le> since c (snd (prune_crash_times (times_of ct n) w now))"
      by (rule since_prune(2) [OF c])
    finally show "since c (H n) \<le> since c (snd (prune_crash_times (times_of ct n) w now))" .
  qed (use count in \<open>auto simp: tracker_inv_def\<close>)
qed

lemma tracker_inv_reach:
  assumes "(tracker_step w)\<^sup>*\<^sup>* (\<lambda>_. [], t0, Map.empty) s"
  shows "tracker_inv w s"
  using assms
proof (induction rule: rtranclp_induct)
  case base
  then show ?case by (simp add: tracker_inv_def since_def [of _ "[]"])
next
  case (step s s')
  then show ?case by (blast intro: tracker_inv_step)
qed

text \<open>C23. The circuit breaker never misses a crash: whatever crashes were recorded and counts taken
  before, if the window now holds the configured maximum of recorded crashes of a strategy, its
  circuit is open.\<close>

theorem circuit_never_misses:
  assumes "(tracker_step (rs_crash_window cfg))\<^sup>*\<^sup>* (\<lambda>_. [], t0, Map.empty) (H, clk, ct)" and "clk \<le> now"
    and "rs_max_crashes cfg \<le> int (length (filter (\<lambda>t. now - rs_crash_window cfg \<le> t) (H name)))"
  shows "fst (circuit_open cfg name now ct)"
proof -
  let ?w = "rs_crash_window cfg"
  have "rs_max_crashes cfg \<le> int (since (now - ?w) (H name))" using assms(3) by (simp add: since_def)
  also have "since (now - ?w) (H name) \<le> since (now - ?w) (times_of ct name)"
    using tracker_inv_reach [OF assms(1)] assms(2) by (simp add: tracker_inv_def)
  also have "\<dots> \<le> length (fst (prune_crash_times (times_of ct name) ?w now))"
    by (rule since_prune(3)) simp
  finally show ?thesis
    by (simp add: circuit_open_def case_prod_beta fst_count_in_window)
qed

theorem circuit_never_misses_witness:
  "fst (circuit_open (default_restart_settings\<lparr>rs_max_crashes := 2\<rparr>) ''s'' (400 * second)
     (snd (record_strategy_crash default_restart_settings ''s'' (350 * second)
       (snd (record_strategy_crash default_restart_settings ''s'' (200 * second) Map.empty)))))"
proof -
  let ?w = "rs_crash_window default_restart_settings"
  let ?c1 = "snd (record_strategy_crash default_restart_settings ''s'' (200 * second) Map.empty)"
  let ?H1 = "(\<lambda>_. [])(''s'' := [200 * second])" and ?H2 = "(\<lambda>_. [])(''s'' := [200 * second, 350 * second])"
  have "tracker_step ?w (\<lambda>_. [], 0, Map.empty) (?H1, 200 * second, ?c1)"
    using tracker_step.crash [of 0 "200 * second" ?w "\<lambda>_. []" Map.empty "''s''"]
    by (simp add: record_strategy_crash_def second_def)
  moreover have "tracker_step ?w (?H1, 200 * second, ?c1) (?H2, 350 * second,
      snd (record_strategy_crash default_restart_settings ''s'' (350 * second) ?c1))"
    using tracker_step.crash [of "200 * second" "350 * second" ?w ?H1 ?c1 "''s''"]
    by (simp add: record_strategy_crash_def second_def)
  ultimately have r: "(tracker_step (rs_crash_window (default_restart_settings\<lparr>rs_max_crashes := 2\<rparr>)))\<^sup>*\<^sup>*
      (\<lambda>_. [], 0, Map.empty) (?H2, 350 * second,
        snd (record_strategy_crash default_restart_settings ''s'' (350 * second) ?c1))" by simp
  show ?thesis
    by (rule circuit_never_misses [OF r]) (simp_all add: default_restart_settings_def second_def)
qed

text \<open>Reading the count changes it: with \<open>n\<close> crashes inside the window behind \<open>k\<close> older ones,
  \<open>countInWindow\<close> answers \<open>n\<close> and then, asked again at the same instant with no crash in
  between, \<open>n + min k n\<close>: the in-place filter leaves copies of recent crashes where the old ones
  were.\<close>

theorem second_count_inflated:
  assumes "ct name = Some (old @ new)" and "0 < w"
    and "\<forall>t \<in> set old. t < now - w" and "\<forall>t \<in> set new. now - w \<le> t"
  shows "fst (count_in_window name w now ct) = int (length new) \<and>
    fst (count_in_window name w now (snd (count_in_window name w now ct))) =
      int (length new + min (length old) (length new))"
proof (cases "old @ new = []")
  case False
  have f: "filter (\<lambda>t. \<not> t < now - w) old = []" "filter (\<lambda>t. \<not> t < now - w) new = new"
    using assms(3,4) by (auto simp: filter_empty_conv filter_id_conv)
  have p: "prune_crash_times (old @ new) w now = (new, new @ drop (length new) (old @ new))"
    using False assms(2) f by (simp add: prune_crash_times_def)
  have t: "times_of ct name = old @ new" using assms(1) by (simp add: times_of_def)
  have "filter (\<lambda>t. \<not> t < now - w) (drop n old) = []" "filter (\<lambda>t. \<not> t < now - w) (drop n new) = drop n new" for n
    using assms(3,4) by (auto simp: filter_empty_conv filter_id_conv dest!: in_set_dropD)
  then have d: "filter (\<lambda>t. \<not> t < now - w) (drop (length new) (old @ new)) = drop (length new - length old) new"
    by simp
  have "fst (prune_crash_times (new @ drop (length new) (old @ new)) w now) =
      new @ drop (length new - length old) new"
    using assms(2) f(2) d by (auto simp: prune_crash_times_def)
  then show ?thesis
    by (simp add: fst_count_in_window times_of_count_in_window t p)
next
  case True
  then have "times_of ct name = []" using assms(1) by (simp add: times_of_def)
  then show ?thesis
    using True by (simp add: fst_count_in_window times_of_count_in_window prune_crash_times_def)
qed

theorem second_count_inflated_witness:
  "fst (count_in_window ''s'' 300 310 [''s'' \<mapsto> [0, 200]]) = 1 \<and>
   fst (count_in_window ''s'' 300 310 (snd (count_in_window ''s'' 300 310 [''s'' \<mapsto> [0, 200]]))) = 2"
  using second_count_inflated [of "[''s'' \<mapsto> [0, 200]]" "''s''" "[0]" "[200]" 300 310] by simp

end
