(* ===== verification/Lifecycle.thy ===== *)
theory Lifecycle
  imports StrategyConfig CrashTracker MarketRouter
begin

text \<open>
  The life of strategy processes: \<open>launchStrategy\<close>, \<open>StartStrategy\<close>, \<open>StopStrategy\<close>,
  \<open>handleProcessExit\<close>, \<open>monitorHeartbeat\<close> (\<open>engine.go\<close>), the automatic restart (\<open>restart.go\<close>) and
  the market subscriptions they manage (\<open>market_dispatch.go\<close>). A process is an identity and the
  strategy it was spawned for; what the operating system, the pipe to the process, the REST
  history and the exchange answer are arguments of the operations.
\<close>

subsection \<open>State\<close>

record runtime =
  rt_id :: nat
  rt_strategy :: strategy_cfg

record lifecycle =
  lc_catalog :: catalog
  lc_feeds :: "market \<rightharpoonup> router"
  lc_procs :: "string \<rightharpoonup> runtime"
  lc_next :: nat
  lc_intervals :: "string \<rightharpoonup> string"
  lc_crashes :: crash_times
  lc_attempts :: "string \<rightharpoonup> nat"
  lc_pending :: "string \<rightharpoonup> go_time"
  lc_killed :: bool
  lc_closed :: bool
  lc_restart :: restart_settings
  lc_default_interval :: string

record launch_env =
  le_exchange :: "subscription list \<Rightarrow> go_error option"
  le_spawn :: "go_error option"
  le_init :: "go_error option"
  le_rest :: "contract \<Rightarrow> string \<Rightarrow> int \<Rightarrow> candle option list result"
  le_send_history :: "history_payload \<Rightarrow> go_error option"

record unsub_env =
  ue_exchange :: "subscription list \<Rightarrow> go_error option"
  ue_order1 :: "candle_key list"
  ue_order2 :: "candle_key list"

definition feed_market :: "market \<Rightarrow> market" where
  "feed_market m = (if market_valid m then m else Perp)"

definition feed_for :: "lifecycle \<Rightarrow> market \<Rightarrow> router option" where
  "feed_for lc m = (if \<not> market_valid m then None else lc_feeds lc m)"

definition catalog_market :: "lifecycle \<Rightarrow> string \<Rightarrow> market" where
  "catalog_market lc name =
     (case lc_catalog lc name of None \<Rightarrow> Perp
      | Some st \<Rightarrow> if market_valid (st_market st) then st_market st else Perp)"

definition contracts_to_strings :: "string list \<Rightarrow> string list" where
  "contracts_to_strings ss = filter (\<lambda>s. s \<noteq> []) (map trim_space ss)"

subsection \<open>Subscriptions\<close>

definition subscribe_strategy ::
  "(subscription list \<Rightarrow> go_error option) \<Rightarrow> strategy_cfg \<Rightarrow> string \<Rightarrow> lifecycle \<Rightarrow>
   go_error option \<times> lifecycle" where
  "subscribe_strategy exch st iv lc =
     (let mk = feed_market (st_market st)
      in case feed_for lc mk of
           None \<Rightarrow> (Some (Errorf (''market '' @ quoted (market_str mk) @ '' not registered for strategy ''
                                  @ quoted (st_name st))), lc)
         | Some mr \<Rightarrow>
             let (err, mr') = subscribe_contracts exch (st_name st)
                   (contracts_to_strings (st_symbols st)) iv (st_subscribe_ticker st) mr
             in (err, lc\<lparr>lc_feeds := (lc_feeds lc)(mk \<mapsto> mr')\<rparr>))"

text \<open>The error of \<open>Unsubscribe\<close> is dropped.\<close>

definition unsubscribe_strategy :: "unsub_env \<Rightarrow> string \<Rightarrow> lifecycle \<Rightarrow> lifecycle" where
  "unsubscribe_strategy ue name lc =
     (let mk = catalog_market lc name
      in case feed_for lc mk of
           None \<Rightarrow> lc
         | Some mr \<Rightarrow> lc\<lparr>lc_feeds := (lc_feeds lc)(mk \<mapsto>
             snd (unsubscribe_all (ue_exchange ue) (ue_order1 ue) (ue_order2 ue) name mr))\<rparr>)"

subsection \<open>Launch and stop\<close>

text \<open>The engine's \<open>warmupHistory\<close>: the history buffer of the router is filled before the payload
  is sent to the process.\<close>

definition warmup_strategy :: "launch_env \<Rightarrow> strategy_cfg \<Rightarrow> string \<Rightarrow> lifecycle \<Rightarrow> go_error option \<times> lifecycle" where
  "warmup_strategy le st iv lc =
     (if st_history_bars st \<le> 0 then (None, lc)
      else let mk = feed_market (st_market st)
           in case feed_for lc mk of
                None \<Rightarrow> (Some (Errorf (''market '' @ quoted (market_str mk)
                           @ '' not registered for strategy '' @ quoted (st_name st))), lc)
              | Some mr \<Rightarrow>
                  let (payload, hist) = warmup_history (le_rest le) (contracts_to_strings (st_symbols st)) iv
                        (st_history_bars st) (mr_hist mr);
                      lc1 = lc\<lparr>lc_feeds := (lc_feeds lc)(mk \<mapsto> mr\<lparr>mr_hist := hist\<rparr>)\<rparr>
                  in case payload of None \<Rightarrow> (None, lc1) | Some p \<Rightarrow> (le_send_history le p, lc1))"

definition launch_strategy :: "launch_env \<Rightarrow> strategy_cfg \<Rightarrow> lifecycle \<Rightarrow> go_error option \<times> lifecycle" where
  "launch_strategy le st lc =
     (case resolve_interval (st_interval st) (lc_default_interval lc) of
        Inl e \<Rightarrow> (Some (Wrapf (''strategy '' @ quoted (st_name st) @ '': '') e), lc)
      | Inr iv \<Rightarrow>
        (case subscribe_strategy (le_exchange le) st iv lc of
           (Some e, lc1) \<Rightarrow> (Some (Wrapf (''failed to subscribe strategy '' @ quoted (st_name st) @ '': '') e), lc1)
         | (None, lc1) \<Rightarrow>
           if lc_procs lc1 (st_name st) \<noteq> None then (None, lc1)
           else (case le_spawn le of
             Some e \<Rightarrow> (Some (Wrapf ''failed to create strategy process: '' e), lc1)
           | None \<Rightarrow>
             let lc2 = lc1\<lparr>lc_procs := (lc_procs lc1)(st_name st \<mapsto> \<lparr>rt_id = lc_next lc1, rt_strategy = st\<rparr>),
                           lc_next := lc_next lc1 + 1\<rparr>
             in case le_init le of
                  Some e \<Rightarrow> (Some (Wrapf ''failed to send init message: '' e), lc2)
                | None \<Rightarrow> (case warmup_strategy le st iv lc2 of
                    (Some e, lc3) \<Rightarrow> (Some (Wrapf (''failed to send history for strategy ''
                                            @ quoted (st_name st) @ '': '') e), lc3)
                  | (None, lc3) \<Rightarrow>
                      (None, lc3\<lparr>lc_intervals := (lc_intervals lc3)(st_name st \<mapsto> iv)\<rparr>)))))"

definition start_strategy :: "launch_env \<Rightarrow> strategy_cfg \<Rightarrow> lifecycle \<Rightarrow> go_error option \<times> lifecycle" where
  "start_strategy le st lc =
     launch_strategy le st (lc\<lparr>lc_attempts := (lc_attempts lc)(st_name st := None)\<rparr>)"

definition start_strategy_by_name ::
  "launch_env \<Rightarrow> string \<Rightarrow> lifecycle \<Rightarrow> go_error option \<times> lifecycle" where
  "start_strategy_by_name le name lc =
     (case lc_catalog lc name of
        None \<Rightarrow> (Some (Errorf (''strategy not found: '' @ name)), lc)
      | Some st \<Rightarrow> start_strategy le st lc)"

text \<open>\<open>stop_err\<close> is the answer of the process's own \<open>Stop\<close>.\<close>

definition stop_strategy ::
  "unsub_env \<Rightarrow> go_error option \<Rightarrow> string \<Rightarrow> lifecycle \<Rightarrow> go_error option \<times> lifecycle" where
  "stop_strategy ue stop_err name lc =
     (case lc_procs lc name of
        None \<Rightarrow> (Some (Errorf (''strategy not found: '' @ name)), lc)
      | Some _ \<Rightarrow>
        let lc1 = lc\<lparr>lc_procs := (lc_procs lc)(name := None)\<rparr>;
            lc2 = unsubscribe_strategy ue name lc1
        in (stop_err, lc2\<lparr>lc_intervals := (lc_intervals lc2)(name := None)\<rparr>))"

text \<open>The names are those registered when the loop starts.\<close>

definition stop_all_strategies ::
  "(string \<Rightarrow> unsub_env) \<Rightarrow> (string \<Rightarrow> go_error option) \<Rightarrow> string list \<Rightarrow> lifecycle \<Rightarrow> lifecycle" where
  "stop_all_strategies ue stop_err names lc =
     fold (\<lambda>n l. snd (stop_strategy (ue n) (stop_err n) n l)) names lc"

subsection \<open>Crashes and the automatic restart\<close>

definition should_auto_restart :: "string \<Rightarrow> strategy_cfg option \<Rightarrow> go_time \<Rightarrow> lifecycle \<Rightarrow> bool \<times> lifecycle" where
  "should_auto_restart name sto now lc =
     (if lc_closed lc then (False, lc)
      else if \<not> rs_enabled (lc_restart lc) then (False, lc)
      else if lc_killed lc then (False, lc)
      else if (case sto of None \<Rightarrow> True | Some st \<Rightarrow> \<not> st_enabled st) then (False, lc)
      else let (opened, ct) = circuit_open (lc_restart lc) name now (lc_crashes lc)
           in (\<not> opened, lc\<lparr>lc_crashes := ct\<rparr>))"

text \<open>The answer says whether a restart is scheduled. The runtime that exited only contributes its
  name.\<close>

definition handle_process_exit ::
  "unsub_env \<Rightarrow> runtime \<Rightarrow> go_time \<Rightarrow> lifecycle \<Rightarrow> strategy_cfg option \<times> lifecycle" where
  "handle_process_exit ue rt now lc =
     (let name = st_name (rt_strategy rt)
      in case lc_procs lc name of
           None \<Rightarrow> (None, lc)
         | Some _ \<Rightarrow>
           let lc1 = unsubscribe_strategy ue name (lc\<lparr>lc_procs := (lc_procs lc)(name := None)\<rparr>);
               (n, ct) = record_strategy_crash (lc_restart lc1) name now (lc_crashes lc1);
               lc2 = lc1\<lparr>lc_crashes := ct\<rparr>
           in if lc_closed lc2 then (None, lc2)
              else if \<not> rs_enabled (lc_restart lc2) then (None, lc2)
              else if lc_killed lc2 then (None, lc2)
              else if rs_max_crashes (lc_restart lc2) \<le> n then (None, lc2)
              else (case lc_catalog lc2 name of
                  None \<Rightarrow> (None, lc2)
                | Some st \<Rightarrow> if \<not> st_enabled st then (None, lc2) else (Some st, lc2)))"

text \<open>One tick of \<open>monitorHeartbeat\<close>: the backoff is reset while the window holds no crash, and a
  heartbeat older than 30 seconds counts as an exit.\<close>

definition heartbeat_tick ::
  "unsub_env \<Rightarrow> runtime \<Rightarrow> go_time \<Rightarrow> go_time \<Rightarrow> lifecycle \<Rightarrow> strategy_cfg option \<times> lifecycle" where
  "heartbeat_tick ue rt beat now lc =
     (let name = st_name (rt_strategy rt);
          (n, ct) = count_in_window name (rs_crash_window (lc_restart lc)) now (lc_crashes lc);
          lc1 = lc\<lparr>lc_crashes := ct\<rparr>;
          lc2 = (if n = 0 then lc1\<lparr>lc_attempts := (lc_attempts lc1)(name := None)\<rparr> else lc1)
      in if 30 * second < now - beat then handle_process_exit ue rt now lc2 else (None, lc2))"

text \<open>The restart goroutine. Between two of its steps other goroutines run: \<open>ra_world\<close> is what
  they did to the state before an attempt.\<close>

record restart_attempt =
  ra_world :: "lifecycle \<Rightarrow> lifecycle"
  ra_now :: go_time
  ra_launch :: launch_env
  ra_failed_at :: go_time
  ra_checked_at :: go_time

datatype restart_outcome = NotAllowed | Restarted | CircuitOpened | Abandoned

definition max_restart_failures :: nat where
  "max_restart_failures = 3"

fun restart_loop ::
  "string \<Rightarrow> strategy_cfg \<Rightarrow> nat \<Rightarrow> (nat \<Rightarrow> restart_attempt) \<Rightarrow> lifecycle \<Rightarrow> restart_outcome \<times> lifecycle" where
  "restart_loop name st 0 ra lc = (Abandoned, lc)"
| "restart_loop name st (Suc left) ra lc =
     (let a = ra left; lc0 = ra_world a lc
      in if lc_closed lc0 then (NotAllowed, lc0)
         else case should_auto_restart name (Some st) (ra_now a) lc0 of
           (False, lc1) \<Rightarrow> (NotAllowed, lc1)
         | (True, lc1) \<Rightarrow> (case launch_strategy (ra_launch a) st lc1 of
             (None, lc2) \<Rightarrow>
               (Restarted, lc2\<lparr>lc_attempts := (lc_attempts lc2)(name \<mapsto>
                  (case lc_attempts lc2 name of None \<Rightarrow> 0 | Some k \<Rightarrow> k) + 1)\<rparr>)
           | (Some e, lc2) \<Rightarrow>
               let ct3 = snd (record_strategy_crash (lc_restart lc2) name (ra_failed_at a) (lc_crashes lc2));
                   (opened, ct4) = circuit_open (lc_restart lc2) name (ra_checked_at a) ct3;
                   lc4 = lc2\<lparr>lc_crashes := ct4\<rparr>
               in if opened then (CircuitOpened, lc4) else restart_loop name st left ra lc4))"

text \<open>The delay the goroutine sleeps first, with the pending restart it announces, and what it does
  when it wakes.\<close>

definition restart_delay :: "(go_float \<Rightarrow> int) \<Rightarrow> string \<Rightarrow> go_time \<Rightarrow> lifecycle \<Rightarrow> duration \<times> lifecycle" where
  "restart_delay impl name now lc =
     (let attempt = (case lc_attempts lc name of None \<Rightarrow> 0 | Some k \<Rightarrow> k);
          backoff = compute_backoff impl (lc_restart lc) attempt
      in (backoff, lc\<lparr>lc_pending := (lc_pending lc)(name \<mapsto> now + backoff)\<rparr>))"

definition restart_wake ::
  "string \<Rightarrow> strategy_cfg \<Rightarrow> go_time \<Rightarrow> (nat \<Rightarrow> restart_attempt) \<Rightarrow> lifecycle \<Rightarrow> restart_outcome \<times> lifecycle" where
  "restart_wake name st now ra lc =
     (let (out, lc') =
        (if lc_closed lc then (NotAllowed, lc)
         else case should_auto_restart name (Some st) now lc of
           (False, lc1) \<Rightarrow> (NotAllowed, lc1)
         | (True, lc1) \<Rightarrow> restart_loop name st max_restart_failures ra lc1)
      in (out, lc'\<lparr>lc_pending := (lc_pending lc')(name := None)\<rparr>))"

definition pending_restart_nanos :: "string \<Rightarrow> go_time \<Rightarrow> lifecycle \<Rightarrow> duration" where
  "pending_restart_nanos name now lc =
     (case lc_pending lc name of None \<Rightarrow> 0
      | Some t \<Rightarrow> if t - now < 0 then 0 else t - now)"

subsection \<open>Subscriptions follow the processes\<close>

lemma set_of_subscribe_one:
  "set_of (mr_candle (fst (subscribe_one name iv push c st)) (d, i)) =
     set_of (mr_candle (fst st) (d, i)) \<union> (if i = iv \<and> d = c then {name} else {})"
  by (cases st) (auto simp: subscribe_one_fst)

lemma set_of_subscribe_all:
  "set_of (mr_candle (fst (fold (subscribe_one name iv push) cs st)) (d, i)) =
     set_of (mr_candle (fst st) (d, i)) \<union> (if i = iv \<and> d \<in> set cs then {name} else {})"
  by (induction cs arbitrary: st) (auto simp: set_of_subscribe_one)

lemma set_of_subscribe_contracts:
  "set_of (mr_candle (snd (subscribe_contracts exch name cs iv push mr)) (d, i)) =
     set_of (mr_candle mr (d, i)) \<union> (if i = iv \<and> d \<in> set cs then {name} else {})"
  by (simp add: snd_subscribe_contracts set_of_subscribe_all)

definition subscribed :: "router \<Rightarrow> strategy_cfg \<Rightarrow> string \<Rightarrow> bool" where
  "subscribed mr st iv \<longleftrightarrow>
     (\<forall>c \<in> set (contracts_to_strings (st_symbols st)). st_name st \<in> set_of (mr_candle mr (c, iv)))"

text \<open>Every registered process is filed under the name of its strategy, and its strategy is
  subscribed, on the router of its market, to the bars of one allowed interval for each of its
  symbols.\<close>

definition running_ok :: "lifecycle \<Rightarrow> bool" where
  "running_ok lc \<longleftrightarrow>
     (\<forall>name rt. lc_procs lc name = Some rt \<longrightarrow>
        st_name (rt_strategy rt) = name \<and>
        (\<exists>mr iv. feed_for lc (feed_market (st_market (rt_strategy rt))) = Some mr \<and>
           iv \<in> set allowed_intervals \<and> subscribed mr (rt_strategy rt) iv))"

text \<open>A change of the feeds that keeps the subscriptions of the registered strategies.\<close>

definition feeds_keep :: "string set \<Rightarrow> lifecycle \<Rightarrow> lifecycle \<Rightarrow> bool" where
  "feeds_keep names lc lc' \<longleftrightarrow>
     (\<forall>m mr. feed_for lc m = Some mr \<longrightarrow> (\<exists>mr'. feed_for lc' m = Some mr' \<and>
        (\<forall>k. set_of (mr_candle mr k) \<inter> names \<subseteq> set_of (mr_candle mr' k))))"

lemma running_ok_mono:
  assumes "running_ok lc" "feeds_keep (dom (lc_procs lc')) lc lc'" "lc_procs lc' \<subseteq>\<^sub>m lc_procs lc"
  shows "running_ok lc'"
  unfolding running_ok_def
proof (intro allI impI)
  fix name rt assume p: "lc_procs lc' name = Some rt"
  then have "lc_procs lc name = Some rt" using assms(3) by (auto simp: map_le_def dom_def)
  then obtain mr iv where ok: "st_name (rt_strategy rt) = name"
      "feed_for lc (feed_market (st_market (rt_strategy rt))) = Some mr"
      "iv \<in> set allowed_intervals" "subscribed mr (rt_strategy rt) iv"
    using assms(1) unfolding running_ok_def by blast
  then obtain mr' where "feed_for lc' (feed_market (st_market (rt_strategy rt))) = Some mr'"
      and k: "\<forall>k. set_of (mr_candle mr k) \<inter> dom (lc_procs lc') \<subseteq> set_of (mr_candle mr' k)"
    using assms(2) unfolding feeds_keep_def by blast
  moreover have "subscribed mr' (rt_strategy rt) iv"
    using ok(1,4) k p unfolding subscribed_def by blast
  ultimately show "st_name (rt_strategy rt) = name \<and>
      (\<exists>mr iv. feed_for lc' (feed_market (st_market (rt_strategy rt))) = Some mr \<and>
         iv \<in> set allowed_intervals \<and> subscribed mr (rt_strategy rt) iv)"
    using ok(1,3) by blast
qed

lemma feeds_keep_refl: "lc_feeds lc' = lc_feeds lc \<Longrightarrow> feeds_keep names lc lc'"
  by (auto simp: feeds_keep_def feed_for_def)

lemma feeds_keep_upd:
  assumes "feed_for lc m = Some mr" "lc_feeds lc' = (lc_feeds lc)(m \<mapsto> mr')"
    and "\<And>k. set_of (mr_candle mr k) \<inter> names \<subseteq> set_of (mr_candle mr' k)"
  shows "feeds_keep names lc lc'"
  using assms by (auto simp: feeds_keep_def feed_for_def split: if_splits)

lemma feeds_keepE:
  assumes "feeds_keep N a b" "feed_for a m = Some mr"
  obtains mr' where "feed_for b m = Some mr'"
    "\<And>k. set_of (mr_candle mr k) \<inter> N \<subseteq> set_of (mr_candle mr' k)"
  using assms unfolding feeds_keep_def by blast

lemma feeds_keep_trans:
  assumes "feeds_keep N a b" "feeds_keep N b c"
  shows "feeds_keep N a c"
  unfolding feeds_keep_def
proof (intro allI impI)
  fix m mr assume "feed_for a m = Some mr"
  then obtain mr' where mr': "feed_for b m = Some mr'"
      "\<And>k. set_of (mr_candle mr k) \<inter> N \<subseteq> set_of (mr_candle mr' k)"
    using feeds_keepE [OF assms(1)] by blast
  obtain mr'' where "feed_for c m = Some mr''"
      "\<And>k. set_of (mr_candle mr' k) \<inter> N \<subseteq> set_of (mr_candle mr'' k)"
    using feeds_keepE [OF assms(2) mr'(1)] by blast
  with mr'(2) show "\<exists>mr'. feed_for c m = Some mr' \<and>
      (\<forall>k. set_of (mr_candle mr k) \<inter> N \<subseteq> set_of (mr_candle mr' k))" by blast
qed

lemma subscribe_strategy_feeds:
  assumes "subscribe_strategy exch st iv lc = (err, lc')"
  shows "feeds_keep names lc lc'" and "lc_procs lc' = lc_procs lc"
    and "err = None \<Longrightarrow> \<exists>mr. feed_for lc' (feed_market (st_market st)) = Some mr \<and> subscribed mr st iv"
proof -
  let ?m = "feed_market (st_market st)"
  have "feeds_keep names lc lc' \<and> lc_procs lc' = lc_procs lc \<and>
      (err = None \<longrightarrow> (\<exists>mr. feed_for lc' ?m = Some mr \<and> subscribed mr st iv))"
  proof (cases "feed_for lc ?m")
    case None
    then show ?thesis using assms by (auto simp: subscribe_strategy_def feeds_keep_refl)
  next
    case (Some mr)
    let ?mr = "snd (subscribe_contracts exch (st_name st) (contracts_to_strings (st_symbols st)) iv
        (st_subscribe_ticker st) mr)"
    have lc': "lc' = lc\<lparr>lc_feeds := (lc_feeds lc)(?m \<mapsto> ?mr)\<rparr>"
      using assms Some by (auto simp: subscribe_strategy_def case_prod_beta)
    have "feeds_keep names lc lc'"
      by (rule feeds_keep_upd [OF Some, of _ ?mr]) (auto simp: lc' set_of_subscribe_contracts)
    moreover have "feed_for lc' ?m = Some ?mr" using Some by (simp add: lc' feed_for_def split: if_splits)
    moreover have "subscribed ?mr st iv" by (simp add: subscribed_def set_of_subscribe_contracts)
    ultimately show ?thesis by (auto simp: lc')
  qed
  then show "feeds_keep names lc lc'" and "lc_procs lc' = lc_procs lc"
    and "err = None \<Longrightarrow> \<exists>mr. feed_for lc' ?m = Some mr \<and> subscribed mr st iv" by auto
qed

lemma warmup_strategy_feeds:
  assumes "warmup_strategy le st iv lc = (err, lc')"
  shows "feeds_keep names lc lc'" and "lc_procs lc' = lc_procs lc"
proof -
  have "feeds_keep names lc lc' \<and> lc_procs lc' = lc_procs lc"
  proof (cases "st_history_bars st \<le> 0 \<or> feed_for lc (feed_market (st_market st)) = None")
    case True
    then show ?thesis using assms by (auto simp: warmup_strategy_def feeds_keep_refl split: if_splits)
  next
    case False
    then obtain mr where mr: "feed_for lc (feed_market (st_market st)) = Some mr" by auto
    then obtain h where lc': "lc' = lc\<lparr>lc_feeds := (lc_feeds lc)(feed_market (st_market st) \<mapsto> mr\<lparr>mr_hist := h\<rparr>)\<rparr>"
      using assms False
      by (auto simp: warmup_strategy_def Let_def case_prod_beta split: option.splits)
    have "feeds_keep names lc lc'"
      by (rule feeds_keep_upd [OF mr, of _ "mr\<lparr>mr_hist := h\<rparr>"]) (auto simp: lc')
    then show ?thesis by (simp add: lc')
  qed
  then show "feeds_keep names lc lc'" and "lc_procs lc' = lc_procs lc" by auto
qed

lemma running_ok_upd [simp]:
  "running_ok (lc\<lparr>lc_intervals := x\<rparr>) = running_ok lc"
  "running_ok (lc\<lparr>lc_crashes := ct\<rparr>) = running_ok lc"
  "running_ok (lc\<lparr>lc_attempts := a\<rparr>) = running_ok lc"
  "running_ok (lc\<lparr>lc_pending := b\<rparr>) = running_ok lc"
  "running_ok (lc\<lparr>lc_killed := c\<rparr>) = running_ok lc"
  "running_ok (lc\<lparr>lc_catalog := d\<rparr>) = running_ok lc"
  by (simp_all add: running_ok_def feed_for_def)

lemma feed_market_valid [simp]: "market_valid (feed_market m)"
  by (simp add: feed_market_def market_valid_def)

lemma running_ok_register:
  assumes ok: "running_ok lc" and f: "feed_for lc (feed_market (st_market st)) = Some mr"
    and sub: "subscribed mr st iv" "iv \<in> set allowed_intervals"
  shows "running_ok (lc\<lparr>lc_procs := (lc_procs lc)(st_name st \<mapsto> \<lparr>rt_id = i, rt_strategy = st\<rparr>), lc_next := n\<rparr>)"
    (is "running_ok ?lc")
  unfolding running_ok_def
proof (intro allI impI)
  fix name rt assume p: "lc_procs ?lc name = Some rt"
  have feeds: "feed_for ?lc m = feed_for lc m" for m by (simp add: feed_for_def)
  show "st_name (rt_strategy rt) = name \<and>
      (\<exists>mr iv. feed_for ?lc (feed_market (st_market (rt_strategy rt))) = Some mr \<and>
         iv \<in> set allowed_intervals \<and> subscribed mr (rt_strategy rt) iv)"
  proof (cases "name = st_name st")
    case True
    then have "rt_strategy rt = st" "st_name st = name" using p by auto
    then show ?thesis using f sub unfolding feeds by blast
  next
    case False
    then have "lc_procs lc name = Some rt" using p by simp
    then show ?thesis using ok unfolding running_ok_def feeds by blast
  qed
qed

text \<open>The stages of a launch.\<close>

lemma launch_cases:
  assumes "launch_strategy le st lc = (err, lc')"
  obtains (bad_interval) e where "resolve_interval (st_interval st) (lc_default_interval lc) = Inl e"
      "lc' = lc" "err \<noteq> None"
  | (refused) e iv where "resolve_interval (st_interval st) (lc_default_interval lc) = Inr iv"
      "subscribe_strategy (le_exchange le) st iv lc = (Some e, lc')" "err \<noteq> None"
  | (running) iv where "resolve_interval (st_interval st) (lc_default_interval lc) = Inr iv"
      "subscribe_strategy (le_exchange le) st iv lc = (None, lc')" "lc_procs lc' (st_name st) \<noteq> None" "err = None"
  | (no_process) iv e where "resolve_interval (st_interval st) (lc_default_interval lc) = Inr iv"
      "subscribe_strategy (le_exchange le) st iv lc = (None, lc')" "lc_procs lc' (st_name st) = None"
      "le_spawn le = Some e" "err \<noteq> None"
  | (spawned) iv lc1 lc2 err2 lc3 where "resolve_interval (st_interval st) (lc_default_interval lc) = Inr iv"
      "subscribe_strategy (le_exchange le) st iv lc = (None, lc1)" "lc_procs lc1 (st_name st) = None"
      "lc2 = lc1\<lparr>lc_procs := (lc_procs lc1)(st_name st \<mapsto> \<lparr>rt_id = lc_next lc1, rt_strategy = st\<rparr>),
                 lc_next := lc_next lc1 + 1\<rparr>"
      "le_spawn le = None"
      "le_init le \<noteq> None \<and> err \<noteq> None \<and> lc' = lc2 \<or>
       le_init le = None \<and> warmup_strategy le st iv lc2 = (err2, lc3) \<and> (err = None \<longleftrightarrow> err2 = None) \<and>
       lc' = (if err2 = None then lc3\<lparr>lc_intervals := (lc_intervals lc3)(st_name st \<mapsto> iv)\<rparr> else lc3)"
proof (cases "resolve_interval (st_interval st) (lc_default_interval lc)")
  case (Inl e)
  note l = assms [unfolded launch_strategy_def Inl sum.case]
  then have "lc' = lc" "err \<noteq> None" by auto
  then show ?thesis using bad_interval [OF Inl] by blast
next
  case (Inr iv)
  obtain r lc1 where sub: "subscribe_strategy (le_exchange le) st iv lc = (r, lc1)"
    by (cases "subscribe_strategy (le_exchange le) st iv lc")
  note l = assms [unfolded launch_strategy_def Inr sum.case sub prod.case]
  show ?thesis
  proof (cases r)
    case (Some e)
    then have "lc' = lc1" "err \<noteq> None" using l by auto
    then show ?thesis using refused [OF Inr] sub Some by blast
  next
    case None
    note l = l [unfolded None option.case]
    show ?thesis
    proof (cases "lc_procs lc1 (st_name st) \<noteq> None")
      case True
      then have "lc' = lc1" "err = None" using l by auto
      then show ?thesis using running [OF Inr] sub None True by blast
    next
      case np: False
      note l = l [unfolded if_not_P [OF np]]
      show ?thesis
      proof (cases "le_spawn le")
        case (Some e)
        then have "lc' = lc1" "err \<noteq> None" using l by auto
        then show ?thesis using no_process [OF Inr] sub None np Some by blast
      next
        case sp: None
        define lc2 where "lc2 = lc1\<lparr>lc_procs := (lc_procs lc1)(st_name st \<mapsto> \<lparr>rt_id = lc_next lc1, rt_strategy = st\<rparr>),
                 lc_next := lc_next lc1 + 1\<rparr>"
        obtain err2 lc3 where w: "warmup_strategy le st iv lc2 = (err2, lc3)"
          by (cases "warmup_strategy le st iv lc2")
        note l = l [unfolded sp option.case Let_def lc2_def [symmetric] w prod.case]
        have "le_init le \<noteq> None \<and> err \<noteq> None \<and> lc' = lc2 \<or>
          le_init le = None \<and> warmup_strategy le st iv lc2 = (err2, lc3) \<and> (err = None \<longleftrightarrow> err2 = None) \<and>
          lc' = (if err2 = None then lc3\<lparr>lc_intervals := (lc_intervals lc3)(st_name st \<mapsto> iv)\<rparr> else lc3)"
          using l w by (cases "le_init le"; cases err2) auto
        then show ?thesis using Inr sub None np sp by (intro spawned [of iv lc1 lc2 err2 lc3]) (auto simp: lc2_def)
      qed
    qed
  qed
qed

lemma running_ok_launch:
  assumes ok: "running_ok lc" and l: "launch_strategy le st lc = (err, lc')"
  shows "running_ok lc'"
proof -
  have sub: "running_ok lc1" if "subscribe_strategy (le_exchange le) st iv lc = (r, lc1)" for iv r lc1
    using running_ok_mono [OF ok subscribe_strategy_feeds(1) [OF that]] subscribe_strategy_feeds(2) [OF that]
    by simp
  from l show ?thesis
  proof (cases rule: launch_cases)
    case (spawned iv lc1 lc2 err2 lc3)
    obtain mr where "feed_for lc1 (feed_market (st_market st)) = Some mr" "subscribed mr st iv"
      using subscribe_strategy_feeds(3) [OF spawned(2)] by auto
    then have ok2: "running_ok lc2"
      unfolding spawned(4) using resolve_interval_allowed [OF spawned(1)]
      by (intro running_ok_register [OF sub [OF spawned(2)]])
    then have "running_ok lc3" if "warmup_strategy le st iv lc2 = (err2, lc3)"
      using running_ok_mono [OF ok2 warmup_strategy_feeds(1) [OF that]] warmup_strategy_feeds(2) [OF that]
      by simp
    then show ?thesis
      using spawned(6) ok2 by (auto split: if_splits)
  qed (use ok sub in auto)
qed

definition orders_ok :: "unsub_env \<Rightarrow> string \<Rightarrow> lifecycle \<Rightarrow> bool" where
  "orders_ok ue name lc \<longleftrightarrow>
     (\<forall>mr. feed_for lc (catalog_market lc name) = Some mr \<longrightarrow>
        iterates (ue_order1 ue) (mr_candle mr) \<and> iterates (ue_order2 ue) (mr_candle mr))"

lemma unsubscribe_strategy_feeds:
  assumes "orders_ok ue name lc"
  shows "feeds_keep (- {name}) lc (unsubscribe_strategy ue name lc)"
    and "lc_procs (unsubscribe_strategy ue name lc) = lc_procs lc"
proof -
  show "lc_procs (unsubscribe_strategy ue name lc) = lc_procs lc"
    by (simp add: unsubscribe_strategy_def Let_def split: option.split)
  show "feeds_keep (- {name}) lc (unsubscribe_strategy ue name lc)"
  proof (cases "feed_for lc (catalog_market lc name)")
    case None
    then show ?thesis by (simp add: unsubscribe_strategy_def feeds_keep_refl)
  next
    case (Some mr)
    then have it: "iterates (ue_order1 ue) (mr_candle mr)" "iterates (ue_order2 ue) (mr_candle mr)"
      using assms by (auto simp: orders_ok_def)
    show ?thesis
      by (rule feeds_keep_upd [OF Some, of _ "snd (unsubscribe_all (ue_exchange ue) (ue_order1 ue) (ue_order2 ue) name mr)"])
        (auto simp: unsubscribe_strategy_def Some unsubscribe_all_eq [OF it])
  qed
qed

text \<open>A process leaves: the common part of a stop and an exit.\<close>

lemma running_ok_leave:
  assumes "running_ok lc" "orders_ok ue name lc"
  shows "running_ok (unsubscribe_strategy ue name (lc\<lparr>lc_procs := (lc_procs lc)(name := None)\<rparr>))"
proof -
  let ?lc = "lc\<lparr>lc_procs := (lc_procs lc)(name := None)\<rparr>"
  let ?lc' = "unsubscribe_strategy ue name ?lc"
  have o: "orders_ok ue name ?lc" using assms(2) by (simp add: orders_ok_def feed_for_def catalog_market_def)
  have p: "lc_procs ?lc' = (lc_procs lc)(name := None)" using unsubscribe_strategy_feeds(2) [OF o] by simp
  have "feeds_keep (- {name}) lc ?lc'"
    using feeds_keep_trans [OF feeds_keep_refl unsubscribe_strategy_feeds(1) [OF o]] by simp
  then have "feeds_keep (dom (lc_procs ?lc')) lc ?lc'"
    unfolding p feeds_keep_def by (fastforce simp: dom_def)
  then show ?thesis
    by (rule running_ok_mono [OF assms(1)]) (auto simp: p map_le_def)
qed

lemma running_ok_stop:
  assumes "running_ok lc" "orders_ok ue name lc"
  shows "running_ok (snd (stop_strategy ue stop_err name lc))"
proof (cases "lc_procs lc name")
  case (Some rt)
  then show ?thesis
    using running_ok_leave [OF assms] by (simp add: stop_strategy_def Let_def)
qed (use assms in \<open>simp add: stop_strategy_def\<close>)

lemma exit_eq:
  fixes ue :: unsub_env and now :: go_time
  assumes "lc_procs lc (st_name (rt_strategy rt)) = Some rt'"
  defines "name \<equiv> st_name (rt_strategy rt)"
  defines "lc1 \<equiv> unsubscribe_strategy ue name (lc\<lparr>lc_procs := (lc_procs lc)(name := None)\<rparr>)"
  defines "nc \<equiv> record_strategy_crash (lc_restart lc) name now (lc_crashes lc)"
  shows "handle_process_exit ue rt now lc =
    ((if \<not> lc_closed lc \<and> rs_enabled (lc_restart lc) \<and> \<not> lc_killed lc \<and> fst nc < rs_max_crashes (lc_restart lc)
      then case lc_catalog lc name of None \<Rightarrow> None | Some st \<Rightarrow> if st_enabled st then Some st else None
      else None), lc1\<lparr>lc_crashes := snd nc\<rparr>)"
proof -
  have f: "lc_restart lc1 = lc_restart lc" "lc_crashes lc1 = lc_crashes lc" "lc_closed lc1 = lc_closed lc"
    "lc_killed lc1 = lc_killed lc" "lc_catalog lc1 = lc_catalog lc"
    unfolding lc1_def by (auto simp: unsubscribe_strategy_def Let_def split: option.split)
  show ?thesis
    using assms(1) unfolding handle_process_exit_def name_def [symmetric] Let_def
    by (auto simp: lc1_def [symmetric] f nc_def case_prod_beta split: option.split)
qed

lemma running_ok_exit:
  assumes "running_ok lc" "orders_ok ue (st_name (rt_strategy rt)) lc"
  shows "running_ok (snd (handle_process_exit ue rt now lc))"
proof (cases "lc_procs lc (st_name (rt_strategy rt))")
  case (Some rt')
  show ?thesis
    using running_ok_leave [OF assms] by (simp add: exit_eq [OF Some])
qed (use assms in \<open>simp add: handle_process_exit_def\<close>)

subsection \<open>Runs\<close>

inductive lifecycle_step :: "lifecycle \<Rightarrow> lifecycle \<Rightarrow> bool" where
  start: "lifecycle_step lc (snd (start_strategy le st lc))"
| relaunch: "lifecycle_step lc (snd (launch_strategy le st lc))"
| stop: "orders_ok ue name lc \<Longrightarrow> lifecycle_step lc (snd (stop_strategy ue stop_err name lc))"
| exit: "orders_ok ue (st_name (rt_strategy rt)) lc \<Longrightarrow>
    lifecycle_step lc (snd (handle_process_exit ue rt now lc))"
| beat: "orders_ok ue (st_name (rt_strategy rt)) lc \<Longrightarrow>
    lifecycle_step lc (snd (heartbeat_tick ue rt beat now lc))"
| event: "feed_for lc m = Some mr \<Longrightarrow>
    lifecycle_step lc (lc\<lparr>lc_feeds := (lc_feeds lc)(m \<mapsto> on_public_event names ev mr)\<rparr>)"
| reload: "lifecycle_step lc (lc\<lparr>lc_catalog := cat\<rparr>)"
| kill: "lifecycle_step lc (lc\<lparr>lc_killed := b\<rparr>)"

inductive_cases lifecycle_stepE: "lifecycle_step lc lc'"

lemma orders_ok_upd [simp]:
  "orders_ok ue name (lc\<lparr>lc_crashes := ct\<rparr>) = orders_ok ue name lc"
  "orders_ok ue name (lc\<lparr>lc_crashes := ct, lc_attempts := a\<rparr>) = orders_ok ue name lc"
  by (simp_all add: orders_ok_def feed_for_def catalog_market_def)

lemma running_ok_beat:
  assumes "running_ok lc" "orders_ok ue (st_name (rt_strategy rt)) lc"
  shows "running_ok (snd (heartbeat_tick ue rt beat now lc))"
  using assms by (auto simp: heartbeat_tick_def Let_def case_prod_beta intro!: running_ok_exit)

lemma running_ok_event:
  assumes "running_ok lc" "feed_for lc m = Some mr"
  shows "running_ok (lc\<lparr>lc_feeds := (lc_feeds lc)(m \<mapsto> on_public_event names ev mr)\<rparr>)"
  using on_public_event_subs [of names ev mr]
  by (intro running_ok_mono [OF assms(1)] feeds_keep_upd [OF assms(2)]) auto

lemma running_ok_step: "lifecycle_step lc lc' \<Longrightarrow> running_ok lc \<Longrightarrow> running_ok lc'"
proof (induction rule: lifecycle_step.induct)
  case (start lc le st)
  show ?case
    using running_ok_launch [OF _ prod.collapse [symmetric]] start by (simp add: start_strategy_def)
next
  case (relaunch lc le st)
  then show ?case using running_ok_launch [OF _ prod.collapse [symmetric]] by blast
qed (simp_all add: running_ok_stop running_ok_exit running_ok_beat running_ok_event)

text \<open>C19. In every state that starts, automatic restarts, stops, process exits, heartbeat checks,
  market events, catalogue reloads and the kill switch can produce from a state without processes,
  every registered process is filed under its strategy's name, and the strategy is subscribed on
  the router of its market, for each of its symbols, to the bars of one interval of the whitelist.\<close>

theorem running_strategies_subscribed:
  assumes "lifecycle_step\<^sup>*\<^sup>* lc0 lc" and "lc_procs lc0 = Map.empty"
  shows "running_ok lc"
  using assms
proof (induction rule: rtranclp_induct)
  case base
  then show ?case by (simp add: running_ok_def)
next
  case (step lc lc')
  then show ?case by (blast intro: running_ok_step)
qed

lemma subscribe_accepted:
  assumes "feed_for lc (feed_market (st_market st)) \<noteq> None"
  shows "fst (subscribe_strategy (\<lambda>_. None) st iv lc) = None"
  using assms
  by (auto simp: subscribe_strategy_def subscribe_contracts_def Let_def case_prod_beta split: option.splits)

definition strategy_ex :: strategy_cfg where
  "strategy_ex =
     \<lparr>st_name = ''ma'', st_enabled = True, st_symbols = ['' BTC/USDT''], st_interval = ''5m'',
      st_history_bars = 0, st_subscribe_ticker = True, st_market_name = [], st_risk = None,
      st_market = Perp, st_overrides = None\<rparr>"

definition lifecycle_ex :: lifecycle where
  "lifecycle_ex =
     \<lparr>lc_catalog = [''ma'' \<mapsto> strategy_ex], lc_feeds = [Perp \<mapsto> new_router], lc_procs = Map.empty,
      lc_next = 0, lc_intervals = Map.empty, lc_crashes = Map.empty, lc_attempts = Map.empty,
      lc_pending = Map.empty, lc_killed = False, lc_closed = False,
      lc_restart = default_restart_settings, lc_default_interval = ''1m''\<rparr>"

definition launch_ok :: launch_env where
  "launch_ok =
     \<lparr>le_exchange = (\<lambda>_. None), le_spawn = None, le_init = None, le_rest = (\<lambda>_ _ _. Inr []),
      le_send_history = (\<lambda>_. None)\<rparr>"

definition launch_no_init :: launch_env where
  "launch_no_init = launch_ok\<lparr>le_init := Some (Errorf ''broken pipe'')\<rparr>"

theorem running_strategies_subscribed_witness:
  "running_ok (snd (start_strategy launch_ok strategy_ex lifecycle_ex)) \<and>
   lc_procs (snd (start_strategy launch_ok strategy_ex lifecycle_ex)) ''ma'' \<noteq> None"
proof
  show "running_ok (snd (start_strategy launch_ok strategy_ex lifecycle_ex))"
    by (rule running_strategies_subscribed [OF r_into_rtranclp, OF lifecycle_step.start])
      (simp add: lifecycle_ex_def)
  show "lc_procs (snd (start_strategy launch_ok strategy_ex lifecycle_ex)) ''ma'' \<noteq> None" by code_simp
qed

text \<open>A process whose exit is handled is deregistered, its name loses every bar subscription
  of its market, one crash is recorded, and a restart is scheduled exactly when the engine runs,
  automatic restarts are enabled, the kill switch is off, the crashes of the window stay below the
  maximum and the catalogue holds the strategy as enabled. The runtime only contributes its name:
  the exit of an old process of that name removes the new one.\<close>

theorem process_exit_effect:
  assumes "lc_procs lc (st_name (rt_strategy rt)) = Some current"
    and "orders_ok ue (st_name (rt_strategy rt)) lc"
    and "handle_process_exit ue rt now lc = (sched, lc')"
    and "name = st_name (rt_strategy rt)"
    and "crashes = prune_crash_times (times_of (lc_crashes lc) name @ [now]) (rs_crash_window (lc_restart lc)) now"
  shows "lc_procs lc' = (lc_procs lc)(name := None) \<and>
    (\<forall>mr. feed_for lc' (catalog_market lc name) = Some mr \<longrightarrow> (\<forall>k. name \<notin> set_of (mr_candle mr k))) \<and>
    lc_crashes lc' = (lc_crashes lc)(name \<mapsto> fst crashes) \<and>
    (\<forall>st. sched = Some st \<longleftrightarrow>
       \<not> lc_closed lc \<and> rs_enabled (lc_restart lc) \<and> \<not> lc_killed lc \<and>
       int (length (fst crashes)) < rs_max_crashes (lc_restart lc) \<and>
       lc_catalog lc name = Some st \<and> st_enabled st)"
proof -
  let ?lc1 = "lc\<lparr>lc_procs := (lc_procs lc)(name := None)\<rparr>"
  let ?un = "unsubscribe_strategy ue name ?lc1"
  have o: "orders_ok ue name ?lc1"
    using assms(2,4) by (simp add: orders_ok_def feed_for_def catalog_market_def)
  have p: "lc_procs ?un = (lc_procs lc)(name := None)" using unsubscribe_strategy_feeds(2) [OF o] by simp
  have "name \<notin> set_of (mr_candle mr k)" if "feed_for ?un (catalog_market lc name) = Some mr" for mr k
    using that o unsubscribe_all_eq [of "ue_order1 ue" _ "ue_order2 ue"]
    by (auto simp: unsubscribe_strategy_def Let_def orders_ok_def feed_for_def catalog_market_def
        split: option.splits if_splits)
  moreover have r: "record_strategy_crash (lc_restart lc) name now (lc_crashes lc) =
      (int (length (fst crashes)), (lc_crashes lc)(name \<mapsto> fst crashes))"
    by (simp add: record_strategy_crash_def prune_and_count_def record_crash_def assms(5) Let_def)
  moreover note e = exit_eq [OF assms(1), of ue now, unfolded assms(3) assms(4) [symmetric]]
  ultimately show ?thesis
    using p by (auto simp: feed_for_def split: option.splits if_splits)
qed

definition runtime_ex :: "nat \<Rightarrow> runtime" where
  "runtime_ex n = \<lparr>rt_id = n, rt_strategy = strategy_ex\<rparr>"

definition no_unsub :: unsub_env where
  "no_unsub = \<lparr>ue_exchange = (\<lambda>_. None), ue_order1 = [], ue_order2 = []\<rparr>"

theorem process_exit_effect_witness:
  "\<exists>lc'. handle_process_exit no_unsub (runtime_ex 0) second (lifecycle_ex\<lparr>lc_procs := [''ma'' \<mapsto> runtime_ex 7]\<rparr>)
     = (Some strategy_ex, lc') \<and> lc_procs lc' ''ma'' = None"
proof -
  let ?lc = "lifecycle_ex\<lparr>lc_procs := [''ma'' \<mapsto> runtime_ex 7]\<rparr>"
  let ?crashes = "prune_crash_times (times_of (lc_crashes ?lc) ''ma'' @ [second]) (rs_crash_window (lc_restart ?lc)) second"
  obtain sched lc' where h: "handle_process_exit no_unsub (runtime_ex 0) second ?lc = (sched, lc')"
    by (cases "handle_process_exit no_unsub (runtime_ex 0) second ?lc")
  have n: "st_name (rt_strategy (runtime_ex 0)) = ''ma''" by (simp add: runtime_ex_def strategy_ex_def)
  have p: "lc_procs ?lc (st_name (rt_strategy (runtime_ex 0))) = Some (runtime_ex 7)" by (simp add: n)
  have o: "orders_ok no_unsub (st_name (rt_strategy (runtime_ex 0))) ?lc"
    unfolding n by (auto simp: orders_ok_def no_unsub_def lifecycle_ex_def feed_for_def catalog_market_def
        strategy_ex_def market_valid_def new_router_def)
  have c: "int (length (fst ?crashes)) < rs_max_crashes (lc_restart ?lc)" by code_simp
  from process_exit_effect [OF p o h n [symmetric] refl] c show ?thesis
    unfolding h by (auto simp: lifecycle_ex_def strategy_ex_def default_restart_settings_def)
qed

lemma launch_default_interval:
  assumes "launch_strategy le st lc = (err, lc')"
  shows "lc_default_interval lc' = lc_default_interval lc"
proof -
  have sub: "lc_default_interval lc1 = lc_default_interval lc"
    if "subscribe_strategy (le_exchange le) st iv lc = (r, lc1)" for iv r lc1
    using that by (auto simp: subscribe_strategy_def Let_def case_prod_beta split: option.splits)
  have w: "lc_default_interval lc3 = lc_default_interval lc2" if "warmup_strategy le st iv lc2 = (r, lc3)" for iv lc2 r lc3
    using that by (auto simp: warmup_strategy_def Let_def case_prod_beta split: option.splits if_splits)
  from assms show ?thesis
  proof (cases rule: launch_cases)
    case (spawned iv lc1 lc2 err2 lc3)
    have "lc_default_interval lc2 = lc_default_interval lc" using sub [OF spawned(2)] spawned(4) by simp
    then show ?thesis using spawned(6) w by (auto split: if_splits)
  qed (auto dest: sub)
qed

text \<open>C25. A launch that fails after the process was registered (its init message or its history
  could not be sent) is reported as an error, but the next launch of the same strategy answers
  success without sending anything to the process or recording its interval: the automatic
  restart's second attempt counts as a success.\<close>

theorem failed_launch_retried_as_success:
  assumes "launch_strategy le st lc = (Some e, lc')"
    and "lc_procs lc (st_name st) = None" and "lc_procs lc' (st_name st) = Some rt"
    and "le_exchange le2 = (\<lambda>_. None)"
  shows "\<exists>lc''. launch_strategy le2 st lc' = (None, lc'') \<and>
    lc_procs lc'' = lc_procs lc' \<and> lc_intervals lc'' = lc_intervals lc'"
  using assms(1)
proof (cases rule: launch_cases)
  case (spawned iv lc1 lc2 err2 lc3)
  obtain mr where f1: "feed_for lc1 (feed_market (st_market st)) = Some mr"
    using subscribe_strategy_feeds(3) [OF spawned(2)] by auto
  then have f2: "feed_for lc2 (feed_market (st_market st)) = Some mr" by (simp add: spawned(4) feed_for_def)
  have "feed_for lc' (feed_market (st_market st)) \<noteq> None"
  proof (cases "lc' = lc2")
    case False
    then have w: "warmup_strategy le st iv lc2 = (err2, lc')" using spawned(6) by (auto split: if_splits)
    show ?thesis using feeds_keepE [OF warmup_strategy_feeds(1) [OF w, of "{}"] f2] by auto
  qed (use f2 in simp)
  from subscribe_accepted [OF this, of iv] obtain lc4 where s: "subscribe_strategy (\<lambda>_. None) st iv lc' = (None, lc4)"
    by (cases "subscribe_strategy (\<lambda>_. None) st iv lc'") auto
  have p: "lc_procs lc4 = lc_procs lc'" by (rule subscribe_strategy_feeds(2) [OF s])
  have d: "lc_default_interval lc' = lc_default_interval lc" by (rule launch_default_interval [OF assms(1)])
  have "lc_intervals lc4 = lc_intervals lc'"
    using s by (auto simp: subscribe_strategy_def Let_def case_prod_beta split: option.splits)
  moreover have "launch_strategy le2 st lc' = (None, lc4)"
    using spawned(1) assms(3,4) s p d by (simp add: launch_strategy_def)
  ultimately show ?thesis using p by blast
qed (use assms(2,3) subscribe_strategy_feeds(2) in fastforce)+

theorem failed_launch_retried_as_success_witness:
  "\<exists>e lc' lc''. launch_strategy launch_no_init strategy_ex lifecycle_ex = (Some e, lc') \<and>
     launch_strategy launch_ok strategy_ex lc' = (None, lc'') \<and> lc_intervals lc'' ''ma'' = None"
proof -
  obtain err lc' where l: "launch_strategy launch_no_init strategy_ex lifecycle_ex = (err, lc')"
    by (cases "launch_strategy launch_no_init strategy_ex lifecycle_ex")
  have "fst (launch_strategy launch_no_init strategy_ex lifecycle_ex) \<noteq> None"
    and "lc_procs (snd (launch_strategy launch_no_init strategy_ex lifecycle_ex)) ''ma'' \<noteq> None"
    and i: "lc_intervals (snd (launch_strategy launch_no_init strategy_ex lifecycle_ex)) ''ma'' = None"
    by code_simp+
  then obtain e rt where e: "launch_strategy launch_no_init strategy_ex lifecycle_ex = (Some e, lc')"
      and r: "lc_procs lc' ''ma'' = Some rt" and i': "lc_intervals lc' ''ma'' = None"
    using l by auto
  have n: "st_name strategy_ex = ''ma''" by (simp add: strategy_ex_def)
  from failed_launch_retried_as_success [OF e, of rt launch_ok] r i' e show ?thesis
    unfolding n by (auto simp: lifecycle_ex_def launch_ok_def)
qed

text \<open>The restart goroutine only launches when the engine runs, restarts are enabled, the kill
  switch is off and the circuit is closed, each time for the strategy it was scheduled for.\<close>

definition launch_allowed :: "string \<Rightarrow> strategy_cfg \<Rightarrow> go_time \<Rightarrow> lifecycle \<Rightarrow> bool" where
  "launch_allowed name st now lc \<longleftrightarrow>
     \<not> lc_closed lc \<and> rs_enabled (lc_restart lc) \<and> \<not> lc_killed lc \<and> st_enabled st \<and>
     \<not> fst (circuit_open (lc_restart lc) name now (lc_crashes lc))"

lemma should_auto_restart_True:
  assumes "should_auto_restart name (Some st) now lc = (b, lc')"
  shows "b \<longleftrightarrow> launch_allowed name st now lc"
    and "\<exists>ct. lc' = lc\<lparr>lc_crashes := ct\<rparr>"
proof -
  have "\<exists>ct. lc = lc\<lparr>lc_crashes := ct\<rparr>" by (rule exI [of _ "lc_crashes lc"]) simp
  then show "b \<longleftrightarrow> launch_allowed name st now lc" and "\<exists>ct. lc' = lc\<lparr>lc_crashes := ct\<rparr>"
    using assms by (auto simp: should_auto_restart_def launch_allowed_def case_prod_beta split: if_splits)
qed

lemma restart_loop_restarted:
  assumes "restart_loop name st n ra lc = (Restarted, lc')"
  shows "\<exists>k < n. \<exists>lc0 ct lc2. launch_allowed name st (ra_now (ra k)) lc0 \<and>
    launch_strategy (ra_launch (ra k)) st (lc0\<lparr>lc_crashes := ct\<rparr>) = (None, lc2) \<and>
    lc_procs lc' = lc_procs lc2"
  using assms
proof (induction n arbitrary: lc)
  case (Suc n)
  let ?w = "ra_world (ra n) lc"
  obtain b lc1 where s: "should_auto_restart name (Some st) (ra_now (ra n)) ?w = (b, lc1)"
    by (cases "should_auto_restart name (Some st) (ra_now (ra n)) ?w")
  obtain err lc2 where l: "launch_strategy (ra_launch (ra n)) st lc1 = (err, lc2)"
    by (cases "launch_strategy (ra_launch (ra n)) st lc1")
  note r = Suc.prems [unfolded restart_loop.simps Let_def s prod.case l]
  have b: "b" using r by (auto split: if_splits bool.splits)
  show ?case
  proof (cases err)
    case None
    then have "lc_procs lc' = lc_procs lc2" using r b by (auto split: if_splits)
    then show ?thesis
      using should_auto_restart_True [OF s] b l None by (intro exI [of _ n]) blast
  next
    case (Some e)
    then obtain lc4 where "restart_loop name st n ra lc4 = (Restarted, lc')"
      using r b by (auto simp: case_prod_beta split: if_splits)
    from Suc.IH [OF this] show ?thesis by (blast intro: less_SucI)
  qed
qed simp


definition attempt_ex :: restart_attempt where
  "attempt_ex = \<lparr>ra_world = (\<lambda>l. l), ra_now = 0, ra_launch = launch_ok, ra_failed_at = 0, ra_checked_at = 0\<rparr>"


end
