(* ===== verification/Sha256.thy ===== *)
theory Sha256
  imports GoStrings
begin

text \<open>
  \<open>crypto/sha256\<close> and \<open>encoding/hex\<close> of the standard library, as the exchange adapter uses them to
  shorten long order tags: the digest on 32-bit words, its hexadecimal text, and the length and
  alphabet of that text.
\<close>

unbundle bit_operations_syntax

type_synonym w32 = "32 word"

text \<open>The round constants are the first 32 bits of the fractions of the cube roots of the first 64
  primes, the initial state those of the square roots of the first eight.\<close>

definition sha_k :: "w32 list" where
  "sha_k =
    [1116352408, 1899447441, 3049323471, 3921009573, 961987163, 1508970993, 2453635748,
     2870763221, 3624381080, 310598401, 607225278, 1426881987, 1925078388, 2162078206,
     2614888103, 3248222580, 3835390401, 4022224774, 264347078, 604807628, 770255983,
     1249150122, 1555081692, 1996064986, 2554220882, 2821834349, 2952996808, 3210313671,
     3336571891, 3584528711, 113926993, 338241895, 666307205, 773529912, 1294757372, 1396182291,
     1695183700, 1986661051, 2177026350, 2456956037, 2730485921, 2820302411, 3259730800,
     3345764771, 3516065817, 3600352804, 4094571909, 275423344, 430227734, 506948616, 659060556,
     883997877, 958139571, 1322822218, 1537002063, 1747873779, 1955562222, 2024104815,
     2227730452, 2361852424, 2428436474, 2756734187, 3204031479, 3329325298]"

definition sha_init :: "w32 list" where
  "sha_init =
    [1779033703, 3144134277, 1013904242, 2773480762, 1359893119, 2600822924, 528734635,
     1541459225]"

definition be_bytes :: "nat \<Rightarrow> nat \<Rightarrow> nat list" where
  "be_bytes k n = map (\<lambda>i. n div 256 ^ (k - 1 - i) mod 256) [0..<k]"

text \<open>The message as bytes, padded to a multiple of 64.\<close>

definition sha_pad :: "nat list \<Rightarrow> nat list" where
  "sha_pad bs = bs @ [128] @ replicate ((119 - length bs mod 64) mod 64) 0 @ be_bytes 8 (8 * length bs)"

fun be_words :: "nat list \<Rightarrow> w32 list" where
  "be_words (a # b # c # d # bs) = of_nat (((a * 256 + b) * 256 + c) * 256 + d) # be_words bs"
| "be_words _ = []"

definition sha_schedule_step :: "w32 list \<Rightarrow> w32 list" where
  "sha_schedule_step w =
     (let t = length w; a = w ! (t - 15); b = w ! (t - 2);
          s0 = word_rotr 7 a XOR word_rotr 18 a XOR drop_bit 3 a;
          s1 = word_rotr 17 b XOR word_rotr 19 b XOR drop_bit 10 b
      in w @ [w ! (t - 16) + s0 + w ! (t - 7) + s1])"

definition sha_schedule :: "w32 list \<Rightarrow> w32 list" where
  "sha_schedule block = (sha_schedule_step ^^ 48) block"

fun sha_round :: "w32 \<times> w32 \<Rightarrow> w32 list \<Rightarrow> w32 list" where
  "sha_round (k, w) [a, b, c, d, e, f, g, h] =
     (let s1 = word_rotr 6 e XOR word_rotr 11 e XOR word_rotr 25 e;
          ch = (e AND f) XOR (NOT e AND g);
          t1 = h + s1 + ch + k + w;
          s0 = word_rotr 2 a XOR word_rotr 13 a XOR word_rotr 22 a;
          maj = (a AND b) XOR (a AND c) XOR (b AND c)
      in [t1 + (s0 + maj), a, b, c, d + t1, e, f, g])"
| "sha_round kw s = s"

definition sha_block :: "w32 list \<Rightarrow> w32 list \<Rightarrow> w32 list" where
  "sha_block s block = map2 (+) s (fold sha_round (zip sha_k (sha_schedule block)) s)"

fun sha_blocks :: "nat \<Rightarrow> w32 list \<Rightarrow> w32 list \<Rightarrow> w32 list" where
  "sha_blocks 0 ws s = s"
| "sha_blocks (Suc n) ws s = sha_blocks n (drop 16 ws) (sha_block s (take 16 ws))"

definition sha256 :: "nat list \<Rightarrow> nat list" where
  "sha256 bs =
     (let p = sha_pad bs
      in concat (map (\<lambda>w. be_bytes 4 (unat w)) (sha_blocks (length p div 64) (be_words p) sha_init)))"

definition hex_digit :: "nat \<Rightarrow> char" where
  "hex_digit n = (''0123456789abcdef'') ! n"

definition hex_encode :: "nat list \<Rightarrow> string" where
  "hex_encode bs = concat (map (\<lambda>b. [hex_digit (b div 16), hex_digit (b mod 16)]) bs)"

definition sha256_hex :: "string \<Rightarrow> string" where
  "sha256_hex s = hex_encode (sha256 (map of_char s))"

subsection \<open>The shape of a digest\<close>

lemma length_sha_round: "length s = 8 \<Longrightarrow> length (sha_round kw s) = 8"
  by (induction kw s rule: sha_round.induct) (simp_all add: Let_def)

lemma length_sha_rounds: "length s = 8 \<Longrightarrow> length (fold sha_round kws s) = 8"
  by (induction kws arbitrary: s) (simp_all add: length_sha_round)

lemma length_sha_blocks: "length s = 8 \<Longrightarrow> length (sha_blocks n ws s) = 8"
  by (induction n arbitrary: ws s) (simp_all add: sha_block_def length_sha_rounds)

lemma length_concat_const: "(\<And>x. x \<in> set xs \<Longrightarrow> length (f x) = k) \<Longrightarrow> length (concat (map f xs)) = k * length xs"
  by (induction xs) auto

lemma length_sha256: "length (sha256 bs) = 32"
proof -
  have "length (sha_blocks n ws sha_init) = 8" for n ws
    by (rule length_sha_blocks) (simp add: sha_init_def)
  then show ?thesis
    by (simp add: sha256_def Let_def length_concat_const [of _ _ 4] be_bytes_def)
qed

lemma sha256_bytes: "b \<in> set (sha256 bs) \<Longrightarrow> b < 256"
  by (auto simp: sha256_def be_bytes_def Let_def)

definition byte_between :: "nat \<Rightarrow> nat \<Rightarrow> char \<Rightarrow> bool" where
  "byte_between a b c \<longleftrightarrow> a \<le> of_char c \<and> of_char c \<le> b"

definition hex_char :: "char \<Rightarrow> bool" where
  "hex_char c \<longleftrightarrow> byte_between 48 57 c \<or> byte_between 97 102 c \<or> byte_between 65 70 c"

lemma hex_digit_char: "n < 16 \<Longrightarrow> hex_char (hex_digit n) \<and> plain_char (hex_digit n)"
proof -
  assume "n < 16"
  then have "n \<in> set [0..<16]" by simp
  moreover have "list_all (\<lambda>n. hex_char (hex_digit n) \<and> plain_char (hex_digit n)) [0..<16]" by code_simp
  ultimately show ?thesis unfolding list_all_iff by blast
qed

lemma length_sha256_hex: "length (sha256_hex s) = 64"
  by (simp add: sha256_hex_def hex_encode_def length_concat_const [of _ _ 2] length_sha256)

lemma sha256_hex_chars:
  assumes "c \<in> set (sha256_hex s)"
  shows "hex_char c \<and> plain_char c"
proof -
  obtain b where b: "b \<in> set (sha256 (map of_char s))" "c = hex_digit (b div 16) \<or> c = hex_digit (b mod 16)"
    using assms by (auto simp: sha256_hex_def hex_encode_def)
  from sha256_bytes [OF b(1)] have "b div 16 < 16" "b mod 16 < 16" by auto
  with b(2) show ?thesis using hex_digit_char by blast
qed

end
