(* ===== verification/Sha512.thy ===== *)
theory Sha512
  imports Sha256
begin

text \<open>
  \<open>crypto/sha512\<close> and \<open>crypto/hmac\<close> of the standard library, with which the exchange adapter signs
  the private channels: the digest on 64-bit words and the keyed digest of a text in hexadecimal.
\<close>

unbundle bit_operations_syntax

type_synonym w64 = "64 word"

text \<open>As for the 32-bit digest, the constants are fractions of roots of primes, of the first 80.\<close>

definition sha512_k :: "w64 list" where
  "sha512_k =
    [4794697086780616226, 8158064640168781261, 13096744586834688815, 16840607885511220156,
     4131703408338449720, 6480981068601479193, 10538285296894168987, 12329834152419229976,
     15566598209576043074, 1334009975649890238, 2608012711638119052, 6128411473006802146,
     8268148722764581231, 9286055187155687089, 11230858885718282805, 13951009754708518548,
     16472876342353939154, 17275323862435702243, 1135362057144423861, 2597628984639134821,
     3308224258029322869, 5365058923640841347, 6679025012923562964, 8573033837759648693,
     10970295158949994411, 12119686244451234320, 12683024718118986047, 13788192230050041572,
     14330467153632333762, 15395433587784984357, 489312712824947311, 1452737877330783856,
     2861767655752347644, 3322285676063803686, 5560940570517711597, 5996557281743188959,
     7280758554555802590, 8532644243296465576, 9350256976987008742, 10552545826968843579,
     11727347734174303076, 12113106623233404929, 14000437183269869457, 14369950271660146224,
     15101387698204529176, 15463397548674623760, 17586052441742319658, 1182934255886127544,
     1847814050463011016, 2177327727835720531, 2830643537854262169, 3796741975233480872,
     4115178125766777443, 5681478168544905931, 6601373596472566643, 7507060721942968483,
     8399075790359081724, 8693463985226723168, 9568029438360202098, 10144078919501101548,
     10430055236837252648, 11840083180663258601, 13761210420658862357, 14299343276471374635,
     14566680578165727644, 15097957966210449927, 16922976911328602910, 17689382322260857208,
     500013540394364858, 748580250866718886, 1242879168328830382, 1977374033974150939,
     2944078676154940804, 3659926193048069267, 4368137639120453308, 4836135668995329356,
     5532061633213252278, 6448918945643986474, 6902733635092675308, 7801388544844847127]"

definition sha512_init :: "w64 list" where
  "sha512_init =
    [7640891576956012808, 13503953896175478587, 4354685564936845355, 11912009170470909681,
     5840696475078001361, 11170449401992604703, 2270897969802886507, 6620516959819538809]"

definition sha512_pad :: "nat list \<Rightarrow> nat list" where
  "sha512_pad bs = bs @ [128] @ replicate ((239 - length bs mod 128) mod 128) 0 @ be_bytes 16 (8 * length bs)"

definition word_of_bytes :: "nat list \<Rightarrow> w64" where
  "word_of_bytes bs = of_nat (foldl (\<lambda>a b. 256 * a + b) 0 bs)"

definition sha512_words :: "nat list \<Rightarrow> w64 list" where
  "sha512_words bs = map (\<lambda>i. word_of_bytes (take 8 (drop (8 * i) bs))) [0..<length bs div 8]"

definition sha512_extend :: "w64 list \<Rightarrow> w64 list" where
  "sha512_extend w =
     (let t = length w; a = w ! (t - 15); b = w ! (t - 2)
      in w @ [w ! (t - 16) + (word_rotr 1 a XOR word_rotr 8 a XOR drop_bit 7 a) + w ! (t - 7)
              + (word_rotr 19 b XOR word_rotr 61 b XOR drop_bit 6 b)])"

fun sha512_round :: "w64 \<times> w64 \<Rightarrow> w64 list \<Rightarrow> w64 list" where
  "sha512_round (k, w) [a, b, c, d, e, f, g, h] =
     (let up = h + (word_rotr 14 e XOR word_rotr 18 e XOR word_rotr 41 e)
               + ((e AND f) XOR (NOT e AND g)) + k + w;
          dn = (word_rotr 28 a XOR word_rotr 34 a XOR word_rotr 39 a)
               + ((a AND b) XOR (a AND c) XOR (b AND c))
      in [up + dn, a, b, c, d + up, e, f, g])"
| "sha512_round kw s = s"

definition sha512_block :: "w64 list \<Rightarrow> w64 list \<Rightarrow> w64 list" where
  "sha512_block s block = map2 (+) s (fold sha512_round (zip sha512_k ((sha512_extend ^^ 64) block)) s)"

definition sha512 :: "nat list \<Rightarrow> nat list" where
  "sha512 bs =
     (let ws = sha512_words (sha512_pad bs)
      in concat (map (\<lambda>w. be_bytes 8 (unat w))
           (fold (\<lambda>i s. sha512_block s (take 16 (drop (16 * i) ws))) [0..<length ws div 16] sha512_init)))"

definition xor_bytes :: "nat \<Rightarrow> nat list \<Rightarrow> nat list" where
  "xor_bytes m = map (\<lambda>b. b XOR m)"

definition hmac_sha512 :: "nat list \<Rightarrow> nat list \<Rightarrow> nat list" where
  "hmac_sha512 key msg =
     (let k0 = (if 128 < length key then sha512 key else key);
          k = k0 @ replicate (128 - length k0) 0
      in sha512 (xor_bytes 92 k @ sha512 (xor_bytes 54 k @ msg)))"

definition hmac_sha512_hex :: "string \<Rightarrow> string \<Rightarrow> string" where
  "hmac_sha512_hex key msg = hex_encode (hmac_sha512 (map of_char key) (map of_char msg))"

end
