(* ===== verification/GoStd.thy ===== *)
theory GoStd
  imports GoFloat GoStrings
begin

text \<open>
  Two more pieces of Go's standard library the configuration rests on: \<open>time.ParseDuration\<close>, with
  its \<open>uint64\<close> accumulator and its floating-point fraction, and \<open>path/filepath\<close> on Unix
  (\<open>IsAbs\<close>, \<open>Clean\<close>, \<open>Join\<close> of two elements).
\<close>

subsection \<open>Durations\<close>

definition unit_nanos :: "string \<Rightarrow> nat option" where
  "unit_nanos = map_of
     [(''ns'', 1), (''us'', 1000), ([CHR 0xC2, CHR 0xB5, CHR ''s''], 1000),
      ([CHR 0xCE, CHR 0xBC, CHR ''s''], 1000), (''ms'', 10 ^ 6), (''s'', 10 ^ 9),
      (''m'', 60 * 10 ^ 9), (''h'', 3600 * 10 ^ 9)]"

text \<open>\<open>leadingInt\<close>: the digits in front, \<open>None\<close> when they exceed \<open>2 ^ 63\<close>.\<close>

fun leading_int :: "nat \<Rightarrow> string \<Rightarrow> (nat \<times> string) option" where
  "leading_int x [] = Some (x, [])"
| "leading_int x (c # s) =
     (if \<not> is_digit c then Some (x, c # s)
      else if 2 ^ 63 div 10 < x then None
      else let x' = 10 * x + digit_val c in if 2 ^ 63 < x' then None else leading_int x' s)"

text \<open>\<open>leadingFraction\<close>: digits beyond the range are skipped; the scale is a float.\<close>

fun leading_fraction :: "bool \<Rightarrow> nat \<Rightarrow> go_float \<Rightarrow> string \<Rightarrow> nat \<times> go_float \<times> string" where
  "leading_fraction ov x sc [] = (x, sc, [])"
| "leading_fraction ov x sc (c # s) =
     (if \<not> is_digit c then (x, sc, c # s)
      else if ov then leading_fraction ov x sc s
      else if (2 ^ 63 - 1) div 10 < x then leading_fraction True x sc s
      else let y = 10 * x + digit_val c
           in if 2 ^ 63 < y then leading_fraction True x sc s
              else leading_fraction False y (fmul sc (Fin 10)) s)"

definition fraction_nanos :: "nat \<Rightarrow> go_float \<Rightarrow> nat \<Rightarrow> nat" where
  "fraction_nanos f sc u =
     (case fmul (f64 (of_nat f))
             (case sc of Fin q \<Rightarrow> fdiv_by (f64 (of_nat u)) q | _ \<Rightarrow> Fin 0) of
        Fin q \<Rightarrow> nat \<lfloor>q\<rfloor> | _ \<Rightarrow> 0)"

text \<open>One number with its unit: the nanoseconds and what follows.\<close>

definition duration_term :: "string \<Rightarrow> (nat \<times> string) option" where
  "duration_term s =
     (case s of
        [] \<Rightarrow> None
      | c # _ \<Rightarrow>
        if \<not> (c = CHR ''.'' \<or> is_digit c) then None
        else case leading_int 0 s of
          None \<Rightarrow> None
        | Some (v, s1) \<Rightarrow>
          let pre = length s1 \<noteq> length s;
              dot = (s1 \<noteq> [] \<and> hd s1 = CHR ''.'');
              s2 = (if dot then tl s1 else s1);
              (f, sc, s3) = (if dot then leading_fraction False 0 (Fin 1) s2 else (0, Fin 1, s2));
              post = length s3 \<noteq> length s2;
              u = takeWhile (\<lambda>c. c \<noteq> CHR ''.'' \<and> \<not> is_digit c) s3
          in if \<not> pre \<and> \<not> post then None
             else if u = [] then None
             else case unit_nanos u of
               None \<Rightarrow> None
             | Some un \<Rightarrow>
               if 2 ^ 63 div un < v then None
               else let w = v * un + (if 0 < f then fraction_nanos f sc un else 0)
                    in if 2 ^ 63 < w then None else Some (w, drop (length u) s3))"

lemma leading_int_length: "leading_int x s = Some (v, r) \<Longrightarrow> length r \<le> length s"
  by (induction x s rule: leading_int.induct) (auto simp: Let_def split: if_splits)

lemma leading_fraction_length: "leading_fraction ov x sc s = (f, sc', r) \<Longrightarrow> length r \<le> length s"
  by (induction ov x sc s rule: leading_fraction.induct) (auto simp: Let_def split: if_splits)

lemma duration_term_length:
  assumes "duration_term s = Some (w, r)"
  shows "length r < length s" "w \<le> 2 ^ 63"
proof -
  obtain v s1 where v: "leading_int 0 s = Some (v, s1)"
    using assms by (auto simp: duration_term_def split: list.splits if_splits option.splits)
  let ?s2 = "if s1 \<noteq> [] \<and> hd s1 = CHR ''.'' then tl s1 else s1"
  obtain f sc s3 where f: "(if s1 \<noteq> [] \<and> hd s1 = CHR ''.'' then leading_fraction False 0 (Fin 1) ?s2
      else (0, Fin 1, ?s2)) = (f, sc, s3)" by (metis prod_cases3)
  let ?u = "takeWhile (\<lambda>c. c \<noteq> CHR ''.'' \<and> \<not> is_digit c) s3"
  have u: "?u \<noteq> []" "r = drop (length ?u) s3" and w: "w \<le> 2 ^ 63"
    using assms v f by (auto simp: duration_term_def Let_def split: list.splits if_splits option.splits)
  have "length s3 \<le> length ?s2"
    using f leading_fraction_length [of False 0 "Fin 1" ?s2] by (auto split: if_splits)
  moreover have "length ?s2 \<le> length s1" by simp
  moreover have "length s1 \<le> length s" by (rule leading_int_length [OF v])
  moreover have "length r < length s3" using u by (cases s3) auto
  ultimately show "length r < length s" by linarith
  show "w \<le> 2 ^ 63" by (rule w)
qed

text \<open>The sum is a \<open>uint64\<close>: it can wrap.\<close>

function duration_sum :: "nat \<Rightarrow> string \<Rightarrow> nat option" where
  "duration_sum d s =
     (if s = [] then Some d
      else case duration_term s of
        None \<Rightarrow> None
      | Some (w, r) \<Rightarrow>
          let d' = (d + w) mod 2 ^ 64 in if 2 ^ 63 < d' then None else duration_sum d' r)"
  by pat_completeness auto
termination
  by (relation "measure (\<lambda>(d, s). length s)") (auto simp: duration_term_length)

declare duration_sum.simps [simp del]

definition parse_duration :: "string \<Rightarrow> duration option" where
  "parse_duration s =
     (let signed = (s \<noteq> [] \<and> (hd s = CHR ''-'' \<or> hd s = CHR ''+''));
          negative = (s \<noteq> [] \<and> hd s = CHR ''-'');
          b = (if signed then tl s else s)
      in if b = ''0'' then Some 0
         else if b = [] then None
         else case duration_sum 0 b of
           None \<Rightarrow> None
         | Some d \<Rightarrow>
             if negative then Some (- int d)
             else if 2 ^ 63 - 1 < d then None
             else Some (int d))"

lemma duration_sum_bound: "duration_sum d s = Some n \<Longrightarrow> d \<le> 2 ^ 63 \<Longrightarrow> n \<le> 2 ^ 63"
proof (induction d s rule: duration_sum.induct)
  case (1 d s)
  show ?case
  proof (cases "s = []")
    case False
    then obtain w r where t: "duration_term s = Some (w, r)"
      and n: "duration_sum ((d + w) mod 2 ^ 64) r = Some n" "(d + w) mod 2 ^ 64 \<le> 2 ^ 63"
      using "1.prems"(1) by (subst (asm) duration_sum.simps) (auto simp: Let_def split: option.splits if_splits)
    show ?thesis
      using "1.IH" [OF False t refl refl] n by (metis linorder_not_less)
  qed (use 1 in \<open>simp add: duration_sum.simps\<close>)
qed

lemma parse_duration_range:
  assumes "parse_duration s = Some d"
  shows "- (2 ^ 63) \<le> d" "d < 2 ^ 63"
  using assms duration_sum_bound [of 0]
  by (auto simp: parse_duration_def Let_def split: if_splits option.splits)

text \<open>A whole number of a unit reads back: the form every default of the configuration has.\<close>

lemma foldl_digits_ge: "x \<le> foldl (\<lambda>a c. 10 * a + digit_val c) x ds"
proof (induction ds arbitrary: x)
  case (Cons c ds)
  have "x \<le> 10 * x + digit_val c" by simp
  also have "\<dots> \<le> foldl (\<lambda>a c. 10 * a + digit_val c) (10 * x + digit_val c) ds" by (rule Cons.IH)
  finally show ?case by simp
qed simp

lemma leading_int_digits:
  assumes "\<forall>c \<in> set ds. is_digit c" and "foldl (\<lambda>a c. 10 * a + digit_val c) x ds \<le> 2 ^ 63"
    and "rest = [] \<or> \<not> is_digit (hd rest)"
  shows "leading_int x (ds @ rest) = Some (foldl (\<lambda>a c. 10 * a + digit_val c) x ds, rest)"
  using assms
proof (induction ds arbitrary: x)
  case Nil
  then show ?case by (cases rest) auto
next
  case (Cons c ds)
  have "10 * x + digit_val c \<le> 2 ^ 63"
    using Cons.prems(2) foldl_digits_ge [of "10 * x + digit_val c" ds] by simp
  then show ?case using Cons by (simp add: Let_def)
qed

lemma parse_whole_duration:
  assumes "unit_nanos u = Some un" and "u \<noteq> []" "\<forall>c \<in> set u. c \<noteq> CHR ''.'' \<and> \<not> is_digit c"
    and "0 < un" "n * un < 2 ^ 63"
  shows "parse_duration (show_nat n @ u) = Some (int (n * un))"
proof -
  have d: "\<forall>c \<in> set (show_nat n). is_digit c" by (simp add: show_nat_digits)
  obtain c cs where cs: "show_nat n = c # cs" by (cases "show_nat n") auto
  with d have c: "is_digit c" by simp
  have hu: "\<not> is_digit (hd u)" "hd u \<noteq> CHR ''.''" using assms(2,3) by (cases u; simp)+
  have "n \<le> n * un" using assms(4) by simp
  then have nb: "n \<le> 2 ^ 63" using assms(5) by linarith
  have v: "leading_int 0 (show_nat n @ u) = Some (n, u)"
    using leading_int_digits [OF d, of 0 u] hu nb nat_of_digits_show_nat [of n]
    by (simp add: nat_of_digits_def)
  have q: "n \<le> 2 ^ 63 div un" using assms(4,5) by (simp add: less_eq_div_iff_mult_less_eq less_imp_le)
  have t: "takeWhile (\<lambda>c. c \<noteq> CHR ''.'' \<and> \<not> is_digit c) u = u"
    using assms(3) by (simp add: takeWhile_eq_all_conv)
  have "duration_term (show_nat n @ u) = Some (n * un, [])"
    using v c hu q assms(1,2,5) unfolding cs
    by (simp add: duration_term_def Let_def t del: leading_int.simps)
  then have "duration_sum 0 (show_nat n @ u) = Some (n * un)"
    using assms(5) by (simp add: duration_sum.simps Let_def)
  moreover have "c \<noteq> CHR ''-''" "c \<noteq> CHR ''+''" using c by (auto simp: is_digit_def)
  moreover have "show_nat n @ u \<noteq> ''0''"
    using cs assms(2) by (auto simp: append_eq_Cons_conv)
  ultimately show ?thesis
    using assms(2,5) unfolding cs by (simp add: parse_duration_def Let_def)
qed

subsection \<open>Paths\<close>

definition slash :: char where
  "slash = CHR ''/''"

definition is_abs :: "string \<Rightarrow> bool" where
  "is_abs p \<longleftrightarrow> p \<noteq> [] \<and> hd p = slash"

text \<open>The elements of the result, last first: a \<open>..\<close> removes the element before it, and is kept
  only at the front of a relative path.\<close>

definition clean_elem :: "bool \<Rightarrow> string \<Rightarrow> string list \<Rightarrow> string list" where
  "clean_elem rooted e acc =
     (if e = [] \<or> e = ''.'' then acc
      else if e = ''..'' then
        (case acc of
           [] \<Rightarrow> if rooted then [] else [''..'']
         | a # as \<Rightarrow> if a = ''..'' then ''..'' # acc else as)
      else e # acc)"

definition clean_elems :: "bool \<Rightarrow> string list \<Rightarrow> string list" where
  "clean_elems rooted es = rev (fold (clean_elem rooted) es [])"

definition clean_path :: "string \<Rightarrow> string" where
  "clean_path p =
     (let es = clean_elems (is_abs p) (split_on slash p);
          body = join_with [slash] es
      in if is_abs p then slash # body else if es = [] then ''.'' else body)"

definition join_path :: "string \<Rightarrow> string \<Rightarrow> string" where
  "join_path a b =
     (if a \<noteq> [] then clean_path (a @ [slash] @ b)
      else if b \<noteq> [] then clean_path b
      else [])"

text \<open>Cleaned elements, last first: names, then the \<open>..\<close> of a relative path.\<close>

fun clean_stack :: "bool \<Rightarrow> string list \<Rightarrow> bool" where
  "clean_stack rooted [] = True"
| "clean_stack rooted (e # es) =
     (e \<noteq> [] \<and> e \<noteq> ''.'' \<and> slash \<notin> set e \<and> (e = ''..'' \<longrightarrow> \<not> rooted \<and> set es \<subseteq> {''..''}) \<and>
      clean_stack rooted es)"

lemma clean_elem_stack:
  "clean_stack rooted acc \<Longrightarrow> slash \<notin> set e \<Longrightarrow> clean_stack rooted (clean_elem rooted e acc)"
  by (cases acc) (auto simp: clean_elem_def)

lemma fold_clean_stack:
  "clean_stack rooted acc \<Longrightarrow> \<forall>e \<in> set es. slash \<notin> set e \<Longrightarrow>
   clean_stack rooted (fold (clean_elem rooted) es acc)"
  by (induction es arbitrary: acc) (auto simp: clean_elem_stack)

lemma clean_elem_fixed:
  assumes "clean_stack rooted (e # acc)"
  shows "clean_elem rooted e acc = e # acc"
  using assms by (cases acc) (auto simp: clean_elem_def)

lemma fold_clean_fixed: "clean_stack rooted acc \<Longrightarrow> fold (clean_elem rooted) (rev acc) [] = acc"
  by (induction acc) (auto simp: clean_elem_fixed)

lemma clean_elems_idem:
  "\<forall>e \<in> set es. slash \<notin> set e \<Longrightarrow> clean_elems rooted (clean_elems rooted es) = clean_elems rooted es"
  unfolding clean_elems_def using fold_clean_stack [of rooted "[]" es]
  by (simp add: fold_clean_fixed)

lemma clean_stack_mem: "clean_stack rooted es \<Longrightarrow> e \<in> set es \<Longrightarrow> e \<noteq> [] \<and> slash \<notin> set e"
  by (induction es) auto

lemma clean_elems_parts:
  "e \<in> set (clean_elems rooted (split_on slash p)) \<Longrightarrow> e \<noteq> [] \<and> slash \<notin> set e"
  using fold_clean_stack [of rooted "[]" "split_on slash p"] clean_stack_mem
  by (auto simp: clean_elems_def dest: split_on_parts)

lemma hd_join: "ps \<noteq> [] \<Longrightarrow> hd ps \<noteq> [] \<Longrightarrow> join_with d ps \<noteq> [] \<and> hd (join_with d ps) = hd (hd ps)"
  by (induction d ps rule: join_with.induct) auto

lemma clean_path_abs [simp]: "is_abs (clean_path p) = is_abs p"
proof (cases "is_abs p \<or> clean_elems (is_abs p) (split_on slash p) = []")
  case True
  then show ?thesis by (auto simp: clean_path_def is_abs_def Let_def slash_def)
next
  case False
  let ?es = "clean_elems False (split_on slash p)"
  have na: "is_abs p = False" using False by simp
  have ne: "?es \<noteq> []" using False unfolding na by simp
  then have h: "hd ?es \<noteq> []" "slash \<notin> set (hd ?es)"
    using clean_elems_parts [of "hd ?es" False p] by auto
  then have "hd (hd ?es) \<noteq> slash" using hd_in_set [OF h(1)] by metis
  then have "\<not> is_abs (join_with [slash] ?es)" using hd_join [OF ne h(1), of "[slash]"] by (simp add: is_abs_def)
  moreover have "clean_path p = join_with [slash] ?es" using ne by (simp add: clean_path_def Let_def na)
  ultimately show ?thesis by (simp add: na)
qed

text \<open>Cleaning twice is cleaning once.\<close>

lemma clean_path_idem: "clean_path (clean_path p) = clean_path p"
proof -
  let ?es = "clean_elems (is_abs p) (split_on slash p)"
  have parts: "\<forall>e \<in> set ?es. slash \<notin> set e" using clean_elems_parts by blast
  have idem: "clean_elems (is_abs p) ?es = ?es"
    by (rule clean_elems_idem) (auto dest: split_on_parts)
  have skip: "clean_elems r ([] # es) = clean_elems r es" for r es
    by (simp add: clean_elems_def clean_elem_def)
  have body: "clean_elems (is_abs p) (split_on slash (join_with [slash] ?es)) = ?es"
    using idem split_join [OF _ parts]
    by (cases "?es = []") (auto simp: clean_elems_def clean_elem_def)
  show ?thesis
  proof (cases "is_abs p")
    case True
    have "split_on slash (slash # s) = [] # split_on slash s" for s by simp
    moreover have "is_abs (slash # s)" for s by (simp add: is_abs_def)
    ultimately show ?thesis using True body
      by (subst clean_path_def) (simp add: clean_path_def Let_def skip)
  next
    case False
    show ?thesis
    proof (cases "?es = []")
      case True
      then have "clean_path p = ''.''" using False by (simp add: clean_path_def Let_def)
      moreover have "clean_path ''.'' = ''.''" by code_simp
      ultimately show ?thesis by simp
    next
      case ne: False
      then have "clean_path p = join_with [slash] ?es" using False by (simp add: clean_path_def Let_def)
      moreover have "\<not> is_abs (join_with [slash] ?es)"
        using calculation clean_path_abs [of p] False by simp
      ultimately show ?thesis using body ne False by (simp add: clean_path_def [of "join_with _ _"] Let_def)
    qed
  qed
qed

lemma join_path_abs: "is_abs a \<Longrightarrow> is_abs (join_path a b)"
  by (auto simp: join_path_def is_abs_def [of "a @ _"] is_abs_def [of a])

end
