(* ===== verification/ContractNames.thy ===== *)
theory ContractNames
  imports PerpTypes RefDecimal
begin

text \<open>
  Contract names: the canonical form of \<open>pkg/exchange/perp/contract.go\<close> is a fixed point, and
  Gate's form of a name (\<open>toGateContract\<close> of \<open>gateio/convert.go\<close>) determines the canonical one.
\<close>

subsection \<open>Trimming and upper case\<close>

definition outside_spaces :: "char \<Rightarrow> bool" where
  "outside_spaces c \<longleftrightarrow> (\<forall>r \<in> set go_spaces. c \<notin> set r)"

lemma outside_spaces_seps [simp]: "outside_spaces (CHR ''/'')" "outside_spaces (CHR ''_'')"
  by (simp_all add: outside_spaces_def go_spaces_def)

lemma trim_space_join2:
  assumes "trim_space p = p" "trim_space q = q" "outside_spaces c"
  shows "trim_space (p @ c # q) = p @ c # q"
proof -
  have "lead_of go_spaces (p @ c # q) = None"
    using assms by (intro lead_of_append) (auto simp: trim_space_fixed_iff outside_spaces_def)
  moreover have "lead_of (map rev go_spaces) (rev q @ c # rev p) = None"
    using assms by (intro lead_of_append) (auto simp: trim_space_fixed_iff outside_spaces_def)
  ultimately show ?thesis by (simp add: trim_space_fixed_iff)
qed

lemma trim_space_join:
  "\<forall>p \<in> set ps. trim_space p = p \<Longrightarrow> outside_spaces c \<Longrightarrow> trim_space (join_with [c] ps) = join_with [c] ps"
  by (induction "[c]" ps rule: join_with.induct) (auto intro: trim_space_join2)

definition caseless :: "char \<Rightarrow> bool" where
  "caseless c \<longleftrightarrow> (let n = (of_char c :: nat) in \<not> (65 \<le> n \<and> n \<le> 90) \<and> \<not> (97 \<le> n \<and> n \<le> 122))"

lemma to_upper_char_caseless: "caseless c \<Longrightarrow> to_upper_char d = c \<longleftrightarrow> d = c"
proof -
  have "(of_char d :: nat) < 256" by (cases d) (simp add: of_char_def)
  then show "caseless c \<Longrightarrow> to_upper_char d = c \<longleftrightarrow> d = c"
    by (auto simp: caseless_def to_upper_char_def Let_def)
qed

lemma caseless_seps [simp]: "caseless (CHR ''/'')" "caseless (CHR ''_'')"
  by (simp_all add: caseless_def)

lemma to_upper_eq_caseless: "\<forall>c \<in> set r. caseless c \<Longrightarrow> to_upper s = r \<longleftrightarrow> s = r"
proof (induction r arbitrary: s)
  case Nil
  then show ?case by (simp add: to_upper_def)
next
  case (Cons c r)
  then show ?case by (cases s) (auto simp: to_upper_def to_upper_char_caseless)
qed

lemma lead_of_to_upper:
  assumes "\<forall>r \<in> set rs. \<forall>c \<in> set r. caseless c"
  shows "lead_of rs (to_upper s) = lead_of rs s"
proof -
  have "take (length r) (to_upper s) = r \<longleftrightarrow> take (length r) s = r" if "r \<in> set rs" for r
    using to_upper_eq_caseless [of r "take (length r) s"] assms that by (simp add: to_upper_def take_map)
  then show ?thesis unfolding lead_of_def by (intro find_cong) auto
qed

lemma go_spaces_caseless: "\<forall>r \<in> set go_spaces. \<forall>c \<in> set r. caseless c"
  by (simp add: go_spaces_def caseless_def)

lemma trim_space_to_upper: "trim_space s = s \<Longrightarrow> trim_space (to_upper s) = to_upper s"
proof -
  have "rev (to_upper s) = to_upper (rev s)" by (simp add: to_upper_def rev_map)
  moreover have "\<forall>r \<in> set (map rev go_spaces). \<forall>c \<in> set r. caseless c"
    using go_spaces_caseless by auto
  ultimately show "trim_space s = s \<Longrightarrow> trim_space (to_upper s) = to_upper s"
    using lead_of_to_upper go_spaces_caseless by (simp add: trim_space_fixed_iff)
qed

subsection \<open>Splitting and joining\<close>

lemma set_join_with: "set (join_with [c] ps) \<subseteq> insert c (\<Union>p \<in> set ps. set p)"
  by (induction "[c]" ps rule: join_with.induct) auto

lemma replace_char_join:
  "\<forall>p \<in> set ps. a \<notin> set p \<Longrightarrow> replace_char a b (join_with [a] ps) = join_with [b] ps"
proof (induction "[a]" ps rule: join_with.induct)
  case (3 p q ps)
  then show ?case by (auto simp: replace_char_def intro: map_idI)
qed (auto simp: replace_char_def intro: map_idI)

subsection \<open>The canonical form\<close>

text \<open>The parts of a canonical name: trimmed, in upper case, without separators.\<close>

definition name_part :: "string \<Rightarrow> bool" where
  "name_part p \<longleftrightarrow> trim_space p = p \<and> to_upper p = p \<and> CHR ''/'' \<notin> set p \<and> CHR ''_'' \<notin> set p"

definition compact_usdt :: "string \<Rightarrow> bool" where
  "compact_usdt p \<longleftrightarrow> has_suffix p ''USDT'' \<and> 4 < length p"

lemma set_trim_space: "set (trim_space s) \<subseteq> set s"
proof -
  obtain n where "trim_space s = take n (trim_by go_spaces s)" using trim_space_prefix_of_left by blast
  moreover obtain m where "trim_by go_spaces s = drop m s" using trim_by_suffix by blast
  ultimately show ?thesis by (metis set_drop_subset set_take_subset subset_trans)
qed

lemma mem_upper_trim: "caseless c \<Longrightarrow> c \<in> set (to_upper (trim_space s)) \<Longrightarrow> c \<in> set s"
  using set_trim_space [of s] to_upper_char_caseless unfolding to_upper_def by (metis imageE list.set_map subsetD)

lemma join_with_Nil_iff: "ps \<noteq> [] \<Longrightarrow> join_with [d] ps = [] \<longleftrightarrow> ps = [[]]"
  by (induction "[d]" ps rule: join_with.induct) auto

lemma join_with_single: "ps \<noteq> [] \<Longrightarrow> d \<notin> set (join_with [d] ps) \<Longrightarrow> \<exists>p. ps = [p]"
  by (induction "[d]" ps rule: join_with.induct) auto

lemma name_part_upper_trim:
  assumes "CHR ''/'' \<notin> set p" "CHR ''_'' \<notin> set p"
  shows "name_part (to_upper (trim_space p))"
  using assms mem_upper_trim [of _ p] by (auto simp: name_part_def trim_space_to_upper)

definition canonical_parts :: "string list \<Rightarrow> bool" where
  "canonical_parts ps \<longleftrightarrow> ps \<noteq> [] \<and> (\<forall>p \<in> set ps. name_part p) \<and> (\<forall>p. ps = [p] \<longrightarrow> \<not> compact_usdt p)"

lemma canonical_contract_parts:
  obtains ps where "canonical_parts ps" "canonical_contract s = join_with ''/'' ps"
proof (cases "trim_space s = []")
  case True
  have "canonical_parts [[]]" by (simp add: canonical_parts_def name_part_def compact_usdt_def to_upper_def)
  moreover have "canonical_contract s = join_with ''/'' [[]]" using True by (simp add: canonical_contract_def)
  ultimately show ?thesis by (rule that)
next
  case False
  define s1 where "s1 = replace_char (CHR ''_'') (CHR ''/'') (trim_space s)"
  define s2 where "s2 = (if CHR ''/'' \<in> set s1 then s1 else slash_from_compact s1)"
  define ps where "ps = map (\<lambda>p. to_upper (trim_space p)) (split_on (CHR ''/'') s2)"
  have u1: "CHR ''_'' \<notin> set s1" by (auto simp: s1_def replace_char_def)
  have nu: "CHR ''_'' \<notin> set (to_upper (trim_space s1))"
    using u1 mem_upper_trim [of _ s1] by auto
  have u2: "CHR ''_'' \<notin> set s2"
    using u1 nu by (auto simp: s2_def slash_from_compact_def Let_def trim_suffix_def dest: in_set_takeD)
  have parts: "name_part p" if "p \<in> set ps" for p
    using that u2 split_on_parts by (fastforce simp: ps_def intro: name_part_upper_trim)
  moreover have "\<not> compact_usdt p" if single: "ps = [p]" for p
  proof -
    obtain q where q: "split_on (CHR ''/'') s2 = [q]" "p = to_upper (trim_space q)"
      using single by (auto simp: ps_def)
    then have qs: "q = s2" using join_split [of "CHR ''/''" s2] by simp
    have no: "CHR ''/'' \<notin> set s2" using split_on_parts [of q "CHR ''/''" s2] q(1) qs by simp
    then have n1: "CHR ''/'' \<notin> set s1" by (auto simp: s2_def split: if_splits)
    then have "s2 = slash_from_compact s1" by (simp add: s2_def)
    with no have s2: "s2 = to_upper (trim_space s1)" "\<not> compact_usdt (to_upper (trim_space s1))"
      by (auto simp: slash_from_compact_def compact_usdt_def Let_def split: if_splits)
    have "name_part (to_upper (trim_space s1))" using n1 u1 by (rule name_part_upper_trim)
    then have "to_upper (trim_space s2) = s2" by (simp add: s2(1) name_part_def)
    then show ?thesis using q(2) qs s2 by simp
  qed
  ultimately have "canonical_parts ps" by (auto simp: canonical_parts_def ps_def)
  moreover have "canonical_contract s = join_with ''/'' ps"
    using False by (simp add: canonical_contract_def Let_def ps_def s2_def s1_def)
  ultimately show ?thesis by (rule that)
qed

lemma canonical_join:
  assumes ps: "canonical_parts ps" and d: "d = CHR ''/'' \<or> d = CHR ''_''"
  shows "canonical_contract (join_with [d] ps) = join_with ''/'' ps"
proof -
  have np: "trim_space p = p" "to_upper p = p" "CHR ''/'' \<notin> set p" "CHR ''_'' \<notin> set p" if "p \<in> set ps" for p
    using ps that by (auto simp: canonical_parts_def name_part_def)
  have t: "trim_space (join_with [d] ps) = join_with [d] ps"
    using d np by (intro trim_space_join) auto
  have r: "replace_char (CHR ''_'') (CHR ''/'') (join_with [d] ps) = join_with ''/'' ps"
  proof (cases "d = CHR ''_''")
    case True
    then show ?thesis using replace_char_join [of ps "CHR ''_''" "CHR ''/''"] np by simp
  next
    case False
    have "CHR ''_'' \<notin> set (join_with ''/'' ps)" using set_join_with [of "CHR ''/''" ps] np by auto
    then have "replace_char (CHR ''_'') (CHR ''/'') (join_with ''/'' ps) = join_with ''/'' ps"
      unfolding replace_char_def by (intro map_idI) auto
    with False d show ?thesis by simp
  qed
  have again: "map (\<lambda>p. to_upper (trim_space p)) ps = ps" using np by (intro map_idI) auto
  show ?thesis
  proof (cases "join_with [d] ps = []")
    case True
    then have "ps = [[]]" using ps join_with_Nil_iff by (simp add: canonical_parts_def)
    then show ?thesis by (simp add: canonical_contract_def)
  next
    case nonempty: False
    show ?thesis
    proof (cases "CHR ''/'' \<in> set (join_with ''/'' ps)")
      case True
      then show ?thesis
        using nonempty np ps again split_join [of ps "CHR ''/''"]
        by (simp add: canonical_contract_def Let_def t r canonical_parts_def)
    next
      case False
      obtain p where p: "ps = [p]"
        using join_with_single [OF _ False] ps unfolding canonical_parts_def by blast
      then have "\<not> compact_usdt p" using ps by (simp add: canonical_parts_def)
      then have "slash_from_compact p = p"
        using np [of p] p by (auto simp: slash_from_compact_def compact_usdt_def Let_def)
      then show ?thesis
        using nonempty False np [of p] p t r
        by (simp add: canonical_contract_def Let_def split_on_nosep)
    qed
  qed
qed

subsection \<open>Gate's form\<close>

definition to_gate_contract :: "contract \<Rightarrow> string" where
  "to_gate_contract c =
     (let s = canonical_contract c in if s = [] then [] else replace_char (CHR ''/'') (CHR ''_'') s)"

lemma to_gate_contract_join:
  assumes "canonical_parts ps" "canonical_contract c = join_with ''/'' ps"
  shows "to_gate_contract c = join_with ''_'' ps"
proof -
  have "\<forall>p \<in> set ps. CHR ''/'' \<notin> set p" using assms(1) by (auto simp: canonical_parts_def name_part_def)
  from replace_char_join [OF this, of "CHR ''_''"] show ?thesis
    by (auto simp: to_gate_contract_def Let_def assms(2) replace_char_def)
qed

lemma canonical_idem: "canonical_contract (canonical_contract c) = canonical_contract c"
proof -
  obtain ps where ps: "canonical_parts ps" "canonical_contract c = join_with ''/'' ps"
    by (rule canonical_contract_parts)
  then show ?thesis using canonical_join [OF ps(1), of "CHR ''/''"] by simp
qed

lemma canonical_to_gate: "canonical_contract (to_gate_contract c) = canonical_contract c"
proof -
  obtain ps where ps: "canonical_parts ps" "canonical_contract c = join_with ''/'' ps"
    by (rule canonical_contract_parts)
  then show ?thesis using canonical_join [OF ps(1), of "CHR ''_''"] to_gate_contract_join [OF ps] by simp
qed

lemma canonical_trim: "trim_space (canonical_contract c) = canonical_contract c"
proof -
  obtain ps where ps: "canonical_parts ps" "canonical_contract c = join_with ''/'' ps"
    by (rule canonical_contract_parts)
  then show ?thesis
    using trim_space_join [of ps "CHR ''/''"] by (simp add: canonical_parts_def name_part_def)
qed

text \<open>A character that is neither a letter nor a separator comes from the argument.\<close>

lemma canonical_contract_mem:
  assumes "d \<in> set (canonical_contract s)" and d: "caseless d" "d \<noteq> CHR ''/''"
  shows "d \<in> set s"
proof (rule ccontr)
  assume n: "d \<notin> set s"
  define s1 where "s1 = replace_char (CHR ''_'') (CHR ''/'') (trim_space s)"
  define s2 where "s2 = (if CHR ''/'' \<in> set s1 then s1 else slash_from_compact s1)"
  have usdt: "d \<notin> set ''USDT''" using d(1) by (auto simp: caseless_def Let_def)
  have n1: "d \<notin> set s1"
    using n set_trim_space [of s] d(2) by (auto simp: s1_def replace_char_def)
  have "d \<notin> set (to_upper (trim_space s1))" using n1 mem_upper_trim [OF d(1)] by blast
  then have n2: "d \<notin> set s2"
    using n1 usdt d(2) by (auto simp: s2_def slash_from_compact_def Let_def trim_suffix_def dest: in_set_takeD)
  have "d \<notin> set (to_upper (trim_space p))" if "p \<in> set (split_on (CHR ''/'') s2)" for p
    using that n2 split_on_parts mem_upper_trim [OF d(1)] by blast
  then have "d \<notin> set (join_with ''/'' (map (\<lambda>p. to_upper (trim_space p)) (split_on (CHR ''/'') s2)))"
    using set_join_with [of "CHR ''/''"] d(2) by fastforce
  then show False using assms(1) by (auto simp: canonical_contract_def Let_def s1_def s2_def split: if_splits)
qed

lemma to_gate_contract_mem:
  "d \<in> set (to_gate_contract c) \<Longrightarrow> caseless d \<Longrightarrow> d \<noteq> CHR ''/'' \<Longrightarrow> d \<noteq> CHR ''_'' \<Longrightarrow> d \<in> set c"
  by (auto simp: to_gate_contract_def replace_char_def Let_def split: if_splits dest: canonical_contract_mem)

text \<open>The name of a contract survives the adapter: for every contract, the canonical form is
  its own canonical form, Gate's form of it (the one sent in orders, subscriptions and queries)
  reads back as the canonical form, and two contracts with the same Gate form are the same
  contract.\<close>

theorem gate_contract_roundtrip:
  "canonical_contract (canonical_contract c) = canonical_contract c \<and>
   canonical_contract (to_gate_contract c) = canonical_contract c \<and>
   (to_gate_contract c = to_gate_contract c' \<longleftrightarrow> canonical_contract c = canonical_contract c')"
proof (intro conjI iffI)
  show "canonical_contract c = canonical_contract c'" if "to_gate_contract c = to_gate_contract c'"
    using canonical_to_gate [of c] canonical_to_gate [of c'] that by metis
  show "to_gate_contract c = to_gate_contract c'" if "canonical_contract c = canonical_contract c'"
    unfolding to_gate_contract_def that ..
qed (rule canonical_idem, rule canonical_to_gate)

end
