(* ===== verification/GateConvert.thy ===== *)
theory GateConvert
  imports GoNum ContractNames "HOL-Library.List_Lexorder"
begin

text \<open>
  The Gate adapter's conversions, \<open>pkg/exchange/perp/gateio/convert.go\<close>, \<open>ws_order_normalize.go\<close> and
  the row converters of \<open>candlesticks.go\<close> and \<open>ws_handlers.go\<close>: from Gate's REST structures and
  websocket JSON to the exchange vocabulary, and order sizes back. Of the REST structures, which
  a generated package declares, the records hold the fields the code reads.
\<close>

subsection \<open>Times and 64-bit integers\<close>

text \<open>\<open>int64(x)\<close> of a float outside the range is what the amd64 instruction gives; the language
  leaves it to the implementation. \<open>wrap64\<close> is the wrap-around of \<open>int64\<close>.\<close>

definition int64_of :: "go_float \<Rightarrow> int" where
  "int64_of x = to_int64 (\<lambda>_. - (2 ^ 63)) x"

definition wrap64 :: "int \<Rightarrow> int" where
  "wrap64 i = (i + 2 ^ 63) mod 2 ^ 64 - 2 ^ 63"

definition unix_milli :: "int \<Rightarrow> go_time" where
  "unix_milli ms = ms * 10 ^ 6"

definition futures_time :: "go_float \<Rightarrow> go_time" where
  "futures_time ts =
     (if float_le ts (Fin 0) then zero_time
      else if float_le (Fin (10 ^ 12)) ts then unix_milli (int64_of ts)
      else let sec = int64_of ts;
               nsec = int64_of (fmul (fsub ts (f64 (of_int sec))) (Fin (10 ^ 9)))
           in sec * 10 ^ 9 + nsec)"

definition gate_unix_time :: "int \<Rightarrow> go_time" where
  "gate_unix_time ts =
     (if ts \<le> 0 then zero_time else if 10 ^ 12 \<le> ts then unix_milli ts else ts * 10 ^ 9)"

subsection \<open>Names, sizes, orders\<close>

definition decimals_in_step :: "string \<Rightarrow> string" where
  "decimals_in_step step0 =
     (let step = trim_space step0 in if step = [] \<or> step = ''0'' then ''1'' else step)"

definition gate_size_side :: "string \<Rightarrow> order_side" where
  "gate_size_side s = (if has_prefix (trim_space s) ''-'' then Sell else Buy)"

definition invalid_parameter :: "string \<Rightarrow> go_error" where
  "invalid_parameter m = ExchError ''INVALID_PARAMETER'' m None"

definition gate_order_size_string :: "string \<Rightarrow> order_side \<Rightarrow> string result" where
  "gate_order_size_string sz side =
     (let s = trim_space sz
      in if s = [] \<or> s = ''0'' then Inl (invalid_parameter ''size must be positive'')
         else if has_prefix s ''-'' then Inl (invalid_parameter ''size must be positive in PlaceRequest'')
         else case side of
           Buy \<Rightarrow> Inr s
         | Sell \<Rightarrow> if has_prefix s ''-'' then Inr s else Inr (CHR ''-'' # s)
         | OtherSide _ \<Rightarrow> Inl (invalid_parameter ''invalid side''))"

fun map_tif :: "tif \<Rightarrow> string" where
  "map_tif IOC = ''ioc''"
| "map_tif FOK = ''fok''"
| "map_tif POC = ''poc''"
| "map_tif _ = ''gtc''"

record futures_order =
  fo_id :: int
  fo_contract :: string
  fo_size :: string
  fo_left :: string
  fo_price :: string
  fo_fill_price :: string
  fo_tif :: string
  fo_text :: string
  fo_status :: string
  fo_finish_as :: string
  fo_create_time :: go_float
  fo_update_time :: go_float

definition futures_filled :: "futures_order \<Rightarrow> go_float" where
  "futures_filled fo =
     (let tot = fabs (parse_float (fo_size fo)); left = fabs (parse_float (fo_left fo))
      in fmax0 (fsub tot left))"

definition map_futures_order_status :: "futures_order \<Rightarrow> order_status" where
  "map_futures_order_status fo =
     (if fo_status fo = ''open'' then
        (let left = parse_float (fo_left fo); tot = fabs (parse_float (fo_size fo))
         in if float_less (Fin 0) left \<and> float_less left tot then PartialFilled else Submitted)
      else if fo_status fo = ''finished'' then
        (if fo_finish_as fo = ''filled'' then Filled
         else if fo_finish_as fo \<in> {''cancelled'', ''reduce_only'', ''position_closed'', ''stp'', ''reduce_out''}
           then Cancelled
         else if fo_finish_as fo = ''ioc'' \<or> fo_finish_as fo = ''fok'' then
           (if parse_float (fo_left fo) = Fin 0 then Filled else Cancelled)
         else Rejected)
      else Pending)"

definition order_type_from_gate :: "futures_order \<Rightarrow> order_type" where
  "order_type_from_gate fo =
     (if equal_fold (fo_tif fo) ''ioc'' \<and> parse_float (fo_price fo) = Fin 0 then MarketOrder else LimitOrder)"

definition nonzero_price :: "string \<Rightarrow> string" where
  "nonzero_price s = (let p = trim_space s in if parse_float p \<noteq> Fin 0 then p else [])"

definition order_view_from_futures :: "futures_order \<Rightarrow> order_snapshot" where
  "order_view_from_futures fo =
     \<lparr>os_exchange_id = show_int (fo_id fo), os_contract = canonical_contract (fo_contract fo),
      os_side = gate_size_side (fo_size fo), os_type = order_type_from_gate fo,
      os_size = trim_float_string (fabs (parse_float (fo_size fo))),
      os_price = nonzero_price (fo_price fo),
      os_filled = trim_float_string (futures_filled fo), os_avg = nonzero_price (fo_fill_price fo),
      os_status = map_futures_order_status fo, os_client = trim_space (fo_text fo),
      os_created = futures_time (fo_create_time fo), os_updated = futures_time (fo_update_time fo)\<rparr>"

record gate_position =
  gp_contract :: string
  gp_size :: string
  gp_entry :: string
  gp_mark :: string
  gp_pnl :: string
  gp_lever :: string
  gp_leverage :: string
  gp_update_time :: int

definition position_view :: "go_time \<Rightarrow> string \<Rightarrow> gate_position \<Rightarrow> position result" where
  "position_view now contract p =
     (let sz = parse_float (gp_size p)
      in if sz = Fin 0 then Inl (ExchError ''POSITION_NOT_FOUND'' (canonical_contract contract) None)
         else let lev = (if gp_lever p = [] then gp_leverage p else gp_lever p)
              in Inr \<lparr>p_contract = canonical_contract contract,
                      p_side = (if float_less sz (Fin 0) then PosShort else PosLong),
                      p_size = trim_float_string (fabs sz), p_entry = trim_space (gp_entry p),
                      p_mark = trim_space (gp_mark p), p_pnl = trim_space (gp_pnl p),
                      p_leverage = int64_of (parse_float lev),
                      p_updated = (if 0 < gp_update_time p then gate_unix_time (gp_update_time p) else now)\<rparr>)"

record gate_candle =
  gc_t :: go_float
  gc_o :: string
  gc_h :: string
  gc_l :: string
  gc_c :: string
  gc_v :: string
  gc_sum :: string

definition candlestick_from_rest :: "string \<Rightarrow> string \<Rightarrow> gate_candle option \<Rightarrow> candle option" where
  "candlestick_from_rest gate_contract interval rowo =
     (case rowo of
        None \<Rightarrow> None
      | Some row \<Rightarrow>
          let ts = int64_of (gc_t row)
          in if ts \<le> 0 then None
             else Some \<lparr>c_contract = canonical_contract gate_contract, c_interval = interval,
                        c_open = trim_space (gc_o row), c_high = trim_space (gc_h row),
                        c_low = trim_space (gc_l row), c_close = trim_space (gc_c row),
                        c_volume = trim_space (gc_v row), c_volume_base = trim_space (gc_sum row),
                        c_sec = ts, c_closed = True\<rparr>)"

subsection \<open>Websocket rows\<close>

text \<open>A decoded JSON value; \<open>GInt\<close> is an integer the normalisation writes back. A row is the map of
  an object's members.\<close>

datatype gval = GNull | GBool bool | GNum go_float | GInt int | GStr string | GArr "gval list" | GObj "(string \<times> gval) list"

type_synonym row = "string \<rightharpoonup> gval"

fun str_val :: "gval option \<Rightarrow> string" where
  "str_val (Some (GStr s)) = trim_space s"
| "str_val (Some (GNum f)) = trim_float_string f"
| "str_val _ = []"

fun int64_val :: "gval option \<Rightarrow> int" where
  "int64_val (Some (GNum f)) = int64_of f"
| "int64_val (Some (GInt i)) = i"
| "int64_val _ = 0"

fun bool_val :: "gval option \<Rightarrow> bool" where
  "bool_val (Some (GBool b)) = b"
| "bool_val _ = False"

definition str_pct :: "string \<Rightarrow> string" where
  "str_pct change =
     (let f = parse_float change in if f = Fin 0 then ''0'' else trim_float_string (fdiv_by f 100))"

definition parse_candlestick_name :: "string \<Rightarrow> string \<times> contract" where
  "parse_candlestick_name n0 =
     (let n = trim_space n0; i = length (takeWhile (\<lambda>c. c \<noteq> CHR ''_'') n)
      in if i = length n \<or> i = 0 \<or> length n - 1 \<le> i then ([], [])
         else (take i n, canonical_contract (drop (i + 1) n)))"

definition ticker_from_row :: "go_time \<Rightarrow> row \<Rightarrow> ticker_snapshot" where
  "ticker_from_row now row =
     \<lparr>tk_contract = canonical_contract (case row ''contract'' of Some (GStr s) \<Rightarrow> s | _ \<Rightarrow> []),
      tk_last = str_val (row ''last''), tk_mark = str_val (row ''mark_price''),
      tk_index = str_val (row ''index_price''), tk_funding = str_val (row ''funding_rate''),
      tk_change = str_pct (str_val (row ''change_percentage'')),
      tk_volume = str_val (row ''volume_24h''), tk_volume_base = str_val (row ''volume_24h_base''),
      tk_volume_quote = str_val (row ''volume_24h_quote''), tk_open_interest = str_val (row ''total_size''),
      tk_low = str_val (row ''low_24h''), tk_high = str_val (row ''high_24h''),
      tk_millis = now div 10 ^ 6\<rparr>"

definition candlestick_from_ws_row :: "row \<Rightarrow> candle option" where
  "candlestick_from_ws_row row =
     (case parse_candlestick_name (str_val (row ''n'')) of (interval, contract) \<Rightarrow>
        if contract = [] then None
        else Some \<lparr>c_contract = contract, c_interval = interval, c_open = str_val (row ''o''),
                   c_high = str_val (row ''h''), c_low = str_val (row ''l''), c_close = str_val (row ''c''),
                   c_volume = str_val (row ''v''), c_volume_base = str_val (row ''a''),
                   c_sec = int64_val (row ''t''), c_closed = bool_val (row ''w'')\<rparr>)"

definition balance_update_from_ws_row :: "go_time \<Rightarrow> row \<Rightarrow> balance_update option" where
  "balance_update_from_ws_row now row =
     (let currency = to_upper (str_val (row ''currency''))
      in if currency = [] then None
         else let ms = int64_val (row ''time_ms'');
                  ts = (if ms = 0 then wrap64 (int64_val (row ''time'') * 1000) else ms)
              in Some \<lparr>bu_currency = currency, bu_balance = str_val (row ''balance''),
                       bu_change = str_val (row ''change''), bu_change_type = str_val (row ''type''),
                       bu_text = str_val (row ''text''), bu_user = str_val (row ''user''),
                       bu_updated = (if 0 < ts then unix_milli ts else now)\<rparr>)"

definition zero_default :: "string \<Rightarrow> string" where
  "zero_default s = (if s = [] then ''0'' else s)"

definition user_trade_from_ws_row :: "go_time \<Rightarrow> row \<Rightarrow> trade_snapshot option" where
  "user_trade_from_ws_row now row =
     (let contract = canonical_contract (str_val (row ''contract'')); tid = str_val (row ''id'');
          size_raw = str_val (row ''size'')
      in if contract = [] then None
         else if tid = [] then None
         else if size_raw = [] then None
         else let ms = parse_float (str_val (row ''create_time_ms''));
                  ts = (if ms = Fin 0 then fmul (f64 (of_int (int64_val (row ''create_time'')))) (Fin 1000) else ms)
              in Some \<lparr>t_id = tid, t_exchange_id = str_val (row ''order_id''), t_contract = contract,
                       t_side = gate_size_side size_raw,
                       t_size = trim_float_string (fabs (parse_float size_raw)),
                       t_price = str_val (row ''price''), t_role = str_val (row ''role''),
                       t_fee = zero_default (str_val (row ''fee'')),
                       t_point_fee = zero_default (str_val (row ''point_fee'')),
                       t_text = str_val (row ''text''),
                       t_created = (if float_less (Fin 0) ts then futures_time ts else now)\<rparr>)"

definition position_time :: "go_time \<Rightarrow> row \<Rightarrow> go_time" where
  "position_time now row =
     (let ms = parse_float (str_val (row ''time_ms''));
          s = f64 (of_int (int64_val (row ''time'')));
          ts = (if ms = Fin 0
                then (if float_less (Fin 0) s \<and> float_less s (Fin (10 ^ 12)) then fmul s (Fin 1000) else s)
                else ms)
      in if float_less (Fin 0) ts then futures_time ts else now)"

definition position_from_ws_row :: "go_time \<Rightarrow> row \<Rightarrow> position option" where
  "position_from_ws_row now row =
     (let contract = canonical_contract (str_val (row ''contract''))
      in if contract = [] then None
         else let sz = parse_float (str_val (row ''size''));
                  un = str_val (row ''unrealised_pnl'')
              in Some \<lparr>p_contract = contract, p_side = (if float_less sz (Fin 0) then PosShort else PosLong),
                       p_size = trim_float_string (fabs sz), p_entry = str_val (row ''entry_price''),
                       p_mark = str_val (row ''mark_price''),
                       p_pnl = (if un = [] then str_val (row ''unrealized_pnl'') else un),
                       p_leverage = int64_val (row ''leverage''), p_updated = position_time now row\<rparr>)"

subsection \<open>Orders of the websocket\<close>

text \<open>\<open>fmt.Sprint\<close> of a decoded value: a float in its shortest form (\<open>%g\<close>), with an exponent
  when that is below -4 or at least 6, maps in key order.\<close>

definition format_exp :: "rat \<Rightarrow> string" where
  "format_exp q =
     (case exact_parts q of (c, n) \<Rightarrow> (case shortest q c n (length (show_nat c) - 1) of (m, r) \<Rightarrow>
        let ds = trim_right (CHR ''0'') (show_nat m);
            e = int (length (show_nat m)) + int r - int n - 1;
            es = show_nat (nat \<bar>e\<bar>)
        in take 1 ds @ (if length ds = 1 then [] else CHR ''.'' # drop 1 ds) @ ''e''
           @ (if e < 0 then ''-'' else ''+'') @ (if length es = 1 then CHR ''0'' # es else es)))"

definition decimal_exponent :: "rat \<Rightarrow> int" where
  "decimal_exponent q =
     (case exact_parts q of (c, n) \<Rightarrow> (case shortest q c n (length (show_nat c) - 1) of (m, r) \<Rightarrow>
        int (length (show_nat m)) + int r - int n - 1))"

fun format_g :: "go_float \<Rightarrow> string" where
  "format_g (Fin q) =
     (let e = decimal_exponent \<bar>q\<bar>
      in if q = 0 then ''0''
         else if e < -4 \<or> 6 \<le> e then (if q < 0 then ''-'' else []) @ format_exp \<bar>q\<bar>
         else format_float (Fin q))"
| "format_g x = format_float x"

fun sprint :: "gval \<Rightarrow> string" where
  "sprint GNull = ''<nil>''"
| "sprint (GBool b) = (if b then ''true'' else ''false'')"
| "sprint (GNum f) = format_g f"
| "sprint (GInt i) = show_int i"
| "sprint (GStr s) = s"
| "sprint (GArr vs) = ''['' @ join_with '' '' (map sprint vs) @ '']''"
| "sprint (GObj kvs) =
     ''map['' @ join_with '' '' (map (\<lambda>(k, s). k @ '':'' @ s)
        (sort_key (\<lambda>(k, s). map of_char k :: nat list) (map (\<lambda>(k, v). (k, sprint v)) kvs))) @ '']''"

definition ws_json_to_order_string :: "gval \<Rightarrow> string" where
  "ws_json_to_order_string v =
     (case v of
        GStr s \<Rightarrow> trim_space s
      | GNum f \<Rightarrow> trim_float_string f
      | GBool b \<Rightarrow> if b then ''true'' else ''false''
      | GNull \<Rightarrow> []
      | _ \<Rightarrow> trim_space (sprint v))"

definition ws_string_keys :: "string list" where
  "ws_string_keys =
     [''size'', ''iceberg'', ''price'', ''left'', ''fill_price'', ''tkfr'', ''mkfr'', ''market_order_slip_ratio'']"

definition put_int :: "nat \<Rightarrow> string \<Rightarrow> string \<Rightarrow> row \<Rightarrow> row" where
  "put_int bits key s m = (case parse_int bits s of None \<Rightarrow> m | Some i \<Rightarrow> m(key \<mapsto> GInt i))"

definition normalize_ws_order_map :: "row \<Rightarrow> row" where
  "normalize_ws_order_map m0 =
     (let m1 = fold (\<lambda>k m. case m k of None \<Rightarrow> m | Some v \<Rightarrow> m(k \<mapsto> GStr (ws_json_to_order_string v)))
                 ws_string_keys m0;
          m2 = (case m1 ''id_string'' of
                  Some (GStr s) \<Rightarrow> if trim_space s = [] then m1 else put_int 64 ''id'' (trim_space s) m1
                | _ \<Rightarrow> m1);
          m3 = (case m2 ''user'' of
                  Some (GStr s) \<Rightarrow> if trim_space s = [] then m2 else put_int 32 ''user'' (trim_space s) m2
                | _ \<Rightarrow> m2)
      in case m3 ''stp_id'' of Some (GStr s) \<Rightarrow> put_int 32 ''stp_id'' (trim_space s) m3 | _ \<Rightarrow> m3)"

text \<open>Encoding the row and decoding it into the generated order structure is the argument \<open>decode\<close>.\<close>

definition futures_order_from_ws_element :: "(row \<Rightarrow> futures_order option) \<Rightarrow> gval \<Rightarrow> futures_order option" where
  "futures_order_from_ws_element decode e =
     (case e of GObj kvs \<Rightarrow> decode (normalize_ws_order_map (map_of kvs)) | _ \<Rightarrow> None)"

subsection \<open>Orders there and back\<close>

lemma minus_prefix_show_nat: "\<not> has_prefix (show_nat n) ''-''"
proof
  assume "has_prefix (show_nat n) ''-''"
  then have "CHR ''-'' \<in> set (show_nat n)" by (cases "show_nat n") (auto simp: has_prefix_def)
  then show False using show_nat_digits dot_no_digit by blast
qed

lemma show_nat_not_zero: "0 < n \<Longrightarrow> show_nat n \<noteq> ''0''"
proof
  assume n: "0 < n" and "show_nat n = ''0''"
  then have "n = nat_of_digits ''0''" by (metis nat_of_digits_show_nat)
  then show False using n by (simp add: nat_of_digits_def digit_val_def)
qed

lemma zero_price: "parse_float ''0'' = Fin 0"
  by code_simp

lemma gate_order_size_nat:
  assumes "0 < n" and "gate_order_size_string (show_nat n) side = Inr s"
  shows "side = Buy \<and> s = show_nat n \<or> side = Sell \<and> s = CHR ''-'' # show_nat n"
proof -
  have "show_nat n \<noteq> ''0''" using assms(1) by (rule show_nat_not_zero)
  then show ?thesis
    using assms(2) minus_prefix_show_nat [of n]
    by (cases side) (auto simp: gate_order_size_string_def trim_space_show_nat)
qed

lemma side_of_signed:
  "gate_size_side (show_nat n) = Buy" "gate_size_side (CHR ''-'' # show_nat n) = Sell"
  using minus_prefix_show_nat [of n]
  by (simp_all add: gate_size_side_def trim_space_show_nat) (simp add: has_prefix_def)

lemma filled_nat:
  "l \<le> n \<Longrightarrow> n < 2 ^ 53 \<Longrightarrow> fmax0 (fsub (Fin (of_nat n)) (Fin (of_nat l))) = Fin (of_nat (n - l))"
  using fsub_nat [of l n] by (simp only: fmax0_def) simp

text \<open>An order of \<open>n\<close> contracts (below \<open>2^53\<close>), sent with the signed size Gate expects and reported
  with that size and the remainder \<open>l\<close> of either sign, is read as an order of the same side for
  \<open>n\<close> contracts of which \<open>n - l\<close> are filled.\<close>

lemma integer_order_view:
  assumes "0 < n" and "n < 2 ^ 53" and "l \<le> n"
    and "gate_order_size_string (show_nat n) side = Inr (fo_size fo)"
    and "parse_float (fo_left fo) = Fin (of_nat l) \<or> parse_float (fo_left fo) = Fin (- of_nat l)"
  shows "os_side (order_view_from_futures fo) = side \<and>
         os_size (order_view_from_futures fo) = show_nat n \<and>
         os_filled (order_view_from_futures fo) = show_nat (n - l)"
proof -
  from gate_order_size_nat [OF assms(1,4)]
  have s: "side = Buy \<and> fo_size fo = show_nat n \<or> side = Sell \<and> fo_size fo = CHR ''-'' # show_nat n" .
  then have "gate_size_side (fo_size fo) = side" and a: "fabs (parse_float (fo_size fo)) = Fin (of_nat n)"
    using side_of_signed assms(2) by (auto simp: parse_float_show_nat)
  moreover have b: "fabs (parse_float (fo_left fo)) = Fin (of_nat l)" using assms(5) by auto
  moreover have "futures_filled fo = Fin (of_nat (n - l))"
    using filled_nat [OF assms(3,2)] by (simp only: futures_filled_def a b Let_def)
  moreover have "trim_float_string (Fin (of_nat k)) = show_nat k" if "k \<le> n" for k
    using that assms(2) by (intro trim_float_nat) linarith
  ultimately show ?thesis by (simp add: order_view_from_futures_def)
qed

definition futures_order_ex :: "string \<Rightarrow> string \<Rightarrow> futures_order" where
  "futures_order_ex sz left =
     \<lparr>fo_id = 7, fo_contract = ''BTC_USDT'', fo_size = sz, fo_left = left, fo_price = ''0'',
      fo_fill_price = ''0'', fo_tif = ''ioc'', fo_text = ''t-1'', fo_status = ''open'', fo_finish_as = [],
      fo_create_time = Fin 1, fo_update_time = Fin 1\<rparr>"

text \<open>The status of an open order does not follow its fill: \<open>mapFuturesOrderStatus\<close> reads the
  remainder without taking its absolute value, which \<open>futuresFilled\<close> does. A sell order of \<open>n\<close>
  contracts with a signed remainder, partly filled, is reported as Submitted, with a positive filled
  size; the same order with an unsigned remainder is reported as PartialFilled.\<close>

theorem signed_remainder_hides_partial_fill:
  assumes "0 < l" and "l < n" and "n < 2 ^ 53"
    and "fo_status fo = ''open''" and "fo_size fo = CHR ''-'' # show_nat n"
  shows "(fo_left fo = CHR ''-'' # show_nat l \<longrightarrow>
            os_status (order_view_from_futures fo) = Submitted \<and>
            futures_filled fo = Fin (of_nat (n - l))) \<and>
         (fo_left fo = show_nat l \<longrightarrow>
            os_status (order_view_from_futures fo) = PartialFilled \<and>
            futures_filled fo = Fin (of_nat (n - l)))"
proof -
  have p: "parse_float (show_nat l) = Fin (of_nat l)" "parse_float (CHR ''-'' # show_nat l) = Fin (- of_nat l)"
      "parse_float (CHR ''-'' # show_nat n) = Fin (- of_nat n)"
    using assms by (auto simp: parse_float_show_nat)
  have f: "fmax0 (fsub (Fin (of_nat n)) (Fin (of_nat l))) = Fin (of_nat (n - l))"
    using assms by (intro filled_nat) auto
  show ?thesis
    using assms(1,2) by (simp add: order_view_from_futures_def map_futures_order_status_def futures_filled_def
        p f assms(4,5) Let_def del: of_nat_diff)
qed

theorem signed_remainder_hides_partial_fill_witness:
  "os_status (order_view_from_futures (futures_order_ex ''-5'' ''-2'')) = Submitted"
proof -
  have d: "show_nat 5 = ''5''" "show_nat 2 = ''2''" by code_simp+
  show ?thesis
    using signed_remainder_hides_partial_fill [of 2 5 "futures_order_ex ''-5'' ''-2''"]
    by (simp add: futures_order_ex_def d)
qed

end
