(* ===== verification/Reconcile.thy ===== *)
theory Reconcile
  imports OMS GateConvert
begin

text \<open>
  Recovery at start, \<open>internal/app/engine/reconcile.go\<close>: the strategies' states and the open orders
  are loaded from the store, each order is compared with the exchange through the executor of its
  market, and the result is loaded into the order management. Log lines are left out.
\<close>

subsection \<open>Strategy states\<close>

text \<open>\<open>decode\<close> is \<open>json.Unmarshal\<close> into an interface value; what does not decode is skipped. The
  rows come in the order of the range over the maps.\<close>

type_synonym strategy_states = "string \<Rightarrow> string \<rightharpoonup> gval"

definition load_state :: "(string \<Rightarrow> gval option) \<Rightarrow> string \<times> string \<times> string \<Rightarrow> strategy_states \<Rightarrow> strategy_states" where
  "load_state decode row st =
     (case row of (sn, k, raw) \<Rightarrow>
        (case decode raw of None \<Rightarrow> st | Some v \<Rightarrow> st(sn := (st sn)(k \<mapsto> v))))"

subsection \<open>Orders\<close>

text \<open>\<open>execs m\<close>: market \<open>m\<close> is registered and has an executor. The answer is the order as it is left
  in the list and the copy handed to \<open>SaveOrder\<close>, if any.\<close>

definition reconcile_one ::
  "(market \<Rightarrow> bool) \<Rightarrow> (order \<Rightarrow> order_event option result) \<Rightarrow> go_time \<Rightarrow> order \<Rightarrow> order \<times> order option" where
  "reconcile_one execs sync now ob =
     (if is_terminal (ord_status ob) then (ob, None)
      else if ord_exchange_id ob = [] then (ob, None)
      else
        let ob1 = (if market_valid (ord_market ob) then ob else ob\<lparr>ord_market := Perp\<rparr>)
        in if \<not> execs (ord_market ob1) then (ob1, None)
           else case sync ob1 of
             Inl e \<Rightarrow>
               if is_order_not_found e then
                 let ob2 = ob1\<lparr>ord_status := Cancelled, ord_updated := now\<rparr> in (ob2, Some ob2)
               else (ob1, None)
           | Inr None \<Rightarrow> (ob1, None)
           | Inr (Some ev) \<Rightarrow>
               let ob2 = ob1\<lparr>ord_status := oe_status ev, ord_filled := oe_filled ev, ord_updated := oe_updated ev\<rparr>
               in (ob2, Some ob2))"

text \<open>\<open>saved\<close> are the copies handed to the store, in order; a failed save is only logged.\<close>

definition reconcile_with_executors ::
  "bool \<Rightarrow> (market \<Rightarrow> bool) option \<Rightarrow> (order \<Rightarrow> order_event option result) \<Rightarrow> go_time \<Rightarrow> order option list \<Rightarrow>
   order option list \<times> order list" where
  "reconcile_with_executors store execso sync now obs =
     (case (store, execso) of
        (True, Some execs) \<Rightarrow>
          (map (map_option (\<lambda>ob. fst (reconcile_one execs sync now ob))) obs,
           List.map_filter (\<lambda>oo. case oo of None \<Rightarrow> None | Some ob \<Rightarrow> snd (reconcile_one execs sync now ob)) obs)
      | _ \<Rightarrow> (obs, []))"

text \<open>What the store answers to the two queries: the rows of the strategies' states, and the orders
  that are not in a terminal status.\<close>

record snapshot_store =
  ss_states :: "(string \<times> string \<times> string) list result"
  ss_orders :: "order option list result"

record recovery =
  rec_states :: strategy_states
  rec_oms :: oms
  rec_saved :: "order list"

definition load_snapshot_and_reconcile ::
  "snapshot_store option \<Rightarrow> (string \<Rightarrow> gval option) \<Rightarrow> (market \<Rightarrow> bool) option \<Rightarrow>
   (order \<Rightarrow> order_event option result) \<Rightarrow> go_time \<Rightarrow> recovery \<Rightarrow> go_error option \<times> recovery" where
  "load_snapshot_and_reconcile sto decode execso sync now r =
     (case sto of
        None \<Rightarrow> (None, r)
      | Some store \<Rightarrow> (case ss_states store of
          Inl e \<Rightarrow> (Some (Wrapf ''load strategy states: '' e), r)
        | Inr rows \<Rightarrow>
            let r1 = r\<lparr>rec_states := fold (load_state decode) rows (rec_states r)\<rparr>
            in case ss_orders store of
                 Inl e \<Rightarrow> (Some (Wrapf ''list non-terminal orders: '' e), r1)
               | Inr obs \<Rightarrow> (case reconcile_with_executors True execso sync now obs of (obs', saved) \<Rightarrow>
                   (None, r1\<lparr>rec_oms := hydrate_from_snapshot obs' (rec_oms r1), rec_saved := rec_saved r1 @ saved\<rparr>))))"

subsection \<open>What is recovered\<close>

lemma reconcile_one_id: "ord_id (fst (reconcile_one execs sync now ob)) = ord_id ob"
  by (auto simp: reconcile_one_def Let_def split: sum.split option.split)

lemma hydrate_other:
  "\<forall>ob. Some ob \<in> set obs \<longrightarrow> ord_id ob \<noteq> k \<Longrightarrow>
   oms_orders (hydrate_from_snapshot obs s) k = oms_orders s k"
  unfolding hydrate_from_snapshot_def
proof (induction obs arbitrary: s)
  case (Cons oo obs)
  then show ?case by (cases oo) (auto simp: hydrate_one_def put_order_def)
qed simp

lemma hydrate_default [simp]: "oms_default (hydrate_one oo s) = oms_default s"
  by (auto simp: hydrate_one_def put_order_def split: option.split)

lemma hydrate_lookup:
  assumes "distinct (map ord_id (map the (filter (\<lambda>oo. oo \<noteq> None) obs)))" and "Some ob \<in> set obs"
  shows "oms_orders (hydrate_from_snapshot obs s) (ord_id ob) =
    Some (ob\<lparr>ord_market := (if market_valid (ord_market ob) then ord_market ob else oms_default s)\<rparr>)"
  using assms
proof (induction obs arbitrary: s)
  case (Cons oo obs)
  show ?case
  proof (cases "oo = Some ob")
    case True
    then have "\<forall>x. Some x \<in> set obs \<longrightarrow> ord_id x \<noteq> ord_id ob"
      using Cons.prems(1) by (force simp: image_iff)
    then show ?thesis
      using True hydrate_other [of obs "ord_id ob" "hydrate_one oo s"]
      by (simp add: hydrate_from_snapshot_def hydrate_one_def put_order_def)
  next
    case False
    then have "Some ob \<in> set obs" using Cons.prems(2) by simp
    moreover have "distinct (map ord_id (map the (filter (\<lambda>oo. oo \<noteq> None) obs)))"
      using Cons.prems(1) by (cases oo) auto
    ultimately show ?thesis
      using Cons.IH [of "hydrate_one oo s"] by (simp add: hydrate_from_snapshot_def)
  qed
qed simp

lemma reconciled_ids: "map ord_id (map (\<lambda>ob. fst (reconcile_one execs sync now ob)) obs) = map ord_id obs"
  by (simp add: reconcile_one_id)

definition with_default_market :: "order \<Rightarrow> order" where
  "with_default_market ob = (if market_valid (ord_market ob) then ob else ob\<lparr>ord_market := Perp\<rparr>)"

lemma with_default_market_id [simp]:
  "market_valid (ord_market ob) \<Longrightarrow> with_default_market ob = ob"
  "with_default_market (with_default_market ob) = with_default_market ob"
  "ord_id (with_default_market ob) = ord_id ob"
  "ord_status (with_default_market ob) = ord_status ob"
  "ord_exchange_id (with_default_market ob) = ord_exchange_id ob"
  "ord_filled (with_default_market ob) = ord_filled ob"
  "market_valid (ord_market (with_default_market ob))"
  by (simp_all add: with_default_market_def market_valid_def)

lemma recovered_order:
  assumes "ss_states store = Inr rows" "ss_orders store = Inr (map Some obs)" "distinct (map ord_id obs)"
    and "ob \<in> set obs" "oms_default (rec_oms r) = Perp"
    and "load_snapshot_and_reconcile (Some store) decode (Some execs) sync now r = (e, r')"
  shows "oms_orders (rec_oms r') (ord_id ob) = Some (with_default_market (fst (reconcile_one execs sync now ob)))"
    and "snd (reconcile_one execs sync now ob) = Some sv \<Longrightarrow> sv \<in> set (rec_saved r')"
    and "e = None"
proof -
  let ?rec = "\<lambda>ob. fst (reconcile_one execs sync now ob)"
  define obs' where "obs' = map (\<lambda>ob. Some (?rec ob)) obs"
  have r': "e = None" "rec_oms r' = hydrate_from_snapshot obs' (rec_oms r)"
    "rec_saved r' = rec_saved r @ List.map_filter (\<lambda>ob. snd (reconcile_one execs sync now ob)) obs"
    using assms(6) by (auto simp: load_snapshot_and_reconcile_def reconcile_with_executors_def assms(1,2)
        obs'_def Let_def comp_def map_filter_def filter_map)
  have "filter (\<lambda>oo. oo \<noteq> None) obs' = obs'" by (auto simp: obs'_def filter_id_conv)
  then have d: "distinct (map ord_id (map the (filter (\<lambda>oo. oo \<noteq> None) obs')))"
    using assms(3) by (simp add: obs'_def comp_def reconcile_one_id)
  have "Some (?rec ob) \<in> set obs'" using assms(4) by (auto simp: obs'_def)
  from hydrate_lookup [OF d this, of "rec_oms r"]
  show "oms_orders (rec_oms r') (ord_id ob) = Some (with_default_market (?rec ob))"
    by (simp add: r'(2) reconcile_one_id assms(5) with_default_market_def)
  show "sv \<in> set (rec_saved r')" if "snd (reconcile_one execs sync now ob) = Some sv"
    using that assms(4) by (force simp: r'(3) map_filter_def)
qed (use assms(6) in \<open>auto simp: load_snapshot_and_reconcile_def reconcile_with_executors_def assms(1,2) Let_def\<close>)

text \<open>Recovery agrees with the exchange. The store answers a restart with the orders \<open>obs\<close>, with
  distinct ids. Then the start goes on, and for every order that is open, was placed (it has an
  exchange id) and belongs to a market with an executor (an order without market is taken as
  perpetual): if the exchange reports it, the order management holds it with the reported status,
  fill and time; if the exchange does not know it, the order management holds it as cancelled; in
  both cases what it holds was handed to the store; and if the exchange answers anything else, the
  order is held as it was loaded. An order that was never placed is held as it was loaded.\<close>

theorem recovery_agrees_with_exchange:
  assumes "ss_states store = Inr rows" "ss_orders store = Inr (map Some obs)" "distinct (map ord_id obs)"
    and "ob \<in> set obs" "oms_default (rec_oms r) = Perp" "\<not> is_terminal (ord_status ob)"
    and "load_snapshot_and_reconcile (Some store) decode (Some execs) sync now r = (e, r')"
    and "p = with_default_market ob"
  shows "e = None \<and>
    (ord_exchange_id ob = [] \<longrightarrow> oms_orders (rec_oms r') (ord_id ob) = Some p) \<and>
    (ord_exchange_id ob \<noteq> [] \<and> execs (ord_market p) \<longrightarrow>
      (\<forall>ev. sync p = Inr (Some ev) \<longrightarrow> (\<exists>q. oms_orders (rec_oms r') (ord_id ob) = Some q \<and>
         q = p\<lparr>ord_status := oe_status ev, ord_filled := oe_filled ev, ord_updated := oe_updated ev\<rparr> \<and>
         q \<in> set (rec_saved r'))) \<and>
      (\<forall>err. sync p = Inl err \<longrightarrow> is_order_not_found err \<longrightarrow> (\<exists>q. oms_orders (rec_oms r') (ord_id ob) = Some q \<and>
         q = p\<lparr>ord_status := Cancelled, ord_updated := now\<rparr> \<and> q \<in> set (rec_saved r'))) \<and>
      (\<forall>err. sync p = Inl err \<longrightarrow> \<not> is_order_not_found err \<longrightarrow> oms_orders (rec_oms r') (ord_id ob) = Some p))"
proof -
  note rec = recovered_order [OF assms(1-5,7)]
  have upd: "with_default_market (p\<lparr>ord_status := st, ord_filled := f, ord_updated := u\<rparr>) =
      p\<lparr>ord_status := st, ord_filled := f, ord_updated := u\<rparr>"
    "with_default_market (p\<lparr>ord_status := st, ord_updated := u\<rparr>) = p\<lparr>ord_status := st, ord_updated := u\<rparr>" for st f u
    by (simp_all add: assms(8) with_default_market_def market_valid_def)
  have eq: "reconcile_one execs sync now ob =
      (if ord_exchange_id ob = [] then (ob, None)
       else if \<not> execs (ord_market p) then (p, None)
       else case sync p of
         Inl err \<Rightarrow> if is_order_not_found err
           then (p\<lparr>ord_status := Cancelled, ord_updated := now\<rparr>, Some (p\<lparr>ord_status := Cancelled, ord_updated := now\<rparr>))
           else (p, None)
       | Inr None \<Rightarrow> (p, None)
       | Inr (Some ev) \<Rightarrow>
           (p\<lparr>ord_status := oe_status ev, ord_filled := oe_filled ev, ord_updated := oe_updated ev\<rparr>,
            Some (p\<lparr>ord_status := oe_status ev, ord_filled := oe_filled ev, ord_updated := oe_updated ev\<rparr>)))"
    using assms(6) by (auto simp: reconcile_one_def assms(8) with_default_market_def Let_def split: sum.split option.split)
  have pp: "with_default_market p = p" "with_default_market ob = p" by (simp_all add: assms(8))
  show ?thesis
    using rec unfolding eq by (auto simp: upd pp)
qed

definition open_ex :: "string \<Rightarrow> string \<Rightarrow> order" where
  "open_ex oid xid =
     \<lparr>ord_id = oid, ord_exchange_id = xid, ord_market = OtherMarket [], ord_symbol = ''BTC/USDT'', ord_side = Buy,
      ord_type = MarketOrder, ord_price = None, ord_size = ''5'', ord_filled = ''0'', ord_status = Submitted,
      ord_created = 0, ord_updated = 0, ord_stop_price = None, ord_strategy = ''s''\<rparr>"

definition filled_ex :: order_event where
  "filled_ex = \<lparr>oe_market = Perp, oe_exchange_id = ''7'', oe_client_id = ''a'', oe_status = Filled,
                oe_filled = ''5'', oe_updated = 3\<rparr>"

definition recovery_ex :: "go_error option \<times> recovery" where
  "recovery_ex = load_snapshot_and_reconcile
     (Some \<lparr>ss_states = Inr [], ss_orders = Inr (map Some [open_ex ''a'' ''7'', open_ex ''b'' []])\<rparr>)
     (\<lambda>_. None) (Some (\<lambda>m. m = Perp)) (\<lambda>_. Inr (Some filled_ex)) 9
     \<lparr>rec_states = (\<lambda>_. Map.empty), rec_oms = new_oms (\<lambda>m. m = Perp) True None 3, rec_saved = []\<rparr>"

theorem recovery_agrees_with_exchange_witness:
  "\<exists>q. oms_orders (rec_oms (snd recovery_ex)) ''a'' = Some q \<and> ord_status q = Filled \<and> ord_filled q = ''5'' \<and>
       ord_market q = Perp \<and> q \<in> set (rec_saved (snd recovery_ex))"
proof -
  have "fst recovery_ex = None \<and>
    (ord_exchange_id (open_ex ''a'' ''7'') = [] \<longrightarrow>
       oms_orders (rec_oms (snd recovery_ex)) (ord_id (open_ex ''a'' ''7'')) = Some (with_default_market (open_ex ''a'' ''7''))) \<and>
    (ord_exchange_id (open_ex ''a'' ''7'') \<noteq> [] \<and> ord_market (with_default_market (open_ex ''a'' ''7'')) = Perp \<longrightarrow>
      (\<forall>ev. (Inr (Some filled_ex) :: order_event option result) = Inr (Some ev) \<longrightarrow>
         (\<exists>q. oms_orders (rec_oms (snd recovery_ex)) (ord_id (open_ex ''a'' ''7'')) = Some q \<and>
         q = (with_default_market (open_ex ''a'' ''7''))\<lparr>ord_status := oe_status ev, ord_filled := oe_filled ev, ord_updated := oe_updated ev\<rparr> \<and>
         q \<in> set (rec_saved (snd recovery_ex)))) \<and>
      (\<forall>err. (Inr (Some filled_ex) :: order_event option result) = Inl err \<longrightarrow> is_order_not_found err \<longrightarrow>
         (\<exists>q. oms_orders (rec_oms (snd recovery_ex)) (ord_id (open_ex ''a'' ''7'')) = Some q \<and>
         q = (with_default_market (open_ex ''a'' ''7''))\<lparr>ord_status := Cancelled, ord_updated := 9\<rparr> \<and> q \<in> set (rec_saved (snd recovery_ex)))) \<and>
      (\<forall>err. (Inr (Some filled_ex) :: order_event option result) = Inl err \<longrightarrow> \<not> is_order_not_found err \<longrightarrow>
         oms_orders (rec_oms (snd recovery_ex)) (ord_id (open_ex ''a'' ''7'')) = Some (with_default_market (open_ex ''a'' ''7''))))"
    by (rule recovery_agrees_with_exchange [where store = "\<lparr>ss_states = Inr [], ss_orders = Inr (map Some [open_ex ''a'' ''7'', open_ex ''b'' []])\<rparr>"
          and sync = "\<lambda>_. Inr (Some filled_ex)" and execs = "\<lambda>m. m = Perp" and rows = "[]" and now = 9 and decode = "\<lambda>_. None"
          and r = "\<lparr>rec_states = (\<lambda>_. Map.empty), rec_oms = new_oms (\<lambda>m. m = Perp) True None 3, rec_saved = []\<rparr>"
          and obs = "[open_ex ''a'' ''7'', open_ex ''b'' []]"])
       (simp_all add: open_ex_def new_oms_def recovery_ex_def)
  moreover have "with_default_market (open_ex ''a'' ''7'') = (open_ex ''a'' ''7'')\<lparr>ord_market := Perp\<rparr>"
    by (simp add: with_default_market_def open_ex_def market_valid_def)
  ultimately show ?thesis by (auto simp: open_ex_def filled_ex_def)
qed

end
