(* ===== verification/Executor.thy ===== *)
theory Executor
  imports Sha256 Projection OMS
begin

text \<open>
  The perpetual executor \<open>internal/app/market/perp/executor.go\<close>: it places, cancels and queries
  orders at the exchange and turns the exchange's user events into order events, finding the
  engine's order id behind the exchange's client tag. \<open>pkg/exchange/perp/gateio/client_id.go\<close> makes
  the tags; what the executor needs of them is the locale \<open>client_codec\<close>.
\<close>

subsection \<open>Client tags\<close>

text \<open>\<open>ClientOrderIDCodec\<close>; \<open>None\<close> of \<open>local_of\<close> is its \<open>ok = false\<close>.\<close>

record codec =
  tag_of :: "string \<Rightarrow> string"
  local_of :: "string \<Rightarrow> string option"

definition gate_text_max :: nat where "gate_text_max = 30"
definition gate_body_max :: nat where "gate_body_max = gate_text_max - 2"

definition is_hex_string :: "string \<Rightarrow> bool" where
  "is_hex_string s \<longleftrightarrow> list_all hex_char s \<and> 0 < length s"

definition normalize_gate_text :: "string \<Rightarrow> string" where
  "normalize_gate_text id0 =
     (let raw0 = trim_space id0
      in if raw0 = [] then []
         else let raw1 = (if has_prefix raw0 ''t-'' then trim_prefix raw0 ''t-'' else raw0);
                  raw2 = (if gate_body_max < length raw1 then take gate_body_max (sha256_hex raw1) else raw1)
              in ''t-'' @ raw2)"

definition local_id_from_gate_text :: "string \<Rightarrow> string" where
  "local_id_from_gate_text text0 =
     (let text = trim_space text0
      in if text = [] \<or> \<not> has_prefix text ''t-'' then []
         else let body = trim_prefix text ''t-''
              in if length body = gate_body_max \<and> is_hex_string body then [] else body)"

definition gate_codec :: codec where
  "gate_codec =
     \<lparr>tag_of = normalize_gate_text,
      local_of = (\<lambda>tag. let l = local_id_from_gate_text tag in if l \<noteq> [] then Some l else None)\<rparr>"

subsection \<open>State and order calls\<close>

record executor =
  ex_tags :: "string \<rightharpoonup> string"
  ex_proj :: "projection option"
  ex_chan :: "order_event list"

definition event_cap :: nat where "event_cap = 64"

definition new_executor :: "projection option \<Rightarrow> executor" where
  "new_executor p = \<lparr>ex_tags = Map.empty, ex_proj = p, ex_chan = []\<rparr>"

definition register_client_tag :: "codec \<Rightarrow> string \<Rightarrow> executor \<Rightarrow> executor" where
  "register_client_tag C local ex =
     (if local = [] then ex
      else let tag = tag_of C local
           in if tag = [] then ex else ex\<lparr>ex_tags := (ex_tags ex)(tag \<mapsto> local)\<rparr>)"

definition unregister_client_tag :: "string \<Rightarrow> executor \<Rightarrow> executor" where
  "unregister_client_tag tag0 ex =
     (let tag = trim_space tag0
      in if tag = [] then ex else ex\<lparr>ex_tags := (ex_tags ex)(tag := None)\<rparr>)"

definition resolve_local_client_id :: "codec \<Rightarrow> executor \<Rightarrow> string \<Rightarrow> string" where
  "resolve_local_client_id C ex tag0 =
     (let tag = trim_space tag0
      in if tag = [] then []
         else case ex_tags ex tag of
           Some local \<Rightarrow> local
         | None \<Rightarrow> (case local_of C tag of Some local \<Rightarrow> local | None \<Rightarrow> []))"

definition request_of :: "order \<Rightarrow> place_request" where
  "request_of ob =
     \<lparr>pr_contract = ord_symbol ob, pr_side = ord_side ob, pr_type = ord_type ob, pr_size = ord_size ob,
      pr_price = ord_price ob, pr_tif = GTC, pr_reduce_only = False, pr_client_id = ord_id ob\<rparr>"

text \<open>\<open>answer\<close> is the exchange's reply; the tag is registered once it is there.\<close>

definition place_order ::
  "codec \<Rightarrow> (place_request \<Rightarrow> order_snapshot option result) \<Rightarrow> order option \<Rightarrow> executor \<Rightarrow>
   string result \<times> executor" where
  "place_order C answer obo ex =
     (case obo of
        None \<Rightarrow> (Inl (Errorf ''nil order''), ex)
      | Some ob \<Rightarrow> (case answer (request_of ob) of
          Inl e \<Rightarrow> (Inl e, ex)
        | Inr None \<Rightarrow> (Inl (Errorf ''nil place response''), ex)
        | Inr (Some resp) \<Rightarrow> (Inr (os_exchange_id resp), register_client_tag C (ord_id ob) ex)))"

definition cancel_order :: "(contract \<Rightarrow> string \<Rightarrow> go_error option) \<Rightarrow> order option \<Rightarrow> go_error option" where
  "cancel_order answer obo =
     (case obo of None \<Rightarrow> Some (Errorf ''nil order'')
      | Some ob \<Rightarrow> answer (ord_symbol ob) (ord_exchange_id ob))"

definition sync_order ::
  "(contract \<Rightarrow> string \<Rightarrow> order_snapshot option result) \<Rightarrow> order option \<Rightarrow> order_event result" where
  "sync_order answer obo =
     (case obo of
        None \<Rightarrow> Inl (Errorf ''nil order'')
      | Some ob \<Rightarrow> (case answer (ord_symbol ob) (ord_exchange_id ob) of
          Inl e \<Rightarrow> Inl e
        | Inr None \<Rightarrow> Inl (Errorf ''nil order snapshot'')
        | Inr (Some snap) \<Rightarrow> Inr
            \<lparr>oe_market = Perp, oe_exchange_id = os_exchange_id snap, oe_client_id = ord_id ob,
             oe_status = os_status snap, oe_filled = os_filled snap, oe_updated = os_updated snap\<rparr>))"

subsection \<open>The pump\<close>

definition is_terminal_status :: "order_status \<Rightarrow> bool" where
  "is_terminal_status st \<longleftrightarrow> st = Filled \<or> st = Cancelled \<or> st = Rejected"

definition order_event_from_user_event ::
  "codec \<Rightarrow> executor \<Rightarrow> user_event option \<Rightarrow> (order_event \<times> string) option" where
  "order_event_from_user_event C ex evo =
     (case evo of
        None \<Rightarrow> None
      | Some ev \<Rightarrow>
          if ue_kind ev \<noteq> UserOrderUpdate then None
          else (case ev_order ev of
            None \<Rightarrow> None
          | Some ov \<Rightarrow>
              let tag = trim_space (os_client ov)
              in Some (\<lparr>oe_market = Perp, oe_exchange_id = os_exchange_id ov,
                        oe_client_id = resolve_local_client_id C ex tag, oe_status = os_status ov,
                        oe_filled = os_filled ov, oe_updated = os_updated ov\<rparr>, tag)))"

definition emit_order_event :: "order_event \<Rightarrow> executor \<Rightarrow> executor" where
  "emit_order_event oe ex =
     (if length (ex_chan ex) < event_cap then ex\<lparr>ex_chan := ex_chan ex @ [oe]\<rparr> else ex)"

definition pump_event :: "decimal_lib \<Rightarrow> codec \<Rightarrow> go_time \<Rightarrow> user_event option \<Rightarrow> executor \<Rightarrow> executor" where
  "pump_event D C now evo ex =
     (let ex1 = (case ex_proj ex of None \<Rightarrow> ex
                 | Some p \<Rightarrow> ex\<lparr>ex_proj := Some (fst (proj_user_event D now evo p))\<rparr>)
      in case order_event_from_user_event C ex1 evo of
           None \<Rightarrow> ex1
         | Some (oe, tag) \<Rightarrow>
             let ex2 = emit_order_event oe ex1
             in if tag \<noteq> [] \<and> is_terminal_status (oe_status oe) then unregister_client_tag tag ex2 else ex2)"

subsection \<open>The codec's contract\<close>

text \<open>What the executor relies on: a tag carries no surrounding blanks, so that it is found again
  under the trimmed tag of an event, and an id that is not blank has one.\<close>

locale client_codec =
  fixes C :: codec
  assumes tag_trimmed: "trim_space (tag_of C local) = tag_of C local"
    and tag_nonempty: "trim_space local \<noteq> [] \<Longrightarrow> tag_of C local \<noteq> []"
begin

lemma resolve_registered:
  assumes "trim_space local \<noteq> []"
  shows "resolve_local_client_id C (register_client_tag C local ex) (tag_of C local) = local"
proof -
  have "local \<noteq> []" using assms by auto
  then show ?thesis
    using tag_nonempty [OF assms]
    by (simp add: resolve_local_client_id_def register_client_tag_def Let_def tag_trimmed)
qed

lemma registered_tags:
  assumes "trim_space local \<noteq> []"
  shows "ex_tags (register_client_tag C local ex) = (ex_tags ex)(tag_of C local \<mapsto> local)"
proof -
  have "local \<noteq> []" using assms by auto
  then show ?thesis using tag_nonempty [OF assms] by (simp add: register_client_tag_def Let_def)
qed

end

lemma trim_space_gate_prefix: "trim_space s = s \<Longrightarrow> trim_space (CHR ''-'' # s) = CHR ''-'' # s"
  "trim_space s = s \<Longrightarrow> trim_space (CHR ''t'' # s) = CHR ''t'' # s"
  by (intro trim_space_cons; simp add: go_spaces_def)+

lemma plain_char_t: "plain_char (CHR ''t'')"
  by (simp add: plain_char_def go_spaces_def)

lemma normalize_gate_text_eq:
  assumes "trim_space oid \<noteq> []"
  obtains body where "normalize_gate_text oid = ''t-'' @ body" "length body \<le> gate_body_max"
    "trim_space (''t-'' @ body) = ''t-'' @ body"
proof -
  let ?r0 = "trim_space oid"
  let ?r1 = "if has_prefix ?r0 ''t-'' then trim_prefix ?r0 ''t-'' else ?r0"
  have t1: "trim_space (''t-'' @ ?r1) = ''t-'' @ ?r1"
  proof (cases "has_prefix ?r0 ''t-''")
    case True
    then obtain t where e: "?r0 = ''t-'' @ t" unfolding has_prefix_def by (metis append_take_drop_id)
    have f: "trim_space (''t-'' @ t) = ''t-'' @ t" using trim_space_idem [of oid] unfolding e .
    have r: "?r1 = t" unfolding e by (simp add: has_prefix_def trim_prefix_def)
    show ?thesis unfolding r by (rule f)
  next
    case False
    have "trim_space (CHR ''t'' # CHR ''-'' # ?r0) = CHR ''t'' # CHR ''-'' # ?r0"
      by (intro trim_space_gate_prefix) simp
    then show ?thesis using False by simp
  qed
  have t2: "trim_space (''t-'' @ take gate_body_max (sha256_hex ?r1)) = ''t-'' @ take gate_body_max (sha256_hex ?r1)"
  proof (rule trim_space_plain, intro ballI)
    fix c assume "c \<in> set (''t-'' @ take gate_body_max (sha256_hex ?r1))"
    then consider "c = CHR ''t''" | "c = CHR ''-''" | "c \<in> set (sha256_hex ?r1)"
      using in_set_takeD [of c gate_body_max "sha256_hex ?r1"] by auto
    then show "plain_char c" using plain_char_t sha256_hex_chars by cases simp_all
  qed
  show ?thesis
  proof (cases "gate_body_max < length ?r1")
    case True
    then show ?thesis using that [of "take gate_body_max (sha256_hex ?r1)"] t2 assms
      by (simp add: normalize_gate_text_def Let_def length_sha256_hex)
  next
    case False
    then show ?thesis using that [of ?r1] t1 assms by (simp add: normalize_gate_text_def Let_def)
  qed
qed

interpretation gate: client_codec gate_codec
proof unfold_locales
  fix oid :: string
  show "trim_space (tag_of gate_codec oid) = tag_of gate_codec oid"
  proof (cases "trim_space oid = []")
    case True
    then show ?thesis by (simp add: gate_codec_def normalize_gate_text_def)
  next
    case False
    then show ?thesis by (rule normalize_gate_text_eq) (simp add: gate_codec_def)
  qed
  show "trim_space oid \<noteq> [] \<Longrightarrow> tag_of gate_codec oid \<noteq> []"
    by (erule normalize_gate_text_eq) (simp add: gate_codec_def)
qed

lemma gate_codec_core:
  assumes "trim_space oid = oid" and "oid \<noteq> []" and "\<not> has_prefix oid ''t-''"
  shows "length (tag_of gate_codec oid) \<le> gate_text_max \<and>
    local_of gate_codec (tag_of gate_codec oid) =
      (if length oid < 28 \<or> (length oid = 28 \<and> \<not> is_hex_string oid) then Some oid else None)"
proof -
  have n: "normalize_gate_text oid =
      ''t-'' @ (if gate_body_max < length oid then take gate_body_max (sha256_hex oid) else oid)"
    using assms by (simp add: normalize_gate_text_def)
  have ne: "trim_space oid \<noteq> []" using assms by simp
  obtain body where b: "normalize_gate_text oid = ''t-'' @ body" "length body \<le> gate_body_max"
      "trim_space (''t-'' @ body) = ''t-'' @ body" using normalize_gate_text_eq [OF ne] by blast
  have body: "body = (if gate_body_max < length oid then take gate_body_max (sha256_hex oid) else oid)"
    using n b(1) by simp
  have d: "local_id_from_gate_text (''t-'' @ body) =
      (if length body = gate_body_max \<and> is_hex_string body then [] else body)"
    unfolding local_id_from_gate_text_def b(3) by (simp add: trim_prefix_def has_prefix_def)
  have h: "is_hex_string (take gate_body_max (sha256_hex oid))"
    using sha256_hex_chars length_sha256_hex [of oid]
    by (auto simp: is_hex_string_def list_all_iff gate_body_max_def gate_text_max_def dest!: in_set_takeD)
  have l: "length (take gate_body_max (sha256_hex oid)) = gate_body_max"
    by (simp add: length_sha256_hex gate_body_max_def gate_text_max_def)
  have "length (normalize_gate_text oid) \<le> gate_text_max"
    using b(1,2) by (simp add: gate_body_max_def gate_text_max_def)
  moreover have "local_id_from_gate_text (normalize_gate_text oid) =
      (if length oid < 28 \<or> (length oid = 28 \<and> \<not> is_hex_string oid) then oid else [])"
    unfolding b(1) d
    using h l by (cases "gate_body_max < length oid") (auto simp: body gate_body_max_def gate_text_max_def)
  ultimately show ?thesis using assms(2) by (simp add: gate_codec_def)
qed

text \<open>C22. A tag fits the exchange's limit of 30 characters, and decoding it without the registry
  gives the id back exactly when the id has at most 28 characters and is not 28 hexadecimal digits;
  for every other id, such as the 36-character UUIDs of the decision engine, it gives nothing
  rather than a wrong id.\<close>

theorem gate_codec_roundtrip:
  assumes "trim_space oid = oid" and "oid \<noteq> []" and "\<not> has_prefix oid ''t-''"
  shows "length (tag_of gate_codec oid) \<le> gate_text_max \<and>
    local_of gate_codec (tag_of gate_codec oid) =
      (if length oid < 28 \<or> (length oid = 28 \<and> \<not> is_hex_string oid) then Some oid else None)"
  by (rule gate_codec_core [OF assms])

theorem gate_codec_roundtrip_witness:
  "local_of gate_codec (tag_of gate_codec ''order-7'') = Some ''order-7'' \<and>
   local_of gate_codec (tag_of gate_codec ''3f2504e0-4f89-41d3-9a0c-0305e82c3301'') = None"
proof -
  have "trim_space ''order-7'' = ''order-7''" "\<not> has_prefix ''order-7'' ''t-''" by code_simp+
  moreover have "trim_space ''3f2504e0-4f89-41d3-9a0c-0305e82c3301'' = ''3f2504e0-4f89-41d3-9a0c-0305e82c3301''"
    "\<not> has_prefix ''3f2504e0-4f89-41d3-9a0c-0305e82c3301'' ''t-''" by code_simp+
  ultimately show ?thesis
    using gate_codec_roundtrip [of "''order-7''"] gate_codec_roundtrip [of "''3f2504e0-4f89-41d3-9a0c-0305e82c3301''"]
    by simp
qed

subsection \<open>The tags of a run\<close>

datatype executor_input =
    Placed order order_snapshot
  | Pumped go_time "user_event option"

fun executor_step :: "decimal_lib \<Rightarrow> codec \<Rightarrow> executor_input \<Rightarrow> executor \<Rightarrow> executor" where
  "executor_step D C (Placed ob resp) ex = snd (place_order C (\<lambda>_. Inr (Some resp)) (Some ob) ex)"
| "executor_step D C (Pumped now ev) ex = pump_event D C now ev ex"

definition executor_run :: "decimal_lib \<Rightarrow> codec \<Rightarrow> executor_input list \<Rightarrow> executor \<Rightarrow> executor" where
  "executor_run D C is ex = fold (executor_step D C) is ex"

lemma executor_run_snoc: "executor_run D C (is @ [i]) ex = executor_step D C i (executor_run D C is ex)"
  by (simp add: executor_run_def)

text \<open>The tag an update closes, if it is terminal.\<close>

definition closes :: "user_event option \<Rightarrow> string \<Rightarrow> bool" where
  "closes evo tag \<longleftrightarrow>
     (case evo of None \<Rightarrow> False
      | Some ev \<Rightarrow> (case ev_order ev of None \<Rightarrow> False
          | Some ov \<Rightarrow> trim_space (os_client ov) = tag \<and> is_terminal_status (os_status ov)))"

text \<open>Reading the history backwards, the id a tag stands for: the last order placed under it,
  unless a terminal update of the tag came later.\<close>

fun spec_local :: "codec \<Rightarrow> string \<Rightarrow> executor_input list \<Rightarrow> string option" where
  "spec_local C tag [] = None"
| "spec_local C tag (Placed ob resp # is) =
     (if tag_of C (ord_id ob) = tag then Some (ord_id ob) else spec_local C tag is)"
| "spec_local C tag (Pumped now evo # is) = (if closes evo tag then None else spec_local C tag is)"

lemma pump_event_tags:
  assumes "tag \<noteq> []"
  shows "ex_tags (pump_event D C now evo ex) tag = (if closes evo tag then None else ex_tags ex tag)"
  using assms
  by (auto simp: pump_event_def order_event_from_user_event_def closes_def ev_order_def emit_order_event_def
      unregister_client_tag_def Let_def split: option.splits user_payload.splits)

definition good_ids :: "executor_input list \<Rightarrow> bool" where
  "good_ids is \<longleftrightarrow> (\<forall>ob resp. Placed ob resp \<in> set is \<longrightarrow> trim_space (ord_id ob) \<noteq> [])"

lemma run_tags:
  assumes "good_ids is" and "tag \<noteq> []"
  shows "ex_tags (executor_run D gate_codec is (new_executor p)) tag = spec_local gate_codec tag (rev is)"
  using assms(1)
proof (induction "is" rule: rev_induct)
  case Nil
  then show ?case by (simp add: executor_run_def new_executor_def)
next
  case (snoc i "is")
  then have g: "good_ids is" by (auto simp: good_ids_def)
  show ?case
  proof (cases i)
    case (Placed ob resp)
    then have "trim_space (ord_id ob) \<noteq> []" using snoc.prems by (auto simp: good_ids_def)
    from gate.registered_tags [OF this] show ?thesis
      using snoc.IH [OF g] Placed by (simp add: executor_run_snoc place_order_def)
  next
    case (Pumped now evo)
    then show ?thesis using snoc.IH [OF g] assms(2) by (simp add: executor_run_snoc pump_event_tags)
  qed
qed


definition placed_ex :: "string \<Rightarrow> order" where
  "placed_ex oid =
     \<lparr>ord_id = oid, ord_exchange_id = [], ord_market = Perp, ord_symbol = ''BTC/USDT'', ord_side = Buy,
      ord_type = MarketOrder, ord_price = None, ord_size = ''3'', ord_filled = ''0'', ord_status = Pending,
      ord_created = 0, ord_updated = 0, ord_stop_price = None, ord_strategy = ''ma''\<rparr>"

definition snapshot_ex :: "string \<Rightarrow> order_status \<Rightarrow> order_snapshot" where
  "snapshot_ex tag st =
     \<lparr>os_exchange_id = ''77'', os_contract = ''BTC/USDT'', os_side = Buy, os_type = MarketOrder,
      os_size = ''3'', os_price = [], os_filled = ''3'', os_avg = ''100'', os_status = st, os_client = tag,
      os_created = 0, os_updated = 5\<rparr>"

definition update_ex :: "order_snapshot \<Rightarrow> user_event" where
  "update_ex ov = \<lparr>ue_kind = UserOrderUpdate, ue_payload = Some (OrderP ov)\<rparr>"

definition uuid_ex :: string where
  "uuid_ex = ''3f2504e0-4f89-41d3-9a0c-0305e82c3301''"

lemma uuid_ex_facts: "trim_space uuid_ex = uuid_ex" "\<not> has_prefix uuid_ex ''t-''" "length uuid_ex = 36"
  by (code_simp)+


subsection \<open>Updates that arrive before the reply\<close>

text \<open>An update that reaches the pump before the exchange's reply to the placement has been
  handled, and so before the tag is registered, is lost for an order whose id is longer than 28
  characters: the order event names no order, and the order manager, which does not know the
  exchange's id yet either, ignores it. A market order that fills at once stays Submitted.\<close>

theorem early_update_is_lost:
  assumes "trim_space oid = oid" and "28 < length oid" and "\<not> has_prefix oid ''t-''"
    and "ex_tags ex (tag_of gate_codec oid) = None"
    and "ev_order ev = Some ov" and "os_client ov = tag_of gate_codec oid"
    and "\<forall>ob \<in> set (map_values ks (oms_orders s)). ord_exchange_id ob \<noteq> os_exchange_id ov"
  shows "\<exists>oe. order_event_from_user_event gate_codec ex (Some ev) = Some (oe, tag_of gate_codec oid) \<and>
    oe_client_id oe = [] \<and> apply_order_event env ks (Some oe) s = s"
proof -
  have k: "ue_kind ev = UserOrderUpdate" using assms(5) by (auto simp: ev_order_def split: if_splits)
  have ne: "oid \<noteq> []" using assms(2) by auto
  have l: "local_of gate_codec (tag_of gate_codec oid) = None"
    using gate_codec_core [OF assms(1) ne assms(3)] assms(2) by simp
  have f: "find (\<lambda>ob. ord_exchange_id ob = os_exchange_id ov) (map_values ks (oms_orders s)) = None"
    using assms(7) by (auto simp: find_None_iff)
  show ?thesis
    using assms(4-6) k l f
    by (auto simp: order_event_from_user_event_def resolve_local_client_id_def Let_def gate.tag_trimmed
        apply_order_event_def event_order_def)
qed

theorem early_update_is_lost_witness:
  "\<exists>oe. order_event_from_user_event gate_codec (new_executor None)
      (Some (update_ex (snapshot_ex (tag_of gate_codec uuid_ex) Filled))) = Some (oe, tag_of gate_codec uuid_ex) \<and>
    oe_client_id oe = []"
proof -
  let ?ov = "snapshot_ex (tag_of gate_codec uuid_ex) Filled"
  let ?s = "put_order (placed_ex uuid_ex) (new_oms (\<lambda>_. True) False None 3)"
  have "\<forall>ob \<in> set (map_values [uuid_ex] (oms_orders ?s)). ord_exchange_id ob \<noteq> os_exchange_id ?ov"
    by (simp add: put_order_def new_oms_def placed_ex_def snapshot_ex_def)
  from early_update_is_lost [OF uuid_ex_facts(1) _ uuid_ex_facts(2) _ _ _ this, of "new_executor None" "update_ex ?ov"]
  show ?thesis by (auto simp: uuid_ex_facts new_executor_def ev_order_def update_ex_def snapshot_ex_def)
qed

end
