(* ===== verification/GateWS.thy ===== *)
theory GateWS
  imports GateConvert Sha512 "HOL-Library.AList"
begin

text \<open>
  The websocket side of the Gate adapter: \<open>ws_channel.go\<close> (channels and their payloads), \<open>ws.go\<close>
  (the hub: subscriptions, dispatch, reconnection) and \<open>ws_handlers.go\<close> (messages to events). The
  socket is three arguments: what dialling answers, whether the n-th write fails, and what the
  read loop reads. \<open>hub_out\<close> lists the messages written on the present connection, from which what
  the exchange holds open is computed; the code keeps no such list.
\<close>

subsection \<open>The event channels\<close>

record channels =
  ch_pub :: "public_event list"
  ch_pub_cap :: nat
  ch_user :: "user_event list"
  ch_user_cap :: nat

text \<open>A full channel drops the event.\<close>

definition push_public :: "public_event \<Rightarrow> channels \<Rightarrow> channels" where
  "push_public ev ch = (if length (ch_pub ch) < ch_pub_cap ch then ch\<lparr>ch_pub := ch_pub ch @ [ev]\<rparr> else ch)"

definition push_user :: "user_event \<Rightarrow> channels \<Rightarrow> channels" where
  "push_user ev ch = (if length (ch_user ch) < ch_user_cap ch then ch\<lparr>ch_user := ch_user ch @ [ev]\<rparr> else ch)"

definition emit_public :: "public_kind \<Rightarrow> public_payload \<Rightarrow> channels \<Rightarrow> channels" where
  "emit_public k p ch = (case new_public_event k (Some p) of Inl _ \<Rightarrow> ch | Inr ev \<Rightarrow> push_public ev ch)"

definition emit_user :: "user_kind \<Rightarrow> user_payload \<Rightarrow> channels \<Rightarrow> channels" where
  "emit_user k p ch = (case new_user_event k (Some p) of Inl _ \<Rightarrow> ch | Inr ev \<Rightarrow> push_user ev ch)"

subsection \<open>Handlers\<close>

text \<open>The clock reads the same instant for all the rows of a message.\<close>

record ws_env =
  we_now :: go_time
  we_decode :: "row \<Rightarrow> futures_order option"

definition object_rows :: "gval list \<Rightarrow> row list" where
  "object_rows vs = List.map_filter (\<lambda>v. case v of GObj kvs \<Rightarrow> Some (map_of kvs) | _ \<Rightarrow> None) vs"

definition message_rows :: "row \<Rightarrow> row list" where
  "message_rows msg =
     (case msg ''result'' of
        Some (GArr vs) \<Rightarrow> object_rows vs
      | Some (GObj kvs) \<Rightarrow> [map_of kvs]
      | _ \<Rightarrow> [])"

text \<open>Only the first row of a ticker message is read.\<close>

definition handle_ticker :: "ws_env \<Rightarrow> row \<Rightarrow> channels \<Rightarrow> channels" where
  "handle_ticker env msg ch =
     (case msg ''result'' of
        Some (GArr (GObj kvs # _)) \<Rightarrow>
          emit_public PublicTicker (TickerP (ticker_from_row (we_now env) (map_of kvs))) ch
      | _ \<Rightarrow> ch)"

definition handle_candlestick :: "ws_env \<Rightarrow> row \<Rightarrow> channels \<Rightarrow> channels" where
  "handle_candlestick env msg ch =
     fold (\<lambda>r c. case candlestick_from_ws_row r of None \<Rightarrow> c
                 | Some s \<Rightarrow> emit_public PublicCandlestick (CandleP s) c) (message_rows msg) ch"

definition handle_balances :: "ws_env \<Rightarrow> row \<Rightarrow> channels \<Rightarrow> channels" where
  "handle_balances env msg ch =
     fold (\<lambda>r c. case balance_update_from_ws_row (we_now env) r of None \<Rightarrow> c
                 | Some s \<Rightarrow> emit_user UserBalanceUpdate (BalanceP s) c) (message_rows msg) ch"

definition handle_positions :: "ws_env \<Rightarrow> row \<Rightarrow> channels \<Rightarrow> channels" where
  "handle_positions env msg ch =
     fold (\<lambda>r c. case position_from_ws_row (we_now env) r of None \<Rightarrow> c
                 | Some s \<Rightarrow> emit_user UserPositionUpdate (PositionP s) c) (message_rows msg) ch"

definition handle_user_trades :: "ws_env \<Rightarrow> row \<Rightarrow> channels \<Rightarrow> channels" where
  "handle_user_trades env msg ch =
     fold (\<lambda>r c. case user_trade_from_ws_row (we_now env) r of None \<Rightarrow> c
                 | Some s \<Rightarrow> emit_user UserTradeUpdate (TradeP s) c) (message_rows msg) ch"

definition message_orders :: "ws_env \<Rightarrow> row \<Rightarrow> futures_order list" where
  "message_orders env msg =
     (case msg ''result'' of
        Some (GArr vs) \<Rightarrow> List.map_filter (futures_order_from_ws_element (we_decode env)) vs
      | Some (GObj kvs) \<Rightarrow> (case futures_order_from_ws_element (we_decode env) (GObj kvs) of
                              None \<Rightarrow> [] | Some fo \<Rightarrow> [fo])
      | _ \<Rightarrow> [])"

definition handle_order :: "ws_env \<Rightarrow> row \<Rightarrow> channels \<Rightarrow> channels" where
  "handle_order env msg ch =
     fold (\<lambda>fo. emit_user UserOrderUpdate (OrderP (order_view_from_futures fo))) (message_orders env msg) ch"

subsection \<open>Channels and payloads\<close>

type_synonym payloads = "string list list"

definition expand_contract_only :: "string \<Rightarrow> subscription \<Rightarrow> payloads result" where
  "expand_contract_only user sub =
     (if sub_contracts sub = [] then Inl (invalid_parameter (''contracts required for '' @ sub_channel sub))
      else Inr (map (\<lambda>ct. [to_gate_contract (canonical_contract ct)]) (sub_contracts sub)))"

definition expand_contract_auth :: "string \<Rightarrow> subscription \<Rightarrow> payloads result" where
  "expand_contract_auth user sub = expand_contract_only [] sub"

definition no_user :: go_error where
  "no_user = invalid_parameter ''private channel requires gateio.WithUserID''"

definition expand_user_only :: "string \<Rightarrow> subscription \<Rightarrow> payloads result" where
  "expand_user_only user sub =
     (let uid = trim_space user in if uid = [] then Inl no_user else Inr [[uid]])"

definition expand_user_contract :: "string \<Rightarrow> subscription \<Rightarrow> payloads result" where
  "expand_user_contract user sub =
     (let uid = trim_space user
      in if uid = [] then Inl no_user
         else if sub_contracts sub = [] then Inr [[uid, ''!all'']]
         else Inr (map (\<lambda>ct. [uid, to_gate_contract (canonical_contract ct)]) (sub_contracts sub)))"

definition expand_raw_payload :: "string \<Rightarrow> subscription \<Rightarrow> payloads result" where
  "expand_raw_payload user sub =
     (if sub_payload sub = [] then Inl (invalid_parameter (sub_channel sub @ '' requires Payload''))
      else Inr [sub_payload sub])"

text \<open>Entry \<open>i\<close> of the payload when there is one that is not blank.\<close>

definition payload_or :: "nat \<Rightarrow> string \<Rightarrow> subscription \<Rightarrow> string" where
  "payload_or i d sub =
     (if i < length (sub_payload sub) \<and> trim_space (sub_payload sub ! i) \<noteq> []
      then trim_space (sub_payload sub ! i) else d)"

definition with_contracts ::
  "string \<Rightarrow> (string \<Rightarrow> string list) \<Rightarrow> subscription \<Rightarrow> payloads result" where
  "with_contracts channel f sub =
     (if sub_contracts sub = [] then Inl (invalid_parameter (channel @ '' requires contract''))
      else Inr (map (\<lambda>ct. f (to_gate_contract (canonical_contract ct))) (sub_contracts sub)))"

definition expand_candlesticks :: "string \<Rightarrow> subscription \<Rightarrow> payloads result" where
  "expand_candlesticks user sub =
     (let interval = payload_or 0 [] sub
      in if interval = [] then Inl (invalid_parameter ''futures.candlesticks requires interval in Payload[0]'')
         else with_contracts ''futures.candlesticks'' (\<lambda>ct. [interval, ct]) sub)"

definition expand_order_book :: "string \<Rightarrow> subscription \<Rightarrow> payloads result" where
  "expand_order_book user sub =
     (let limit = payload_or 0 ''20'' sub; interval = payload_or 1 ''0'' sub
      in with_contracts ''futures.order_book'' (\<lambda>ct. [ct, limit, interval]) sub)"

definition expand_order_book_update :: "string \<Rightarrow> subscription \<Rightarrow> payloads result" where
  "expand_order_book_update user sub =
     (let frequency = payload_or 0 ''100ms'' sub; level = payload_or 1 ''100'' sub
      in with_contracts ''futures.order_book_update'' (\<lambda>ct. [ct, frequency, level]) sub)"

definition expand_contract_stats :: "string \<Rightarrow> subscription \<Rightarrow> payloads result" where
  "expand_contract_stats user sub =
     (let interval = payload_or 0 ''1m'' sub
      in with_contracts ''futures.contract_stats'' (\<lambda>ct. [ct, interval]) sub)"

record ws_spec =
  ws_name :: string
  ws_private :: bool
  ws_expand :: "string \<Rightarrow> subscription \<Rightarrow> payloads result"
  ws_on_update :: "(ws_env \<Rightarrow> row \<Rightarrow> channels \<Rightarrow> channels) option"

definition ws_channel_registry :: "ws_spec list" where
  "ws_channel_registry =
    [\<lparr>ws_name = ''futures.tickers'', ws_private = False, ws_expand = expand_contract_only, ws_on_update = Some handle_ticker\<rparr>,
     \<lparr>ws_name = ''futures.trades'', ws_private = False, ws_expand = expand_contract_only, ws_on_update = None\<rparr>,
     \<lparr>ws_name = ''futures.order_book'', ws_private = False, ws_expand = expand_order_book, ws_on_update = None\<rparr>,
     \<lparr>ws_name = ''futures.order_book_update'', ws_private = False, ws_expand = expand_order_book_update, ws_on_update = None\<rparr>,
     \<lparr>ws_name = ''futures.book_ticker'', ws_private = False, ws_expand = expand_contract_only, ws_on_update = None\<rparr>,
     \<lparr>ws_name = ''futures.obu'', ws_private = False, ws_expand = expand_raw_payload, ws_on_update = None\<rparr>,
     \<lparr>ws_name = ''futures.candlesticks'', ws_private = False, ws_expand = expand_candlesticks, ws_on_update = Some handle_candlestick\<rparr>,
     \<lparr>ws_name = ''futures.public_liquidates'', ws_private = False, ws_expand = expand_contract_only, ws_on_update = None\<rparr>,
     \<lparr>ws_name = ''futures.contract_stats'', ws_private = False, ws_expand = expand_contract_stats, ws_on_update = None\<rparr>,
     \<lparr>ws_name = ''futures.orders'', ws_private = True, ws_expand = expand_user_contract, ws_on_update = Some handle_order\<rparr>,
     \<lparr>ws_name = ''futures.usertrades'', ws_private = True, ws_expand = expand_user_contract, ws_on_update = Some handle_user_trades\<rparr>,
     \<lparr>ws_name = ''futures.liquidates'', ws_private = True, ws_expand = expand_user_contract, ws_on_update = None\<rparr>,
     \<lparr>ws_name = ''futures.auto_deleverages'', ws_private = True, ws_expand = expand_user_contract, ws_on_update = None\<rparr>,
     \<lparr>ws_name = ''futures.position_closes'', ws_private = True, ws_expand = expand_user_contract, ws_on_update = None\<rparr>,
     \<lparr>ws_name = ''futures.balances'', ws_private = True, ws_expand = expand_user_only, ws_on_update = Some handle_balances\<rparr>,
     \<lparr>ws_name = ''futures.reduce_risk_limits'', ws_private = True, ws_expand = expand_user_contract, ws_on_update = None\<rparr>,
     \<lparr>ws_name = ''futures.positions'', ws_private = True, ws_expand = expand_user_contract, ws_on_update = Some handle_positions\<rparr>,
     \<lparr>ws_name = ''futures.position_adl_rank'', ws_private = True, ws_expand = expand_contract_auth, ws_on_update = None\<rparr>,
     \<lparr>ws_name = ''futures.autoorders'', ws_private = True, ws_expand = expand_contract_auth, ws_on_update = None\<rparr>]"

definition ws_channel_spec_for :: "string \<Rightarrow> ws_spec option" where
  "ws_channel_spec_for name = find (\<lambda>s. ws_name s = name) ws_channel_registry"

definition normalize_ws_channel :: "string \<Rightarrow> string" where
  "normalize_ws_channel ch0 = (let ch = trim_space ch0 in if ch = [] then ''futures.tickers'' else ch)"

definition ws_sub_key :: "string \<Rightarrow> string list \<Rightarrow> string" where
  "ws_sub_key channel payload = channel @ ''|'' @ join_with '','' payload"

subsection \<open>The hub\<close>

record ws_request =
  rq_time :: int
  rq_channel :: string
  rq_event :: string
  rq_payload :: "string list"
  rq_auth :: "(string \<times> string) option"

record hub =
  hub_user :: string
  hub_key :: string
  hub_secret :: string
  hub_conn :: bool
  hub_started :: bool
  hub_done :: bool
  hub_active :: "(string \<times> (string \<times> string list) list) list"
  hub_backoff :: duration
  hub_writes :: nat
  hub_out :: "ws_request list"

definition max_backoff :: duration where
  "max_backoff = 30 * second"

definition new_hub :: "string \<Rightarrow> string \<Rightarrow> string \<Rightarrow> hub" where
  "new_hub user key secret =
     \<lparr>hub_user = user, hub_key = key, hub_secret = secret, hub_conn = False, hub_started = False,
      hub_done = False, hub_active = [], hub_backoff = second, hub_writes = 0, hub_out = []\<rparr>"

definition ws_sign :: "string \<Rightarrow> string \<Rightarrow> string \<Rightarrow> int \<Rightarrow> string" where
  "ws_sign secret channel event ts =
     hmac_sha512_hex secret (''channel='' @ channel @ ''&event='' @ event @ ''&time='' @ show_int ts)"

definition ws_connect :: "go_error option \<Rightarrow> hub \<Rightarrow> go_error option \<times> hub" where
  "ws_connect dial h =
     (if hub_conn h then (None, h)
      else case dial of
        Some e \<Rightarrow> (Some (ExchError ''CONNECTION_ERROR'' ''websocket dial'' (Some e)), h)
      | None \<Rightarrow> (None, h\<lparr>hub_conn := True, hub_out := [], hub_started := True, hub_backoff := second\<rparr>))"

definition shutdown :: "hub \<Rightarrow> hub" where
  "shutdown h = h\<lparr>hub_done := True, hub_started := False, hub_conn := False, hub_out := []\<rparr>"

definition write_channel_event ::
  "(nat \<Rightarrow> go_error option) \<Rightarrow> go_time \<Rightarrow> ws_spec \<Rightarrow> string \<Rightarrow> string list \<Rightarrow> hub \<Rightarrow> go_error option \<times> hub" where
  "write_channel_event wr now spec event payload h =
     (let ts = now div 10 ^ 9;
          msg = \<lparr>rq_time = ts, rq_channel = ws_name spec, rq_event = event, rq_payload = payload,
                 rq_auth = (if ws_private spec
                            then Some (hub_key h, ws_sign (hub_secret h) (ws_name spec) event ts) else None)\<rparr>;
          h1 = h\<lparr>hub_writes := hub_writes h + 1\<rparr>
      in case wr (hub_writes h) of
           Some e \<Rightarrow> (Some (ExchError ''CONNECTION_ERROR'' (event @ '' '' @ ws_name spec) (Some e)), h1)
         | None \<Rightarrow> (None, h1\<lparr>hub_out := hub_out h1 @ [msg]\<rparr>))"

definition track_sub :: "string \<Rightarrow> string list \<Rightarrow> hub \<Rightarrow> hub" where
  "track_sub ch payload h =
     h\<lparr>hub_active := AList.update ch
         (AList.update (ws_sub_key ch payload) payload
            (case map_of (hub_active h) ch of None \<Rightarrow> [] | Some m \<Rightarrow> m)) (hub_active h)\<rparr>"

definition untrack_sub :: "string \<Rightarrow> string list \<Rightarrow> hub \<Rightarrow> hub" where
  "untrack_sub ch payload h =
     (case map_of (hub_active h) ch of
        None \<Rightarrow> h
      | Some m \<Rightarrow>
          let m' = AList.delete (ws_sub_key ch payload) m
          in h\<lparr>hub_active := (if m' = [] then AList.delete ch (hub_active h)
                              else AList.update ch m' (hub_active h))\<rparr>)"

fun write_payloads ::
  "(nat \<Rightarrow> go_error option) \<Rightarrow> go_time \<Rightarrow> string \<Rightarrow> bool \<Rightarrow> string \<Rightarrow> ws_spec \<Rightarrow> payloads \<Rightarrow> hub \<Rightarrow>
   go_error option \<times> hub" where
  "write_payloads wr now event track ch spec [] h = (None, h)"
| "write_payloads wr now event track ch spec (p # ps) h =
     (case write_channel_event wr now spec event p h of
        (Some e, h1) \<Rightarrow> (Some e, h1)
      | (None, h1) \<Rightarrow>
          write_payloads wr now event track ch spec ps
            (if track then track_sub ch p h1 else untrack_sub ch p h1))"

fun set_subs ::
  "(nat \<Rightarrow> go_error option) \<Rightarrow> go_time \<Rightarrow> string \<Rightarrow> bool \<Rightarrow> subscription option list \<Rightarrow> hub \<Rightarrow>
   go_error option \<times> hub" where
  "set_subs wr now event track [] h = (None, h)"
| "set_subs wr now event track (None # subs) h = set_subs wr now event track subs h"
| "set_subs wr now event track (Some sub # subs) h =
     (let ch = normalize_ws_channel (sub_channel sub)
      in case ws_channel_spec_for ch of
           None \<Rightarrow> (Some (ExchError ''NOT_SUPPORTED'' (''unsupported channel '' @ ch) None), h)
         | Some spec \<Rightarrow> (case ws_expand spec (hub_user h) (sub\<lparr>sub_channel := ch\<rparr>) of
             Inl e \<Rightarrow> (Some e, h)
           | Inr ps \<Rightarrow> (case write_payloads wr now event track ch spec ps h of
               (Some e, h1) \<Rightarrow> (Some e, h1)
             | (None, h1) \<Rightarrow> set_subs wr now event track subs h1)))"

definition set_subscriptions ::
  "(nat \<Rightarrow> go_error option) \<Rightarrow> go_time \<Rightarrow> string \<Rightarrow> bool \<Rightarrow> subscription option list \<Rightarrow> hub \<Rightarrow>
   go_error option \<times> hub" where
  "set_subscriptions wr now event track subs h =
     (if \<not> hub_conn h then (Some (ExchError ''NOT_CONNECTED'' ''websocket not connected'' None), h)
      else set_subs wr now event track subs h)"

definition hub_subscribe ::
  "(nat \<Rightarrow> go_error option) \<Rightarrow> go_time \<Rightarrow> subscription option list \<Rightarrow> hub \<Rightarrow> go_error option \<times> hub" where
  "hub_subscribe wr now = set_subscriptions wr now ''subscribe'' True"

definition hub_unsubscribe ::
  "(nat \<Rightarrow> go_error option) \<Rightarrow> go_time \<Rightarrow> subscription option list \<Rightarrow> hub \<Rightarrow> go_error option \<times> hub" where
  "hub_unsubscribe wr now = set_subscriptions wr now ''unsubscribe'' False"

text \<open>Control answers are only logged.\<close>

definition ws_dispatch :: "ws_env \<Rightarrow> row \<Rightarrow> channels \<Rightarrow> channels" where
  "ws_dispatch env msg ch =
     (let event = (case msg ''event'' of Some (GStr s) \<Rightarrow> s | _ \<Rightarrow> []);
          channel = (case msg ''channel'' of Some (GStr s) \<Rightarrow> s | _ \<Rightarrow> [])
      in if event = ''subscribe'' \<or> event = ''unsubscribe'' then ch
         else if event \<noteq> ''update'' then ch
         else case ws_channel_spec_for channel of
           None \<Rightarrow> ch
         | Some spec \<Rightarrow> (case ws_on_update spec of None \<Rightarrow> ch | Some f \<Rightarrow> f env msg ch))"

text \<open>The subscriptions are written again in the order of the range over the map, \<open>items\<close>; an
  error of a write is dropped.\<close>

fun resubscribe ::
  "(nat \<Rightarrow> go_error option) \<Rightarrow> go_time \<Rightarrow> (string \<times> string list) list \<Rightarrow> hub \<Rightarrow> hub" where
  "resubscribe wr now [] h = h"
| "resubscribe wr now ((ch, p) # items) h =
     (case ws_channel_spec_for ch of
        None \<Rightarrow> resubscribe wr now items h
      | Some spec \<Rightarrow> resubscribe wr now items (snd (write_channel_event wr now spec ''subscribe'' p h)))"

definition reconnect_after_error ::
  "go_error option \<Rightarrow> (nat \<Rightarrow> go_error option) \<Rightarrow> go_time \<Rightarrow> (string \<times> string list) list \<Rightarrow> hub \<Rightarrow>
   go_error option \<times> hub" where
  "reconnect_after_error dial wr now items h =
     (let h0 = h\<lparr>hub_conn := False, hub_out := []\<rparr>
      in if hub_done h0 then (Some (Errorf ''context canceled''), h0)
         else case ws_connect dial h0 of
           (Some e, h1) \<Rightarrow>
             (Some e, h1\<lparr>hub_backoff := (if max_backoff < 2 * hub_backoff h1 then max_backoff
                                         else 2 * hub_backoff h1)\<rparr>)
         | (None, h1) \<Rightarrow> (None, resubscribe wr now items (h1\<lparr>hub_backoff := second\<rparr>)))"

text \<open>One round of \<open>readLoop\<close>. Without a connection it sleeps for a second and goes round.\<close>

datatype ws_read = ReadMsg row | ReadError go_error

definition read_loop_step ::
  "ws_env \<Rightarrow> ws_read \<Rightarrow> go_error option \<Rightarrow> (nat \<Rightarrow> go_error option) \<Rightarrow> (string \<times> string list) list \<Rightarrow>
   hub \<times> channels \<Rightarrow> hub \<times> channels" where
  "read_loop_step env rd dial wr items s =
     (case s of (h, ch) \<Rightarrow>
        if hub_done h then (h, ch)
        else if \<not> hub_conn h then (h, ch)
        else case rd of
          ReadError e \<Rightarrow> (snd (reconnect_after_error dial wr (we_now env) items h), ch)
        | ReadMsg m \<Rightarrow> (h, ws_dispatch env m ch))"

subsection \<open>Payloads\<close>

text \<open>A payload the key of a subscription identifies: not empty, without commas.\<close>

definition plain_payload :: "string list \<Rightarrow> bool" where
  "plain_payload p \<longleftrightarrow> p \<noteq> [] \<and> (\<forall>x \<in> set p. CHR '','' \<notin> set x)"

definition plain_sub :: "subscription \<Rightarrow> bool" where
  "plain_sub sub \<longleftrightarrow> (\<forall>x \<in> set (sub_contracts sub) \<union> set (sub_payload sub). CHR '','' \<notin> set x)"

lemma comma_trim_space: "CHR '','' \<notin> set s \<Longrightarrow> CHR '','' \<notin> set (trim_space s)"
  using set_trim_space by blast

lemma comma_contract: "CHR '','' \<notin> set c \<Longrightarrow> CHR '','' \<notin> set (to_gate_contract (canonical_contract c))"
  using to_gate_contract_mem [of "CHR '',''" "canonical_contract c"] canonical_contract_mem [of "CHR '',''" c]
  by (auto simp: caseless_def)

lemma comma_payload_or: "plain_sub sub \<Longrightarrow> CHR '','' \<notin> set d \<Longrightarrow> CHR '','' \<notin> set (payload_or i d sub)"
  by (auto simp: payload_or_def plain_sub_def dest: comma_trim_space [OF _, THEN notE])

lemmas expand_defs =
  expand_contract_only_def expand_contract_auth_def expand_user_only_def expand_user_contract_def
  expand_raw_payload_def expand_candlesticks_def expand_order_book_def expand_order_book_update_def
  expand_contract_stats_def with_contracts_def

lemma ws_channel_spec_for_name: "ws_channel_spec_for ch = Some spec \<Longrightarrow> ws_name spec = ch \<and> spec \<in> set ws_channel_registry"
  unfolding ws_channel_spec_for_def by (auto dest: find_Some_mem)

lemma expansions_plain:
  assumes "spec \<in> set ws_channel_registry" and "ws_expand spec user sub = Inr ps"
    and "plain_sub sub" and "CHR '','' \<notin> set user" and "p \<in> set ps"
  shows "plain_payload p"
proof -
  have ct: "\<forall>c \<in> set (sub_contracts sub). CHR '','' \<notin> set (to_gate_contract (canonical_contract c))"
    using assms(3) comma_contract by (auto simp: plain_sub_def)
  have pl: "\<forall>x \<in> set (sub_payload sub). CHR '','' \<notin> set x" using assms(3) by (auto simp: plain_sub_def)
  have "ws_expand spec \<in> {expand_contract_only, expand_contract_auth, expand_user_only, expand_user_contract,
      expand_raw_payload, expand_candlesticks, expand_order_book, expand_order_book_update, expand_contract_stats}"
    using assms(1) by (auto simp: ws_channel_registry_def)
  then show ?thesis
    using assms(2,5) ct pl comma_trim_space [OF assms(4)] comma_payload_or [OF assms(3)]
    by (auto simp: expand_defs plain_payload_def Let_def split: if_splits)
qed

lemma ws_sub_key_inj: "plain_payload p \<Longrightarrow> plain_payload q \<Longrightarrow> ws_sub_key ch p = ws_sub_key ch q \<Longrightarrow> p = q"
proof -
  assume p: "plain_payload p" and q: "plain_payload q" and k: "ws_sub_key ch p = ws_sub_key ch q"
  have "split_on (CHR '','') (join_with '','' p) = p" using p by (intro split_join) (auto simp: plain_payload_def)
  moreover have "split_on (CHR '','') (join_with '','' q) = q" using q by (intro split_join) (auto simp: plain_payload_def)
  moreover have "join_with '','' p = join_with '','' q" using k by (simp only: ws_sub_key_def same_append_eq)
  ultimately show ?thesis by metis
qed

subsection \<open>What is tracked and what is open\<close>

definition active_entry :: "hub \<Rightarrow> string \<Rightarrow> string \<Rightarrow> string list option" where
  "active_entry h ch key = (case map_of (hub_active h) ch of None \<Rightarrow> None | Some m \<Rightarrow> map_of m key)"

definition tracked :: "hub \<Rightarrow> (string \<times> string list) set" where
  "tracked h = {(ch, p). \<exists>key. active_entry h ch key = Some p}"

text \<open>The subscriptions the messages of the connection leave open at the exchange.\<close>

definition opened_by :: "ws_request \<Rightarrow> (string \<times> string list) set \<Rightarrow> (string \<times> string list) set" where
  "opened_by r s =
     (if rq_event r = ''subscribe'' then insert (rq_channel r, rq_payload r) s
      else if rq_event r = ''unsubscribe'' then s - {(rq_channel r, rq_payload r)} else s)"

definition opened :: "hub \<Rightarrow> (string \<times> string list) set" where
  "opened h = fold opened_by (hub_out h) {}"

definition wf_active :: "hub \<Rightarrow> bool" where
  "wf_active h \<longleftrightarrow> (\<forall>ch key p. active_entry h ch key = Some p \<longrightarrow>
     key = ws_sub_key ch p \<and> plain_payload p \<and> ws_channel_spec_for ch \<noteq> None)"

lemma entry_track:
  "active_entry (track_sub ch p h) c k = (if c = ch \<and> k = ws_sub_key ch p then Some p else active_entry h c k)"
  by (auto simp: active_entry_def track_sub_def update_conv split: option.split)

lemma entry_untrack:
  "active_entry (untrack_sub ch p h) c k = (if c = ch \<and> k = ws_sub_key ch p then None else active_entry h c k)"
proof (cases "map_of (hub_active h) ch")
  case None
  then show ?thesis by (simp add: active_entry_def untrack_sub_def)
next
  case (Some m)
  have "map_of m k = None" if "AList.delete (ws_sub_key ch p) m = []" "k \<noteq> ws_sub_key ch p"
    using delete_conv [of "ws_sub_key ch p" m] that by (metis fun_upd_apply map_of.simps(1))
  with Some show ?thesis
    by (auto simp: active_entry_def untrack_sub_def update_conv delete_conv Let_def split: option.split)
qed

lemma tracked_iff: "wf_active h \<Longrightarrow> (c, q) \<in> tracked h \<longleftrightarrow> active_entry h c (ws_sub_key c q) = Some q"
  unfolding tracked_def wf_active_def by blast

lemma wf_track:
  "wf_active h \<Longrightarrow> plain_payload p \<Longrightarrow> ws_channel_spec_for ch \<noteq> None \<Longrightarrow> wf_active (track_sub ch p h)"
  unfolding wf_active_def entry_track by (auto split: if_splits)

lemma wf_untrack: "wf_active h \<Longrightarrow> wf_active (untrack_sub ch p h)"
  unfolding wf_active_def entry_untrack by (auto split: if_splits)

lemma entry_same_key:
  "wf_active h \<Longrightarrow> plain_payload p \<Longrightarrow> active_entry h ch (ws_sub_key ch p) = Some q \<Longrightarrow> q = p"
  unfolding wf_active_def using ws_sub_key_inj by metis

lemma tracked_track:
  assumes "wf_active h" "plain_payload p" "ws_channel_spec_for ch \<noteq> None"
  shows "tracked (track_sub ch p h) = insert (ch, p) (tracked h)"
proof (rule set_eqI)
  fix x :: "string \<times> string list"
  obtain c q where x: "x = (c, q)" by (cases x)
  show "x \<in> tracked (track_sub ch p h) \<longleftrightarrow> x \<in> insert (ch, p) (tracked h)"
    unfolding x insert_iff tracked_iff [OF wf_track [OF assms]] tracked_iff [OF assms(1)] entry_track
    by (auto split: if_splits dest: entry_same_key [OF assms(1,2)])
qed

lemma tracked_untrack:
  assumes "wf_active h" "plain_payload p"
  shows "tracked (untrack_sub ch p h) = tracked h - {(ch, p)}"
proof (rule set_eqI)
  fix x :: "string \<times> string list"
  obtain c q where x: "x = (c, q)" by (cases x)
  show "x \<in> tracked (untrack_sub ch p h) \<longleftrightarrow> x \<in> tracked h - {(ch, p)}"
    unfolding x Diff_iff tracked_iff [OF wf_untrack [OF assms(1)]] tracked_iff [OF assms(1)] entry_untrack
    by (auto split: if_splits dest: entry_same_key [OF assms])
qed

text \<open>An operation that changes what is tracked and what is open in the same way.\<close>

definition same_change :: "hub \<Rightarrow> hub \<Rightarrow> bool" where
  "same_change h h' \<longleftrightarrow> (\<exists>D A. opened h' = opened h - D \<union> A \<and> tracked h' = tracked h - D \<union> A)"

lemma same_change_refl: "same_change h h"
  unfolding same_change_def by (intro exI [of _ "{}"]) simp

lemma same_change_trans: "same_change h h1 \<Longrightarrow> same_change h1 h2 \<Longrightarrow> same_change h h2"
  unfolding same_change_def
proof (elim exE conjE)
  fix D A D' A'
  assume "opened h1 = opened h - D \<union> A" "tracked h1 = tracked h - D \<union> A"
    "opened h2 = opened h1 - D' \<union> A'" "tracked h2 = tracked h1 - D' \<union> A'"
  then show "\<exists>D A. opened h2 = opened h - D \<union> A \<and> tracked h2 = tracked h - D \<union> A"
    by (intro exI [of _ "D \<union> D'"] exI [of _ "A - D' \<union> A'"]) auto
qed

definition sub_change :: "hub \<Rightarrow> hub \<Rightarrow> bool" where
  "sub_change h h' \<longleftrightarrow> wf_active h' \<and> same_change h h' \<and> hub_user h' = hub_user h \<and> hub_conn h' = hub_conn h"

definition event_of :: "bool \<Rightarrow> string" where
  "event_of track = (if track then ''subscribe'' else ''unsubscribe'')"

lemma write_fields [simp]:
  "hub_active (snd (write_channel_event wr now spec event p h)) = hub_active h"
  "hub_user (snd (write_channel_event wr now spec event p h)) = hub_user h"
  "hub_conn (snd (write_channel_event wr now spec event p h)) = hub_conn h"
  "hub_done (snd (write_channel_event wr now spec event p h)) = hub_done h"
  "hub_writes (snd (write_channel_event wr now spec event p h)) = Suc (hub_writes h)"
  by (auto simp: write_channel_event_def Let_def split: option.split)

lemma track_fields [simp]:
  "hub_out (track_sub ch p h) = hub_out h" "hub_out (untrack_sub ch p h) = hub_out h"
  "hub_user (track_sub ch p h) = hub_user h" "hub_user (untrack_sub ch p h) = hub_user h"
  "hub_conn (track_sub ch p h) = hub_conn h" "hub_conn (untrack_sub ch p h) = hub_conn h"
  by (auto simp: track_sub_def untrack_sub_def Let_def split: option.split)

lemma entry_write [simp]:
  "active_entry (snd (write_channel_event wr now spec event p h)) = active_entry h"
  by (simp add: active_entry_def fun_eq_iff)

lemma opened_write:
  "opened (snd (write_channel_event wr now spec event p h)) =
     (if wr (hub_writes h) \<noteq> None then opened h
      else if event = ''subscribe'' then insert (ws_name spec, p) (opened h)
      else if event = ''unsubscribe'' then opened h - {(ws_name spec, p)} else opened h)"
  by (auto simp: write_channel_event_def opened_def opened_by_def Let_def split: option.split)

lemma write_failed: "fst (write_channel_event wr now spec event p h) = None \<longleftrightarrow> wr (hub_writes h) = None"
  by (auto simp: write_channel_event_def Let_def split: option.split)

lemma opened_cong: "hub_out h = hub_out h' \<Longrightarrow> opened h = opened h'"
  by (simp add: opened_def)

lemma write_payloads_change:
  assumes "ws_channel_spec_for ch = Some spec"
  shows "wf_active h \<Longrightarrow> \<forall>p \<in> set ps. plain_payload p \<Longrightarrow>
    sub_change h (snd (write_payloads wr now (event_of track) track ch spec ps h))"
proof (induction ps arbitrary: h)
  case Nil
  then show ?case by (simp add: sub_change_def same_change_refl)
next
  case (Cons p ps)
  define w where "w = write_channel_event wr now spec (event_of track) p h"
  have wf: "wf_active (snd w)" using Cons.prems(1) by (simp add: w_def wf_active_def)
  have tr: "tracked (snd w) = tracked h" by (simp add: w_def tracked_def)
  have nm: "ws_name spec = ch" using ws_channel_spec_for_name [OF assms] by simp
  have pp: "plain_payload p" using Cons.prems(2) by simp
  show ?case
  proof (cases "fst w")
    case (Some e)
    then have f: "wr (hub_writes h) \<noteq> None" using write_failed unfolding w_def by (metis option.distinct(1))
    have r: "snd (write_payloads wr now (event_of track) track ch spec (p # ps) h) = snd w"
      using Some by (cases w) (simp add: w_def [symmetric])
    have "opened (snd w) = opened h" using f by (simp add: w_def opened_write)
    then have "same_change h (snd w)"
      unfolding same_change_def using tr by (intro exI [of _ "{}"]) simp
    then show ?thesis unfolding r using wf by (simp add: sub_change_def w_def)
  next
    case None
    then have f: "wr (hub_writes h) = None" using write_failed unfolding w_def by metis
    define h2 where "h2 = (if track then track_sub ch p (snd w) else untrack_sub ch p (snd w))"
    have r: "snd (write_payloads wr now (event_of track) track ch spec (p # ps) h) =
             snd (write_payloads wr now (event_of track) track ch spec ps h2)"
      using None by (cases w) (simp add: w_def [symmetric] h2_def)
    have wf2: "wf_active h2" using wf wf_track wf_untrack pp assms by (simp add: h2_def)
    have op: "opened h2 = opened (snd w)" by (rule opened_cong) (simp add: h2_def)
    have o2: "opened h2 = (if track then insert (ch, p) (opened h) else opened h - {(ch, p)})"
      unfolding op by (simp add: w_def opened_write f nm event_of_def)
    have t2: "tracked h2 = (if track then insert (ch, p) (tracked h) else tracked h - {(ch, p)})"
      using tracked_track [OF wf pp] tracked_untrack [OF wf pp] assms by (simp add: h2_def tr)
    have "same_change h h2"
      unfolding same_change_def o2 t2 by (cases track) (simp_all, blast+)
    then have "sub_change h h2" using wf2 by (simp add: sub_change_def h2_def w_def)
    moreover have "sub_change h2 (snd (write_payloads wr now (event_of track) track ch spec ps h2))"
      using Cons.IH [OF wf2] Cons.prems(2) by simp
    ultimately show ?thesis unfolding r sub_change_def by (auto intro: same_change_trans)
  qed
qed

lemma set_subs_change:
  assumes "CHR '','' \<notin> set (hub_user h)"
  shows "wf_active h \<Longrightarrow> \<forall>sub. Some sub \<in> set subs \<longrightarrow> plain_sub sub \<Longrightarrow>
    sub_change h (snd (set_subs wr now (event_of track) track subs h))"
  using assms
proof (induction wr now "event_of track" track subs h rule: set_subs.induct)
  case (1 wr now track h)
  then show ?case by (simp add: sub_change_def same_change_refl)
next
  case (2 wr now track subs h)
  then show ?case by simp
next
  case (3 wr now track sub subs h)
  define ch where "ch = normalize_ws_channel (sub_channel sub)"
  have same: "sub_change h h" using "3.prems" by (simp add: sub_change_def same_change_refl)
  show ?case
  proof (cases "ws_channel_spec_for ch")
    case None
    then have "snd (set_subs wr now (event_of track) track (Some sub # subs) h) = h" by (simp add: ch_def Let_def)
    then show ?thesis using same by simp
  next
    case (Some spec)
    note spec = this
    show ?thesis
    proof (cases "ws_expand spec (hub_user h) (sub\<lparr>sub_channel := ch\<rparr>)")
      case (Inl e)
      then show ?thesis using spec by (simp add: ch_def Let_def same)
    next
      case (Inr ps)
      have ps: "\<forall>p \<in> set ps. plain_payload p"
        using expansions_plain [OF _ Inr _ "3.prems"(3)] ws_channel_spec_for_name [OF spec] "3.prems"(2)
        by (auto simp: plain_sub_def)
      obtain eo h1 where w: "write_payloads wr now (event_of track) track ch spec ps h = (eo, h1)"
        by (cases "write_payloads wr now (event_of track) track ch spec ps h")
      have c1: "sub_change h h1" using write_payloads_change [OF spec "3.prems"(1) ps] w by (metis snd_conv)
      show ?thesis
      proof (cases eo)
        case (Some e)
        then show ?thesis using c1 spec Inr w by (simp add: ch_def Let_def)
      next
        case None
        have "sub_change h1 (snd (set_subs wr now (event_of track) track subs h1))"
          using "3.hyps" [OF ch_def spec Inr w [symmetric] None] "3.prems" c1 by (simp add: sub_change_def)
        then show ?thesis
          using c1 spec Inr w None by (auto simp: ch_def Let_def sub_change_def intro: same_change_trans)
      qed
    qed
  qed
qed

lemma resubscribe_frame:
  "hub_active (resubscribe wr now items h) = hub_active h \<and>
   hub_user (resubscribe wr now items h) = hub_user h \<and>
   hub_conn (resubscribe wr now items h) = hub_conn h \<and>
   hub_writes h \<le> hub_writes (resubscribe wr now items h)"
proof (induction items arbitrary: h)
  case Nil
  then show ?case by simp
next
  case (Cons x items)
  obtain ch p where x: "x = (ch, p)" by (cases x)
  show ?case
  proof (cases "ws_channel_spec_for ch")
    case None
    then show ?thesis using Cons.IH [of h] by (simp add: x)
  next
    case (Some spec)
    then show ?thesis
      using Cons.IH [of "snd (write_channel_event wr now spec ''subscribe'' p h)"] by (simp add: x)
  qed
qed

text \<open>What the new connection holds open: what it held and the items whose write succeeded.\<close>

lemma resubscribe_opened:
  "\<forall>(ch, p) \<in> set items. ws_channel_spec_for ch \<noteq> None \<Longrightarrow>
   opened (resubscribe wr now items h) \<subseteq> opened h \<union> set items \<and>
   ((\<forall>i. hub_writes h \<le> i \<and> i < hub_writes (resubscribe wr now items h) \<longrightarrow> wr i = None) \<longrightarrow>
    opened (resubscribe wr now items h) = opened h \<union> set items)"
proof (induction items arbitrary: h)
  case Nil
  then show ?case by simp
next
  case (Cons x items)
  obtain ch p where x: "x = (ch, p)" by (cases x)
  obtain spec where spec: "ws_channel_spec_for ch = Some spec" using Cons.prems by (auto simp: x)
  define w where "w = snd (write_channel_event wr now spec ''subscribe'' p h)"
  have r: "resubscribe wr now (x # items) h = resubscribe wr now items w" by (simp add: x spec w_def)
  have o: "opened w = (if wr (hub_writes h) \<noteq> None then opened h else insert x (opened h))"
    using ws_channel_spec_for_name [OF spec] by (simp add: w_def opened_write x)
  have wr: "hub_writes w = Suc (hub_writes h)" by (simp add: w_def)
  have le: "hub_writes w \<le> hub_writes (resubscribe wr now items w)" using resubscribe_frame by blast
  have ih: "opened (resubscribe wr now items w) \<subseteq> opened w \<union> set items \<and>
      ((\<forall>i. hub_writes w \<le> i \<and> i < hub_writes (resubscribe wr now items w) \<longrightarrow> wr i = None) \<longrightarrow>
       opened (resubscribe wr now items w) = opened w \<union> set items)"
    using Cons.prems by (intro Cons.IH) simp
  have "opened w \<subseteq> opened h \<union> {x}" by (auto simp: o)
  moreover have "wr (hub_writes h) = None \<and> (\<forall>i. hub_writes w \<le> i \<and> i < hub_writes (resubscribe wr now items w) \<longrightarrow> wr i = None)"
    if "\<forall>i. hub_writes h \<le> i \<and> i < hub_writes (resubscribe wr now items w) \<longrightarrow> wr i = None"
    using that wr le by auto
  ultimately show ?case unfolding r using ih o by fastforce
qed

subsection \<open>Reachable hubs\<close>

text \<open>The boolean says whether the present connection was given every tracked subscription: it is
  lost when \<open>Connect\<close> dials a hub that tracks subscriptions, or when a write of the
  reconnection failed, and regained by a reconnection without a failed write.\<close>

inductive hub_reach :: "(nat \<Rightarrow> go_error option) \<Rightarrow> hub \<Rightarrow> bool \<Rightarrow> bool" for wr where
  hub_init: "CHR '','' \<notin> set user \<Longrightarrow> hub_reach wr (new_hub user key secret) True"
| hub_dial: "hub_reach wr h ok \<Longrightarrow>
    hub_reach wr (snd (ws_connect dial h)) (if hub_conn h then ok else hub_active h = [])"
| hub_sub: "hub_reach wr h ok \<Longrightarrow> \<forall>sub. Some sub \<in> set subs \<longrightarrow> plain_sub sub \<Longrightarrow>
    hub_reach wr (snd (hub_subscribe wr now subs h)) ok"
| hub_unsub: "hub_reach wr h ok \<Longrightarrow> \<forall>sub. Some sub \<in> set subs \<longrightarrow> plain_sub sub \<Longrightarrow>
    hub_reach wr (snd (hub_unsubscribe wr now subs h)) ok"
| hub_reconnect: "hub_reach wr h ok \<Longrightarrow> set items = tracked h \<Longrightarrow>
    h' = snd (reconnect_after_error dial wr now items h) \<Longrightarrow>
    hub_reach wr h' (\<forall>i. hub_writes h \<le> i \<and> i < hub_writes h' \<longrightarrow> wr i = None)"
| hub_shutdown: "hub_reach wr h ok \<Longrightarrow> hub_reach wr (shutdown h) ok"

definition hub_inv :: "hub \<Rightarrow> bool \<Rightarrow> bool" where
  "hub_inv h ok \<longleftrightarrow> wf_active h \<and> CHR '','' \<notin> set (hub_user h) \<and> opened h \<subseteq> tracked h \<and>
     (hub_conn h \<and> ok \<longrightarrow> opened h = tracked h)"

lemma active_cong: "hub_active h' = hub_active h \<Longrightarrow> wf_active h' = wf_active h \<and> tracked h' = tracked h"
  by (simp add: wf_active_def tracked_def active_entry_def)

lemma no_out: "hub_out h = [] \<Longrightarrow> opened h = {}"
  by (simp add: opened_def)

lemma hub_inv_change: "hub_inv h ok \<Longrightarrow> sub_change h h' \<Longrightarrow> hub_inv h' ok"
  unfolding hub_inv_def sub_change_def same_change_def by auto

lemma hub_inv_subs:
  assumes "hub_inv h ok" "\<forall>sub. Some sub \<in> set subs \<longrightarrow> plain_sub sub"
  shows "hub_inv (snd (set_subscriptions wr now (event_of track) track subs h)) ok"
proof -
  have "sub_change h h" using assms(1) by (simp add: hub_inv_def sub_change_def same_change_refl)
  moreover have "sub_change h (snd (set_subs wr now (event_of track) track subs h))"
    using assms by (intro set_subs_change) (auto simp: hub_inv_def)
  ultimately show ?thesis using hub_inv_change [OF assms(1)] by (simp add: set_subscriptions_def)
qed

lemma hub_inv_reconnect:
  assumes "hub_inv h ok" "set items = tracked h"
    and h': "h' = snd (reconnect_after_error dial wr now items h)"
  shows "hub_inv h' (\<forall>i. hub_writes h \<le> i \<and> i < hub_writes h' \<longrightarrow> wr i = None)"
proof (cases "hub_done h \<or> dial \<noteq> None")
  case True
  then have "hub_active h' = hub_active h \<and> hub_user h' = hub_user h \<and> \<not> hub_conn h' \<and> hub_out h' = []"
    by (auto simp: h' reconnect_after_error_def ws_connect_def Let_def split: option.split)
  then show ?thesis using assms(1) active_cong [of h' h] no_out [of h'] by (simp add: hub_inv_def)
next
  case False
  define h1 where "h1 = h\<lparr>hub_conn := True, hub_out := [], hub_started := True, hub_backoff := second\<rparr>"
  have h1: "h' = resubscribe wr now items h1"
    using False by (simp add: h' reconnect_after_error_def ws_connect_def h1_def)
  have items: "\<forall>(ch, p) \<in> set items. ws_channel_spec_for ch \<noteq> None"
    using assms(1,2) by (auto simp: hub_inv_def wf_active_def tracked_def)
  have f: "hub_active h1 = hub_active h" "hub_user h1 = hub_user h" "hub_out h1 = []"
      "hub_writes h1 = hub_writes h" by (simp_all add: h1_def)
  have "opened h1 = {}" using f(3) by (rule no_out)
  then have "opened h' \<subseteq> tracked h \<and>
      ((\<forall>i. hub_writes h \<le> i \<and> i < hub_writes h' \<longrightarrow> wr i = None) \<longrightarrow> opened h' = tracked h)"
    using resubscribe_opened [OF items, of wr now h1] by (simp add: h1 assms(2) f(4))
  moreover have "hub_active h' = hub_active h" "hub_user h' = hub_user h"
    using resubscribe_frame [of wr now items h1] by (simp_all add: h1 f)
  ultimately show ?thesis using assms(1) active_cong [of h' h] by (simp add: hub_inv_def)
qed

lemma hub_reach_inv: "hub_reach wr h ok \<Longrightarrow> hub_inv h ok"
proof (induction rule: hub_reach.induct)
  case (hub_init user key secret)
  then show ?case
    by (simp add: hub_inv_def new_hub_def wf_active_def active_entry_def opened_def tracked_def)
next
  case (hub_dial h ok dial)
  have "tracked h = {}" if "hub_active h = []" using that by (simp add: tracked_def active_entry_def)
  then show ?case
    using hub_dial.IH active_cong [of "snd (ws_connect dial h)" h] no_out [of "snd (ws_connect dial h)"]
    by (auto simp: hub_inv_def ws_connect_def split: option.splits if_splits)
next
  case (hub_sub h ok subs now)
  then show ?case using hub_inv_subs [of h ok subs wr now True] by (simp add: hub_subscribe_def event_of_def)
next
  case (hub_unsub h ok subs now)
  then show ?case using hub_inv_subs [of h ok subs wr now False] by (simp add: hub_unsubscribe_def event_of_def)
next
  case (hub_reconnect h ok items h' dial now)
  then show ?case using hub_inv_reconnect by blast
next
  case (hub_shutdown h ok)
  then show ?case
    using active_cong [of "shutdown h" h] no_out [of "shutdown h"]
    by (simp add: hub_inv_def shutdown_def)
qed

text \<open>C27. Subscriptions and the exchange agree. In every state the hub reaches by connecting,
  subscribing, unsubscribing, reconnecting and shutting down, with any write failing at any time,
  the connection holds open only subscriptions the hub tracks; and while the connection was given
  every tracked subscription (no failed write in the last reconnection, no bare dial), it holds
  open exactly the tracked ones, so that nothing is lost and nothing subscribed behind its back.
  The subscriptions have no commas, which the keys of the map need.\<close>

theorem ws_subscriptions_tracked:
  assumes "hub_reach wr h ok"
  shows "opened h \<subseteq> tracked h \<and> (hub_conn h \<and> ok \<longrightarrow> opened h = tracked h)"
  using hub_reach_inv [OF assms] by (simp add: hub_inv_def)

definition ws_hub_ex :: hub where
  "ws_hub_ex = snd (hub_subscribe (\<lambda>_. None) 0
     [Some \<lparr>sub_channel = [], sub_contracts = [''BTCUSDT''], sub_payload = []\<rparr>]
     (snd (ws_connect None (new_hub ''42'' ''key'' ''secret''))))"

lemma ws_hub_ex_eq:
  "ws_hub_ex =
     \<lparr>hub_user = ''42'', hub_key = ''key'', hub_secret = ''secret'', hub_conn = True, hub_started = True,
      hub_done = False,
      hub_active = [(''futures.tickers'', [(''futures.tickers|BTC_USDT'', [''BTC_USDT''])])],
      hub_backoff = second, hub_writes = 1,
      hub_out = [\<lparr>rq_time = 0, rq_channel = ''futures.tickers'', rq_event = ''subscribe'',
                  rq_payload = [''BTC_USDT''], rq_auth = None\<rparr>]\<rparr>"
proof -
  have c: "to_gate_contract (canonical_contract ''BTCUSDT'') = ''BTC_USDT''" by code_simp
  show ?thesis
    by (simp add: ws_hub_ex_def hub_subscribe_def set_subscriptions_def ws_connect_def new_hub_def
        normalize_ws_channel_def Let_def ws_channel_spec_for_def ws_channel_registry_def
        expand_contract_only_def c write_channel_event_def track_sub_def ws_sub_key_def)
qed

theorem ws_subscriptions_tracked_witness:
  "opened ws_hub_ex = tracked ws_hub_ex \<and> opened ws_hub_ex = {(''futures.tickers'', [''BTC_USDT''])}"
proof -
  have "hub_reach (\<lambda>_. None) (snd (ws_connect None (new_hub ''42'' ''key'' ''secret'')))
      (if hub_conn (new_hub ''42'' ''key'' ''secret'') then True else hub_active (new_hub ''42'' ''key'' ''secret'') = [])"
    by (rule hub_dial, rule hub_init) simp
  then have r: "hub_reach (\<lambda>_. None) ws_hub_ex True"
    unfolding ws_hub_ex_def by (intro hub_sub) (simp_all add: new_hub_def plain_sub_def)
  have c: "hub_conn ws_hub_ex" "opened ws_hub_ex = {(''futures.tickers'', [''BTC_USDT''])}"
    by (simp_all add: ws_hub_ex_eq opened_def opened_by_def)
  show ?thesis using ws_subscriptions_tracked [OF r] c by blast
qed

text \<open>C30. The reconnection is tried once. When the read loop meets a read error and the dial of the
  reconnection fails, the hub stays without a connection however many rounds follow, whatever the
  dials would answer then: \<open>reconnectAfterError\<close> is only called on a read error, and a loop
  without a connection reads nothing. Its growing backoff is never used.\<close>

theorem failed_reconnect_is_final:
  assumes "hub_conn h" and "\<not> hub_done h"
  shows "let s = read_loop_step env0 (ReadError e) (Some d) wr items0 (h, ch)
         in \<not> hub_conn (fst s) \<and>
            fold (\<lambda>(env, rd, dial, items). read_loop_step env rd dial wr items) rounds s = s"
proof -
  define s where "s = read_loop_step env0 (ReadError e) (Some d) wr items0 (h, ch)"
  have c: "\<not> hub_conn (fst s)"
    using assms by (simp add: s_def read_loop_step_def reconnect_after_error_def ws_connect_def Let_def)
  then have "read_loop_step env rd dial wr items s = s" for env rd dial items
    by (cases s) (simp add: read_loop_step_def)
  then have "fold (\<lambda>(env, rd, dial, items). read_loop_step env rd dial wr items) rounds s = s"
    by (induction rounds) auto
  then show ?thesis using c by (simp add: s_def Let_def)
qed

theorem failed_reconnect_is_final_witness:
  "let s = read_loop_step \<lparr>we_now = 0, we_decode = \<lambda>_. None\<rparr> (ReadError (Errorf ''EOF'')) (Some (Errorf ''refused''))
             (\<lambda>_. None) [] (ws_hub_ex, \<lparr>ch_pub = [], ch_pub_cap = 512, ch_user = [], ch_user_cap = 256\<rparr>)
   in \<not> hub_conn (fst s) \<and>
      fold (\<lambda>(env, rd, dial, items). read_loop_step env rd dial (\<lambda>_. None) items)
        [(\<lparr>we_now = 10 ^ 9, we_decode = \<lambda>_. None\<rparr>, ReadError (Errorf ''EOF''), None, [])] s = s"
proof (rule failed_reconnect_is_final)
  show "hub_conn ws_hub_ex" "\<not> hub_done ws_hub_ex" by (simp_all add: ws_hub_ex_eq)
qed

subsection \<open>The events of the adapter\<close>

definition canonical :: "contract \<Rightarrow> bool" where
  "canonical c \<longleftrightarrow> canonical_contract c = c"

fun public_payload_ok :: "public_payload \<Rightarrow> bool" where
  "public_payload_ok (TickerP t) \<longleftrightarrow> canonical (tk_contract t)"
| "public_payload_ok (CandleP c) \<longleftrightarrow> canonical (c_contract c) \<and> c_contract c \<noteq> []"

fun user_payload_ok :: "user_payload \<Rightarrow> bool" where
  "user_payload_ok (OrderP x) \<longleftrightarrow> canonical (os_contract x)"
| "user_payload_ok (BalanceP b) \<longleftrightarrow> bu_currency b \<noteq> []"
| "user_payload_ok (TradeP t) \<longleftrightarrow> canonical (t_contract t) \<and> t_contract t \<noteq> [] \<and> t_id t \<noteq> []"
| "user_payload_ok (PositionP p) \<longleftrightarrow> canonical (p_contract p) \<and> p_contract p \<noteq> []"

definition channels_ok :: "channels \<Rightarrow> bool" where
  "channels_ok ch \<longleftrightarrow> length (ch_pub ch) \<le> ch_pub_cap ch \<and> length (ch_user ch) \<le> ch_user_cap ch \<and>
     (\<forall>ev \<in> set (ch_pub ch). \<exists>p. pe_payload ev = Some p \<and> validate_public_kind (pe_kind ev) p = None \<and> public_payload_ok p) \<and>
     (\<forall>ev \<in> set (ch_user ch). \<exists>p. ue_payload ev = Some p \<and> validate_user_kind (ue_kind ev) p = None \<and> user_payload_ok p)"

definition emits :: "channels \<Rightarrow> channels \<Rightarrow> bool" where
  "emits ch ch' \<longleftrightarrow> (channels_ok ch \<longrightarrow> channels_ok ch') \<and>
     (\<exists>new. ch_pub ch' = ch_pub ch @ new) \<and> (\<exists>new. ch_user ch' = ch_user ch @ new)"

lemma emits_refl: "emits ch ch"
  by (simp add: emits_def)

lemma emits_trans: "emits ch ch1 \<Longrightarrow> emits ch1 ch2 \<Longrightarrow> emits ch ch2"
  unfolding emits_def by (metis append_assoc)

lemma emits_fold: "(\<And>x c. emits c (f x c)) \<Longrightarrow> emits ch (fold f xs ch)"
  by (induction xs arbitrary: ch) (auto intro: emits_refl emits_trans)

lemma emits_public: "public_payload_ok p \<Longrightarrow> emits ch (emit_public k p ch)"
  by (auto simp: emits_def emit_public_def new_public_event_def push_public_def channels_ok_def split: option.split)

lemma emits_user: "user_payload_ok p \<Longrightarrow> emits ch (emit_user k p ch)"
  by (auto simp: emits_def emit_user_def new_user_event_def push_user_def channels_ok_def split: option.split)

lemma candle_ok: "candlestick_from_ws_row r = Some s \<Longrightarrow> public_payload_ok (CandleP s)"
  by (auto simp: candlestick_from_ws_row_def parse_candlestick_name_def canonical_def canonical_idem Let_def
      split: prod.splits if_splits)

lemma balance_ok: "balance_update_from_ws_row now r = Some s \<Longrightarrow> user_payload_ok (BalanceP s)"
  by (auto simp: balance_update_from_ws_row_def Let_def split: if_splits)

lemma position_ok: "position_from_ws_row now r = Some s \<Longrightarrow> user_payload_ok (PositionP s)"
  by (auto simp: position_from_ws_row_def canonical_def canonical_idem Let_def split: if_splits)

lemma trade_ok: "user_trade_from_ws_row now r = Some s \<Longrightarrow> user_payload_ok (TradeP s)"
  by (auto simp: user_trade_from_ws_row_def canonical_def canonical_idem Let_def split: if_splits)

lemma order_ok: "user_payload_ok (OrderP (order_view_from_futures fo))"
  by (simp add: order_view_from_futures_def canonical_def canonical_idem)

lemma ticker_ok: "public_payload_ok (TickerP (ticker_from_row now r))"
  by (simp add: ticker_from_row_def canonical_def canonical_idem)

lemma handlers_emit:
  "emits ch (handle_ticker env msg ch)" "emits ch (handle_candlestick env msg ch)"
  "emits ch (handle_balances env msg ch)" "emits ch (handle_positions env msg ch)"
  "emits ch (handle_user_trades env msg ch)" "emits ch (handle_order env msg ch)"
  unfolding handle_ticker_def handle_candlestick_def handle_balances_def handle_positions_def
    handle_user_trades_def handle_order_def
  by (auto intro!: emits_fold emits_public emits_user emits_refl ticker_ok order_ok
      simp del: public_payload_ok.simps user_payload_ok.simps
      dest: candle_ok balance_ok position_ok trade_ok split: option.split gval.split list.split)

lemma ws_on_update_handlers:
  "spec \<in> set ws_channel_registry \<Longrightarrow> ws_on_update spec = Some f \<Longrightarrow>
   f \<in> {handle_ticker, handle_candlestick, handle_balances, handle_positions, handle_user_trades, handle_order}"
  by (auto simp: ws_channel_registry_def)

text \<open>C28. Whatever message the exchange sends, dispatching it keeps the event channels well formed:
  no channel exceeds its capacity and no event already there is lost, every event carries a payload
  of its own kind, and its contract is in canonical form (and present, where the code asks for
  it), which is the form the projection and the market router look contracts up by.\<close>

theorem ws_dispatch_well_formed:
  assumes "channels_ok ch"
  shows "channels_ok (ws_dispatch env msg ch) \<and>
         (\<exists>new. ch_pub (ws_dispatch env msg ch) = ch_pub ch @ new) \<and>
         (\<exists>new. ch_user (ws_dispatch env msg ch) = ch_user ch @ new)"
proof -
  have "emits ch (f env msg ch)" if "ws_channel_spec_for c = Some spec" "ws_on_update spec = Some f" for c spec f
    using ws_on_update_handlers [OF _ that(2)] ws_channel_spec_for_name [OF that(1)] handlers_emit by auto
  then have "emits ch (ws_dispatch env msg ch)"
    by (auto simp: ws_dispatch_def Let_def emits_refl split: option.split)
  then show ?thesis using assms by (simp add: emits_def)
qed

definition ticker_msg_ex :: row where
  "ticker_msg_ex = [''event'' \<mapsto> GStr ''update'', ''channel'' \<mapsto> GStr ''futures.tickers'',
     ''result'' \<mapsto> GArr [GObj [(''contract'', GStr ''BTC_USDT''), (''last'', GStr ''50000'')]]]"

theorem ws_dispatch_well_formed_witness:
  "channels_ok (ws_dispatch \<lparr>we_now = 0, we_decode = \<lambda>_. None\<rparr> ticker_msg_ex
     \<lparr>ch_pub = [], ch_pub_cap = 512, ch_user = [], ch_user_cap = 256\<rparr>) \<and>
   map pe_kind (ch_pub (ws_dispatch \<lparr>we_now = 0, we_decode = \<lambda>_. None\<rparr> ticker_msg_ex
     \<lparr>ch_pub = [], ch_pub_cap = 512, ch_user = [], ch_user_cap = 256\<rparr>)) = [PublicTicker]"
proof -
  have "channels_ok \<lparr>ch_pub = [], ch_pub_cap = 512, ch_user = [], ch_user_cap = 256\<rparr>"
    by (simp add: channels_ok_def)
  from ws_dispatch_well_formed [OF this] show ?thesis
    by (rule conjI [OF conjunct1]) code_simp
qed

end
