(* ===== verification/GateClient.thy ===== *)
theory GateClient
  imports GateWS Executor
begin

text \<open>
  The Gate adapter's client: \<open>options.go\<close>, \<open>client.go\<close>, \<open>candlesticks.go\<close>, \<open>api_error.go\<close> and
  \<open>rest_limit.go\<close>. The generated REST package and the rate limiter are arguments: what a call
  answers, and what the wait before it answers (\<open>None\<close>: go on).
\<close>

subsection \<open>Options and the client\<close>

record gate_client =
  gc_key :: string
  gc_secret :: string
  gc_paper :: bool
  gc_settle :: string
  gc_user_id :: string
  gc_base_override :: string
  gc_proxy :: string
  gc_rate :: "int option"
  gc_rest_ready :: bool
  gc_metas :: "contract_meta list"
  gc_hub :: "hub option"
  gc_chans :: channels

text \<open>A limiter of at most zero requests per second is no limiter.\<close>

definition new_limiter :: "int \<Rightarrow> int option" where
  "new_limiter rps = (if rps \<le> 0 then None else Some rps)"

datatype client_option =
    WithPaper bool
  | WithSettle string
  | WithUserID string
  | WithRESTBasePath string
  | WithRateLimit int
  | WithProxy string
  | WithChannelBuffers int int

fun apply_option :: "client_option \<Rightarrow> gate_client \<Rightarrow> gate_client" where
  "apply_option (WithPaper p) c = c\<lparr>gc_paper := p\<rparr>"
| "apply_option (WithSettle s) c = (if s \<noteq> [] then c\<lparr>gc_settle := to_lower s\<rparr> else c)"
| "apply_option (WithUserID u) c = c\<lparr>gc_user_id := trim_space u\<rparr>"
| "apply_option (WithRESTBasePath b) c = c\<lparr>gc_base_override := trim_space b\<rparr>"
| "apply_option (WithRateLimit r) c = c\<lparr>gc_rate := new_limiter r\<rparr>"
| "apply_option (WithProxy p) c = c\<lparr>gc_proxy := trim_space p\<rparr>"
| "apply_option (WithChannelBuffers pub priv) c =
     (let ch = gc_chans c;
          ch1 = (if 0 < pub then ch\<lparr>ch_pub := [], ch_pub_cap := nat pub\<rparr> else ch);
          ch2 = (if 0 < priv then ch1\<lparr>ch_user := [], ch_user_cap := nat priv\<rparr> else ch1)
      in c\<lparr>gc_chans := ch2\<rparr>)"

definition new_client :: "string \<Rightarrow> string \<Rightarrow> client_option list \<Rightarrow> gate_client" where
  "new_client key secret opts =
     fold apply_option opts
       \<lparr>gc_key = trim_space key, gc_secret = trim_space secret, gc_paper = False, gc_settle = ''usdt'',
        gc_user_id = [], gc_base_override = [], gc_proxy = [], gc_rate = None, gc_rest_ready = False,
        gc_metas = [], gc_hub = None,
        gc_chans = \<lparr>ch_pub = [], ch_pub_cap = 512, ch_user = [], ch_user_cap = 256\<rparr>\<rparr>"

text \<open>The base path the constructor sets, if any, and the websocket address of the hub.\<close>

definition base_path :: "gate_client \<Rightarrow> string option" where
  "base_path c =
     (if gc_base_override c \<noteq> [] then Some (gc_base_override c)
      else if gc_paper c then Some ''https://api-testnet.gateapi.io/api/v4'' else None)"

definition ws_url :: "gate_client \<Rightarrow> string" where
  "ws_url c = (if gc_paper c then ''wss://ws-testnet.gate.com/v4/ws/futures/usdt''
               else ''wss://fx-ws.gateio.ws/v4/ws/usdt'')"

subsection \<open>Errors\<close>

text \<open>An error of the REST package: Gate's own with its label, message and text, or any other.\<close>

datatype api_error = GateErr string string string | OtherErr string

fun map_gate_api_error :: "api_error \<Rightarrow> go_error" where
  "map_gate_api_error (OtherErr t) = ExchError ''UNKNOWN'' t (Some (Errorf t))"
| "map_gate_api_error (GateErr label m0 t) =
     (let m = (if m0 = [] then t else m0)
      in if label \<in> {''INVALID_KEY'', ''INVALID_SIGNATURE'', ''MISSING_REQUIRED_HEADER'', ''INVALID_CREDENTIALS''}
           then ExchError ''AUTH_ERROR'' m None
         else if label = ''ORDER_NOT_FOUND'' then ExchError ''ORDER_NOT_FOUND'' m None
         else if label = ''POSITION_NOT_FOUND'' then ExchError ''POSITION_NOT_FOUND'' m None
         else if label = ''INSUFFICIENT_BALANCE'' then ExchError ''INSUFFICIENT_FUNDS'' m None
         else if label \<in> {''TOO_MANY_REQUESTS'', ''REQUEST_LIMIT''} then ExchError ''RATE_LIMIT'' m None
         else ExchError ''API_ERROR'' (m @ '' ('' @ label @ '')'') None)"

type_synonym 'a api = "api_error + 'a"

definition require_rest :: "gate_client \<Rightarrow> go_error option" where
  "require_rest c = (if gc_rest_ready c then None else Some (ExchError ''NOT_CONNECTED'' ''REST not connected'' None))"

text \<open>\<open>waitREST\<close>: without a limiter there is no wait.\<close>

definition wait_rest :: "gate_client \<Rightarrow> go_error option \<Rightarrow> go_error option" where
  "wait_rest c w = (if gc_rate c = None then None else w)"

text \<open>Most operations check readiness, wait, call and map the error.\<close>

definition rest_call :: "gate_client \<Rightarrow> go_error option \<Rightarrow> 'a api \<Rightarrow> 'a result" where
  "rest_call c w answer =
     (case wait_rest c w of Some e \<Rightarrow> Inl e
      | None \<Rightarrow> (case answer of Inl e \<Rightarrow> Inl (map_gate_api_error e) | Inr a \<Rightarrow> Inr a))"

subsection \<open>Connection\<close>

record futures_contract =
  fc_name :: string
  fc_quanto :: string
  fc_size_min :: string
  fc_size_max :: string
  fc_price_round :: string
  fc_decimal :: bool

definition meta_of :: "futures_contract \<Rightarrow> contract_meta option" where
  "meta_of fc =
     (let name = trim_space (fc_name fc)
      in if name = [] then None
         else Some \<lparr>m_contract = canonical_contract name, m_quanto = trim_space (fc_quanto fc),
                    m_size_min = trim_space (fc_size_min fc), m_size_max = trim_space (fc_size_max fc),
                    m_price_step = decimals_in_step (fc_price_round fc),
                    m_size_step = decimals_in_step (fc_size_min fc), m_decimal_size = fc_decimal fc\<rparr>)"

text \<open>The pages: \<open>wait k\<close> and \<open>pages k off\<close> are the answers before and of the \<open>k\<close>-th request, whose
  offset is an \<open>int32\<close>. The loop ends at a short or empty page only.\<close>

partial_function (option) contract_pages ::
  "gate_client \<Rightarrow> (nat \<Rightarrow> go_error option) \<Rightarrow> (nat \<Rightarrow> 32 word \<Rightarrow> futures_contract list api) \<Rightarrow>
   nat \<Rightarrow> 32 word \<Rightarrow> contract_meta list \<Rightarrow> contract_meta list result option" where
  "contract_pages c wait pages k off metas =
     (case rest_call c (wait k) (pages k off) of
        Inl e \<Rightarrow> Some (Inl e)
      | Inr page \<Rightarrow>
          if page = [] then Some (Inr metas)
          else if sint (of_nat (length page) :: 32 word) < 100 then Some (Inr (metas @ List.map_filter meta_of page))
          else contract_pages c wait pages (k + 1) (off + 100) (metas @ List.map_filter meta_of page))"

definition connect_rest ::
  "go_error option \<Rightarrow> unit api \<Rightarrow> (nat \<Rightarrow> go_error option) \<Rightarrow> (nat \<Rightarrow> 32 word \<Rightarrow> futures_contract list api) \<Rightarrow>
   gate_client \<Rightarrow> (go_error option \<times> gate_client) option" where
  "connect_rest w accounts wait pages c =
     (case rest_call c w accounts of
        Inl e \<Rightarrow> Some (Some e, c)
      | Inr _ \<Rightarrow> (case contract_pages c wait pages 0 0 [] of
          None \<Rightarrow> None
        | Some (Inl e) \<Rightarrow> Some (Some e, c)
        | Some (Inr metas) \<Rightarrow> Some (None, c\<lparr>gc_rest_ready := True, gc_metas := metas\<rparr>)))"

record connect_parts =
  cp_rest :: bool
  cp_public :: bool
  cp_private :: bool

definition private_channels :: "string list" where
  "private_channels = [''futures.orders'', ''futures.usertrades'', ''futures.positions'', ''futures.balances'']"

text \<open>\<open>rest\<close> is what connecting the REST side did.\<close>

definition connect_ws ::
  "connect_parts \<Rightarrow> go_error option \<Rightarrow> (nat \<Rightarrow> go_error option) \<Rightarrow> go_time \<Rightarrow> gate_client \<Rightarrow>
   go_error option \<times> gate_client" where
  "connect_ws parts dial wr now c =
     (if \<not> (cp_public parts \<or> cp_private parts) then (None, c)
      else if cp_private parts \<and> gc_user_id c = [] then
        (Some (invalid_parameter ''PrivateWS requires gateio.WithUserID''), c)
      else
        let h0 = (case gc_hub c of None \<Rightarrow> new_hub (gc_user_id c) (gc_key c) (gc_secret c) | Some h \<Rightarrow> h)
        in case ws_connect dial h0 of
             (Some e, h1) \<Rightarrow> (Some e, c\<lparr>gc_hub := Some h1\<rparr>)
           | (None, h1) \<Rightarrow>
               if \<not> cp_private parts then (None, c\<lparr>gc_hub := Some h1\<rparr>)
               else (case hub_subscribe wr now
                       (map (\<lambda>ch. Some \<lparr>sub_channel = ch, sub_contracts = [], sub_payload = []\<rparr>) private_channels) h1 of
                     (e, h2) \<Rightarrow> (e, c\<lparr>gc_hub := Some h2\<rparr>)))"

definition client_connect ::
  "connect_parts \<Rightarrow> go_error option \<Rightarrow> unit api \<Rightarrow> (nat \<Rightarrow> go_error option) \<Rightarrow>
   (nat \<Rightarrow> 32 word \<Rightarrow> futures_contract list api) \<Rightarrow> go_error option \<Rightarrow> (nat \<Rightarrow> go_error option) \<Rightarrow>
   go_time \<Rightarrow> gate_client \<Rightarrow> (go_error option \<times> gate_client) option" where
  "client_connect parts w accounts wait pages dial wr now c =
     (if cp_rest parts then
        (case connect_rest w accounts wait pages c of
           None \<Rightarrow> None
         | Some (Some e, c1) \<Rightarrow> Some (Some e, c1)
         | Some (None, c1) \<Rightarrow> Some (connect_ws parts dial wr now c1))
      else Some (connect_ws parts dial wr now c))"

definition client_close :: "gate_client \<Rightarrow> gate_client" where
  "client_close c = c\<lparr>gc_hub := None, gc_rest_ready := False, gc_metas := []\<rparr>"

definition client_ping :: "gate_client \<Rightarrow> go_error option \<Rightarrow> unit api \<Rightarrow> go_error option" where
  "client_ping c w accounts =
     (case require_rest c of Some e \<Rightarrow> Some e
      | None \<Rightarrow> (case rest_call c w accounts of Inl e \<Rightarrow> Some e | Inr _ \<Rightarrow> None))"

definition list_contract_meta :: "gate_client \<Rightarrow> contract_meta list result" where
  "list_contract_meta c = (case require_rest c of Some e \<Rightarrow> Inl e | None \<Rightarrow> Inr (gc_metas c))"

definition no_hub :: "string \<Rightarrow> go_error" where
  "no_hub m = ExchError ''NOT_CONNECTED'' m None"

definition client_subscribe ::
  "(nat \<Rightarrow> go_error option) \<Rightarrow> go_time \<Rightarrow> subscription option list \<Rightarrow> gate_client \<Rightarrow> go_error option \<times> gate_client" where
  "client_subscribe wr now subs c =
     (case gc_hub c of
        None \<Rightarrow> (Some (no_hub ''websocket not initialized, connect with PublicWS or PrivateWS''), c)
      | Some h \<Rightarrow> (case hub_subscribe wr now subs h of (e, h') \<Rightarrow> (e, c\<lparr>gc_hub := Some h'\<rparr>)))"

definition client_unsubscribe ::
  "(nat \<Rightarrow> go_error option) \<Rightarrow> go_time \<Rightarrow> subscription option list \<Rightarrow> gate_client \<Rightarrow> go_error option \<times> gate_client" where
  "client_unsubscribe wr now subs c =
     (case gc_hub c of
        None \<Rightarrow> (Some (no_hub ''websocket not initialized''), c)
      | Some h \<Rightarrow> (case hub_unsubscribe wr now subs h of (e, h') \<Rightarrow> (e, c\<lparr>gc_hub := Some h'\<rparr>)))"

subsection \<open>Orders\<close>

record futures_request =
  fr_contract :: string
  fr_size :: string
  fr_reduce_only :: bool
  fr_price :: string
  fr_tif :: string
  fr_text :: string

definition limit_price_bad :: "place_request \<Rightarrow> bool" where
  "limit_price_bad req =
     (case pr_price req of None \<Rightarrow> True
      | Some p \<Rightarrow> trim_space p = [] \<or> float_le (parse_float p) (Fin 0))"

definition build_request :: "place_request option \<Rightarrow> futures_request result" where
  "build_request reqo =
     (case reqo of
        None \<Rightarrow> Inl (invalid_parameter ''request is nil'')
      | Some req \<Rightarrow>
          if pr_type req \<noteq> MarketOrder \<and> pr_type req \<noteq> LimitOrder then
            Inl (ExchError ''NOT_SUPPORTED'' ''only Market and Limit'' None)
          else if pr_type req = LimitOrder \<and> limit_price_bad req then
            Inl (invalid_parameter ''limit order requires positive price'')
          else (case gate_order_size_string (pr_size req) (pr_side req) of
            Inl e \<Rightarrow> Inl e
          | Inr sz \<Rightarrow>
              let cid = trim_space (pr_client_id req)
              in Inr \<lparr>fr_contract = to_gate_contract (canonical_contract (pr_contract req)), fr_size = sz,
                      fr_reduce_only = pr_reduce_only req,
                      fr_price = (if pr_type req = MarketOrder then ''0''
                                  else trim_space (case pr_price req of None \<Rightarrow> [] | Some p \<Rightarrow> p)),
                      fr_tif = (if pr_type req = MarketOrder then ''ioc'' else map_tif (pr_tif req)),
                      fr_text = (if cid \<noteq> [] then normalize_gate_text cid else [])\<rparr>))"

definition client_place ::
  "gate_client \<Rightarrow> go_error option \<Rightarrow> (futures_request \<Rightarrow> futures_order api) \<Rightarrow> place_request option \<Rightarrow>
   order_snapshot result" where
  "client_place c w create reqo =
     (case require_rest c of Some e \<Rightarrow> Inl e
      | None \<Rightarrow> (case build_request reqo of
          Inl e \<Rightarrow> Inl e
        | Inr r \<Rightarrow> (case rest_call c w (create r) of
            Inl e \<Rightarrow> Inl e
          | Inr fo \<Rightarrow> Inr (order_view_from_futures fo))))"

definition client_cancel ::
  "gate_client \<Rightarrow> go_error option \<Rightarrow> (string \<Rightarrow> unit api) \<Rightarrow> string \<Rightarrow> string \<Rightarrow> go_error option" where
  "client_cancel c w cancel order_id client_id =
     (case require_rest c of Some e \<Rightarrow> Some e
      | None \<Rightarrow>
          let id0 = trim_space order_id;
              id1 = (if id0 = [] then normalize_gate_text client_id else id0)
          in if id1 = [] then Some (invalid_parameter ''OrderID or ClientOrderID required'')
             else case rest_call c w (cancel id1) of Inl e \<Rightarrow> Some e | Inr _ \<Rightarrow> None)"

definition client_get_order ::
  "gate_client \<Rightarrow> go_error option \<Rightarrow> (string \<Rightarrow> futures_order api) \<Rightarrow> contract \<Rightarrow> string \<Rightarrow> order_snapshot result" where
  "client_get_order c w get contract order_id =
     (case require_rest c of Some e \<Rightarrow> Inl e
      | None \<Rightarrow>
          let oid = trim_space order_id
          in if oid = [] then Inl (invalid_parameter ''orderID required'')
             else case rest_call c w (get oid) of
               Inl e \<Rightarrow> Inl e
             | Inr fo \<Rightarrow>
                 let ov = order_view_from_futures fo
                 in if contract \<noteq> [] \<and> os_contract ov \<noteq> canonical_contract contract
                    then Inl (invalid_parameter ''order contract mismatch'') else Inr ov)"

subsection \<open>Account\<close>

definition client_positions ::
  "gate_client \<Rightarrow> go_error option \<Rightarrow> go_time \<Rightarrow> gate_position list api \<Rightarrow> position list result" where
  "client_positions c w now answer =
     (case require_rest c of Some e \<Rightarrow> Inl e
      | None \<Rightarrow> (case rest_call c w answer of
          Inl e \<Rightarrow> Inl e
        | Inr ps \<Rightarrow> Inr (List.map_filter (\<lambda>p.
            if parse_float (gp_size p) = Fin 0 then None
            else case position_view now (gp_contract p) p of Inl _ \<Rightarrow> None | Inr v \<Rightarrow> Some v) ps)))"

definition client_position ::
  "gate_client \<Rightarrow> go_error option \<Rightarrow> go_time \<Rightarrow> (string \<Rightarrow> gate_position api) \<Rightarrow> contract \<Rightarrow> position result" where
  "client_position c w now get contract =
     (case require_rest c of Some e \<Rightarrow> Inl e
      | None \<Rightarrow>
          let ct = to_gate_contract (canonical_contract contract)
          in case rest_call c w (get ct) of Inl e \<Rightarrow> Inl e | Inr p \<Rightarrow> position_view now ct p)"

record futures_account =
  fa_total :: string
  fa_available :: string

definition client_balance ::
  "gate_client \<Rightarrow> go_error option \<Rightarrow> go_time \<Rightarrow> futures_account api \<Rightarrow> balance result" where
  "client_balance c w now answer =
     (case require_rest c of Some e \<Rightarrow> Inl e
      | None \<Rightarrow> (case rest_call c w answer of
          Inl e \<Rightarrow> Inl e
        | Inr ac \<Rightarrow>
            let avail = parse_float (fa_available ac); tot = parse_float (fa_total ac);
                frozen0 = fsub tot avail;
                frozen = (if float_less frozen0 (Fin 0) then Fin 0 else frozen0)
            in Inr \<lparr>b_currency = to_upper (gc_settle c), b_total = trim_float_string tot,
                    b_available = trim_float_string avail, b_frozen = trim_float_string frozen,
                    b_updated = now\<rparr>))"

subsection \<open>Candlesticks\<close>

record candle_query =
  cq_contract :: contract
  cq_interval :: string
  cq_limit :: int
  cq_from :: int
  cq_to :: int
  cq_timezone :: string

record candle_opts =
  co_interval :: string
  co_timezone :: "string option"
  co_from :: "int option"
  co_to :: "int option"
  co_limit :: "int option"

definition max_candlesticks :: int where "max_candlesticks = 2000"

definition candle_options :: "string \<Rightarrow> candle_query \<Rightarrow> candle_opts result" where
  "candle_options interval q =
     (let tz = trim_space (cq_timezone q);
          o0 = \<lparr>co_interval = interval, co_timezone = (if tz \<noteq> [] then Some tz else None),
                co_from = None, co_to = None, co_limit = None\<rparr>
      in if 0 < cq_from q \<or> 0 < cq_to q then
           (if 0 < cq_limit q then Inl (invalid_parameter ''limit cannot be used together with from/to'')
            else Inr (o0\<lparr>co_from := (if 0 < cq_from q then Some (cq_from q) else None),
                         co_to := (if 0 < cq_to q then Some (cq_to q) else None)\<rparr>))
         else let limit = (if cq_limit q \<le> 0 then 100 else cq_limit q)
              in if max_candlesticks < limit then Inl (invalid_parameter ''limit exceeds 2000'')
                 else Inr (o0\<lparr>co_limit := Some limit\<rparr>))"

definition list_candlesticks ::
  "gate_client \<Rightarrow> go_error option \<Rightarrow> (string \<Rightarrow> candle_opts \<Rightarrow> gate_candle list api) \<Rightarrow> candle_query option \<Rightarrow>
   candle list result" where
  "list_candlesticks c w get qo =
     (case require_rest c of Some e \<Rightarrow> Inl e
      | None \<Rightarrow> (case qo of
          None \<Rightarrow> Inl (invalid_parameter ''query is nil'')
        | Some q \<Rightarrow>
            let contract = trim_space (canonical_contract (cq_contract q)); interval = trim_space (cq_interval q)
            in if contract = [] then Inl (invalid_parameter ''contract is required'')
               else if interval = [] then Inl (invalid_parameter ''interval is required'')
               else let gc = to_gate_contract contract
                    in case candle_options interval q of
                         Inl e \<Rightarrow> Inl e
                       | Inr opts \<Rightarrow> (case rest_call c w (get gc opts) of
                           Inl e \<Rightarrow> Inl e
                         | Inr rows \<Rightarrow> Inr (List.map_filter (\<lambda>r. candlestick_from_rest gc interval (Some r)) rows))))"

subsection \<open>An order placed through the client\<close>

text \<open>The order the exchange reports for a request: its fields as sent, \<open>l\<close> contracts left, with or
  without sign.\<close>

definition echoes :: "nat \<Rightarrow> futures_request \<Rightarrow> futures_order \<Rightarrow> bool" where
  "echoes l r fo \<longleftrightarrow> fo_contract fo = fr_contract r \<and> fo_size fo = fr_size r \<and> fo_price fo = fr_price r \<and>
     fo_tif fo = fr_tif r \<and> fo_text fo = fr_text r \<and>
     (parse_float (fo_left fo) = Fin (of_nat l) \<or> parse_float (fo_left fo) = Fin (- of_nat l))"

lemma build_request_some:
  assumes "pr_type req = MarketOrder \<or> pr_type req = LimitOrder \<and> \<not> limit_price_bad req"
    and "0 < n" "pr_size req = show_nat n" "pr_side req = Buy \<or> pr_side req = Sell"
  obtains r where "build_request (Some req) = Inr r"
    and "gate_order_size_string (show_nat n) (pr_side req) = Inr (fr_size r)"
    and "fr_contract r = to_gate_contract (canonical_contract (pr_contract req))"
    and "fr_text r = normalize_gate_text (pr_client_id req)"
    and "pr_type req = MarketOrder \<Longrightarrow> fr_price r = ''0'' \<and> fr_tif r = ''ioc''"
    and "pr_type req = LimitOrder \<Longrightarrow> parse_float (fr_price r) \<noteq> Fin 0"
proof -
  obtain sz where sz: "gate_order_size_string (show_nat n) (pr_side req) = Inr sz"
  proof (cases "gate_order_size_string (show_nat n) (pr_side req)")
    case (Inl e)
    have "show_nat n \<noteq> ''0''" using assms(2) show_nat_not_zero by blast
    then have False
      using Inl assms(4) minus_prefix_show_nat [of n] by (auto simp: gate_order_size_string_def trim_space_show_nat)
    then show ?thesis ..
  qed (rule that)
  have tag: "(if trim_space cid \<noteq> [] then normalize_gate_text (trim_space cid) else []) = normalize_gate_text cid" for cid
    by (simp add: normalize_gate_text_def)
  have price: "parse_float (trim_space p) \<noteq> Fin 0" if "pr_price req = Some p" "\<not> limit_price_bad req" for p
  proof
    assume "parse_float (trim_space p) = Fin 0"
    then have "float_le (parse_float p) (Fin 0)" by (simp add: parse_float_def float_le_def)
    then show False using that by (simp add: limit_price_bad_def)
  qed
  show ?thesis
    using assms sz that [of "\<lparr>fr_contract = to_gate_contract (canonical_contract (pr_contract req)), fr_size = sz,
                      fr_reduce_only = pr_reduce_only req,
                      fr_price = (if pr_type req = MarketOrder then ''0''
                                  else trim_space (case pr_price req of None \<Rightarrow> [] | Some p \<Rightarrow> p)),
                      fr_tif = (if pr_type req = MarketOrder then ''ioc'' else map_tif (pr_tif req)),
                      fr_text = normalize_gate_text (pr_client_id req)\<rparr>"] price
    by (auto simp: build_request_def tag Let_def limit_price_bad_def split: option.splits)
qed

lemma echoed_view:
  assumes "echoes l r fo" "0 < n" "n < 2 ^ 53" "l \<le> n"
    and "gate_order_size_string (show_nat n) side = Inr (fr_size r)"
  shows "os_side (order_view_from_futures fo) = side \<and> os_size (order_view_from_futures fo) = show_nat n \<and>
         os_filled (order_view_from_futures fo) = show_nat (n - l)"
  using assms by (intro integer_order_view) (auto simp: echoes_def)


definition gate_client_ex :: gate_client where
  "gate_client_ex = (new_client ''key'' ''secret'' [WithUserID ''42''])\<lparr>gc_rest_ready := True\<rparr>"

definition sell_ex :: order where
  "sell_ex =
     \<lparr>ord_id = ''order-7'', ord_exchange_id = [], ord_market = Perp, ord_symbol = ''BTCUSDT'', ord_side = Sell,
      ord_type = MarketOrder, ord_price = None, ord_size = ''5'', ord_filled = [], ord_status = Pending,
      ord_created = 0, ord_updated = 0, ord_stop_price = None, ord_strategy = ''s''\<rparr>"

definition sold_ex :: futures_order where
  "sold_ex = (futures_order_ex ''-5'' ''-2'')\<lparr>fo_text := ''t-order-7''\<rparr>"


subsection \<open>Connecting\<close>

lemma sint_length: "n < 2 ^ 31 \<Longrightarrow> sint (of_nat n :: 32 word) = int n"
  by (simp add: signed_of_nat) (intro signed_take_bit_int_eq_self; simp)

lemma contract_pages_ends:
  assumes "\<forall>k \<le> n. rest_call c (wait k) (pages k (of_nat (100 * k))) = Inr (pg k)"
    and "\<forall>k < n. 100 \<le> length (pg k) \<and> length (pg k) < 2 ^ 31" and "length (pg n) < 100" and "k \<le> n"
  shows "contract_pages c wait pages k (of_nat (100 * k)) metas =
           Some (Inr (metas @ concat (map (\<lambda>j. List.map_filter meta_of (pg j)) [k..<Suc n])))"
  using assms(4)
proof (induction "n - k" arbitrary: k metas)
  case 0
  then have k: "k = n" by simp
  have "sint (of_nat (length (pg n)) :: 32 word) < 100"
    using assms(3) sint_length [of "length (pg n)"] by simp
  then show ?case
    using assms(1) by (subst contract_pages.simps) (auto simp: k map_filter_def)
next
  case (Suc d)
  then have k: "k < n" by simp
  have l: "100 \<le> length (pg k)" "length (pg k) < 2 ^ 31" using assms(2) k by auto
  have "\<not> sint (of_nat (length (pg k)) :: 32 word) < 100"
    using l sint_length [of "length (pg k)"] by simp
  moreover have "pg k \<noteq> []" using l by auto
  moreover have "contract_pages c wait pages (k + 1) (of_nat (100 * k) + 100) (metas @ List.map_filter meta_of (pg k)) =
      Some (Inr ((metas @ List.map_filter meta_of (pg k)) @
        concat (map (\<lambda>j. List.map_filter meta_of (pg j)) [Suc k..<Suc n])))"
  proof -
    have "(of_nat (100 * k) :: 32 word) + 100 = of_nat (100 * Suc k)" by simp
    then show ?thesis using Suc.hyps(1) [of "Suc k"] Suc.hyps(2) k by (simp only: Suc_eq_plus1 [symmetric])
  qed
  moreover have "[k..<Suc n] = k # [Suc k..<Suc n]" using k by (simp add: upt_rec)
  moreover have "rest_call c (wait k) (pages k (of_nat (100 * k))) = Inr (pg k)" using assms(1) k by simp
  ultimately show ?case
    by (subst contract_pages.simps) (simp del: upt_Suc of_nat_mult)
qed

text \<open>C29. Connecting ends and loses no contract: when the account call and the page requests at the
  offsets 0, 100, ..., 100 n are answered, the pages before the last have at least 100 contracts
  and the last has fewer, connecting returns without error after these n + 1 requests, and the
  metadata are those of all the named contracts of all the pages, in order.\<close>

theorem connect_rest_terminates:
  assumes "rest_call c w accounts = Inr ()"
    and "\<forall>k \<le> n. rest_call c (wait k) (pages k (of_nat (100 * k))) = Inr (pg k)"
    and "\<forall>k < n. 100 \<le> length (pg k) \<and> length (pg k) < 2 ^ 31" and "length (pg n) < 100"
  shows "connect_rest w accounts wait pages c =
           Some (None, c\<lparr>gc_rest_ready := True,
                         gc_metas := concat (map (\<lambda>k. List.map_filter meta_of (pg k)) [0..<Suc n])\<rparr>)"
proof -
  have "contract_pages c wait pages 0 (of_nat (100 * 0)) [] =
          Some (Inr ([] @ concat (map (\<lambda>j. List.map_filter meta_of (pg j)) [0..<Suc n])))"
    by (rule contract_pages_ends) (use assms in auto)
  then show ?thesis by (simp add: connect_rest_def assms(1) del: upt_Suc)
qed

definition contract_ex :: futures_contract where
  "contract_ex = \<lparr>fc_name = ''BTC_USDT'', fc_quanto = ''0.0001'', fc_size_min = ''1'', fc_size_max = ''1000000'',
                  fc_price_round = ''0.1'', fc_decimal = False\<rparr>"

theorem connect_rest_terminates_witness:
  "connect_rest None (Inr ()) (\<lambda>_. None) (\<lambda>k _. Inr (if k = 0 then replicate 100 contract_ex else [contract_ex]))
     gate_client_ex =
   Some (None, gate_client_ex\<lparr>gc_rest_ready := True,
     gc_metas := concat (map (\<lambda>k. List.map_filter meta_of (if k = 0 then replicate 100 contract_ex else [contract_ex]))
       [0..<Suc 1])\<rparr>)"
  by (rule connect_rest_terminates) (auto simp: rest_call_def wait_rest_def split: option.split)

subsection \<open>Candlesticks\<close>

text \<open>What a candlestick query answers: either no request was made, and the error says why, or
  the request asked for at most 2000 bars and never for a limit together with a range of time, and
  the bars returned are those of the answer with a positive time, in its order, all closed, of the
  contract and the interval asked for.\<close>

theorem list_candlesticks_sound:
  assumes "list_candlesticks c w get (Some q) = Inr cs"
  shows "\<exists>opts rows. rest_call c w (get (to_gate_contract (canonical_contract (cq_contract q))) opts) = Inr rows \<and>
           co_interval opts = trim_space (cq_interval q) \<and>
           (co_limit opts = None \<or> co_from opts = None \<and> co_to opts = None) \<and>
           (\<forall>n. co_limit opts = Some n \<longrightarrow> 0 < n \<and> n \<le> 2000) \<and>
           map c_sec cs = filter (\<lambda>t. 0 < t) (map (\<lambda>r. int64_of (gc_t r)) rows) \<and>
           (\<forall>x \<in> set cs. c_closed x \<and> c_contract x = canonical_contract (cq_contract q) \<and>
              c_interval x = trim_space (cq_interval q))"
proof -
  define ct where "ct = trim_space (canonical_contract (cq_contract q))"
  have ct: "to_gate_contract ct = to_gate_contract (canonical_contract (cq_contract q))"
    using canonical_trim [of "cq_contract q"] by (simp add: ct_def)
  obtain opts rows where o: "candle_options (trim_space (cq_interval q)) q = Inr opts"
      "rest_call c w (get (to_gate_contract ct) opts) = Inr rows"
      "cs = List.map_filter (\<lambda>r. candlestick_from_rest (to_gate_contract ct) (trim_space (cq_interval q)) (Some r)) rows"
    using assms by (auto simp: list_candlesticks_def ct_def Let_def split: option.splits sum.splits if_splits)
  have "map c_sec (List.map_filter (\<lambda>r. candlestick_from_rest g iv (Some r)) rows) =
        filter (\<lambda>t. 0 < t) (map (\<lambda>r. int64_of (gc_t r)) rows)" for g iv
    by (induction rows) (auto simp: candlestick_from_rest_def map_filter_def Let_def)
  moreover have "c_closed x \<and> c_contract x = canonical_contract g \<and> c_interval x = iv"
    if "x \<in> set (List.map_filter (\<lambda>r. candlestick_from_rest g iv (Some r)) rows)" for x g iv
    using that by (auto simp: candlestick_from_rest_def map_filter_def Let_def split: if_splits)
  moreover have "co_interval opts = trim_space (cq_interval q)"
      "co_limit opts = None \<or> co_from opts = None \<and> co_to opts = None"
      "\<forall>n. co_limit opts = Some n \<longrightarrow> 0 < n \<and> n \<le> 2000"
    using o(1) by (auto simp: candle_options_def max_candlesticks_def Let_def split: if_splits)
  ultimately show ?thesis
    using o(2,3) unfolding ct by (intro exI [of _ opts] exI [of _ rows]) (auto simp: canonical_to_gate canonical_idem)
qed

definition query_ex :: candle_query where
  "query_ex = \<lparr>cq_contract = ''BTCUSDT'', cq_interval = ''1m'', cq_limit = 0, cq_from = 0, cq_to = 0, cq_timezone = []\<rparr>"

definition candle_row_ex :: "rat \<Rightarrow> gate_candle" where
  "candle_row_ex t = \<lparr>gc_t = Fin t, gc_o = ''1'', gc_h = ''2'', gc_l = ''1'', gc_c = ''2'', gc_v = ''10'', gc_sum = ''20''\<rparr>"

theorem list_candlesticks_sound_witness:
  "\<exists>cs (opts :: candle_opts). list_candlesticks gate_client_ex None (\<lambda>_ _. Inr [candle_row_ex 60, candle_row_ex 0]) (Some query_ex) = Inr cs \<and>
     co_interval opts = ''1m'' \<and> (\<forall>n. co_limit opts = Some n \<longrightarrow> 0 < n \<and> n \<le> 2000) \<and> map c_sec cs = [60]"
proof -
  define g :: "string \<Rightarrow> candle_opts \<Rightarrow> gate_candle list api" where
    "g = (\<lambda>_ _. Inr [candle_row_ex 60, candle_row_ex 0])"
  have e: "map_sum id (map c_sec) (list_candlesticks gate_client_ex None g (Some query_ex)) = Inr [60]"
    unfolding g_def by code_simp
  then obtain cs where cs: "list_candlesticks gate_client_ex None g (Some query_ex) = Inr cs" "map c_sec cs = [60]"
    by (cases "list_candlesticks gate_client_ex None g (Some query_ex)") auto
  have i: "trim_space (cq_interval query_ex) = ''1m''" by code_simp
  obtain opts :: candle_opts where "co_interval opts = ''1m''" "\<forall>n. co_limit opts = Some n \<longrightarrow> 0 < n \<and> n \<le> 2000"
    using list_candlesticks_sound [OF cs(1)] unfolding i by blast
  then show ?thesis
    using cs unfolding g_def by (intro exI [of _ cs] exI [of _ opts] conjI)
qed

end
