(* ===== verification/Config.thy ===== *)
theory Config
  imports GoStd CrashTracker RiskDomain Models StrategyConfig
begin

text \<open>
  The global configuration, \<open>internal/config\<close> (\<open>config.go\<close>, \<open>markets.go\<close>, \<open>logger.go\<close>) and what
  the engine takes from it (\<open>engine_options.go\<close>). Reading the file and merging it with the
  defaults is the package \<open>viper\<close>: what it answers for a path is an argument, and its answer for a
  missing file is the defaults the code sets. The texts of \<open>ParseDuration\<close>'s errors are left out;
  \<open>NewFromFloat\<close> is the parameter \<open>nff\<close> on finite floats and panics on the others.
\<close>

subsection \<open>The sections of the file\<close>

record log_config =
  lc_level :: string
  lc_file :: string
  lc_max_size :: int
  lc_max_backups :: int
  lc_max_age :: int
  lc_compress :: bool

record restart_raw =
  rw_enabled :: bool
  rw_max_crashes :: int
  rw_crash_window :: string
  rw_initial_backoff :: string
  rw_max_backoff :: string
  rw_multiplier :: int

record strategies_config =
  sc_dir :: string
  sc_default_interval :: string
  sc_restart :: restart_raw

record exchange_config =
  ec_name :: string
  ec_api_key :: string
  ec_api_secret :: string
  ec_paper :: bool
  ec_user_id :: string
  ec_settle :: string
  ec_base_path :: string
  ec_rate_limit :: int
  ec_max_retries :: int
  ec_rest :: bool
  ec_public_ws :: bool
  ec_private_ws :: bool
  ec_public_buffer :: int
  ec_private_buffer :: int
  ec_proxy :: string

record risk_config =
  rk_enable :: bool
  rk_max_order_size :: go_float
  rk_max_open_orders :: int
  rk_max_positions :: int
  rk_max_position_size :: go_float
  rk_max_daily_loss :: go_float
  rk_max_drawdown :: go_float
  rk_max_leverage :: int
  rk_position_lock :: bool
  rk_cancel_on_kill :: bool

record persistence_config =
  pc_log_days :: int
  pc_snapshot_days :: int
  pc_cleanup :: string

record persistence_settings =
  ps_log_days :: int
  ps_snapshot_days :: int
  ps_cleanup :: duration

record channels_config =
  cc_signal :: int
  cc_order :: int
  cc_main_order :: int
  cc_market :: int
  cc_oms_order_update :: int
  cc_oms_cmd :: int

record grpc_config =
  gr_enabled :: bool
  gr_addr :: string
  gr_token :: string
  gr_insecure_bind_all :: bool

record raw_config =
  raw_log :: log_config
  raw_strategies :: strategies_config
  raw_exchange :: exchange_config
  raw_risk :: risk_config
  raw_max_open_conns :: int
  raw_persistence :: persistence_config
  raw_channels :: channels_config
  raw_refresh :: string
  raw_divisor :: int
  raw_grpc :: grpc_config
  raw_markets :: "string list"

text \<open>The defaults of \<open>setDefaults\<close>; a key without one is the zero value of its field.\<close>

definition default_raw :: raw_config where
  "default_raw =
     \<lparr>raw_log = \<lparr>lc_level = ''info'', lc_file = [], lc_max_size = 100, lc_max_backups = 5,
        lc_max_age = 30, lc_compress = True\<rparr>,
      raw_strategies = \<lparr>sc_dir = ''strategies'', sc_default_interval = [],
        sc_restart = \<lparr>rw_enabled = True, rw_max_crashes = 3, rw_crash_window = ''5m'',
          rw_initial_backoff = ''3s'', rw_max_backoff = ''60s'', rw_multiplier = 2\<rparr>\<rparr>,
      raw_exchange = \<lparr>ec_name = ''gateio'', ec_api_key = [], ec_api_secret = [], ec_paper = True,
        ec_user_id = [], ec_settle = ''usdt'', ec_base_path = [], ec_rate_limit = 10,
        ec_max_retries = 3, ec_rest = True, ec_public_ws = True, ec_private_ws = True,
        ec_public_buffer = 512, ec_private_buffer = 256, ec_proxy = []\<rparr>,
      raw_risk = \<lparr>rk_enable = True, rk_max_order_size = Fin 100000, rk_max_open_orders = 50,
        rk_max_positions = 20, rk_max_position_size = Fin 0, rk_max_daily_loss = Fin 0,
        rk_max_drawdown = Fin 0, rk_max_leverage = 0, rk_position_lock = False,
        rk_cancel_on_kill = False\<rparr>,
      raw_max_open_conns = 1,
      raw_persistence = \<lparr>pc_log_days = 7, pc_snapshot_days = 30, pc_cleanup = ''1h''\<rparr>,
      raw_channels = \<lparr>cc_signal = 100, cc_order = 100, cc_main_order = 100, cc_market = 1000,
        cc_oms_order_update = 100, cc_oms_cmd = 100\<rparr>,
      raw_refresh = ''10s'', raw_divisor = 10,
      raw_grpc = \<lparr>gr_enabled = False, gr_addr = ''127.0.0.1:50051'', gr_token = [],
        gr_insecure_bind_all = False\<rparr>,
      raw_markets = [''perp'']\<rparr>"

text \<open>\<open>Config\<close>; its field \<open>Persistence\<close>, which \<open>Load\<close> never fills, stays the zero value.\<close>

record config =
  cfg_work_dir :: string
  cfg_path :: string
  cfg_database :: string
  cfg_strategies_dir :: string
  cfg_strategies :: strategies_config
  cfg_log :: log_config
  cfg_exchange :: exchange_config
  cfg_risk :: risk_config
  cfg_max_open_conns :: int
  cfg_persistence :: persistence_config
  cfg_channels :: channels_config
  cfg_divisor :: int
  cfg_grpc :: grpc_config
  cfg_markets :: "string list"
  cfg_refresh :: duration
  cfg_restart :: restart_settings
  cfg_kill_cancel :: bool
  cfg_retention :: persistence_settings

subsection \<open>Durations and sections that are parsed\<close>

definition duration_of :: "string \<Rightarrow> duration result" where
  "duration_of s =
     (case parse_duration s of None \<Rightarrow> Inl (Errorf ''time: invalid duration'') | Some d \<Rightarrow> Inr d)"

text \<open>An optional duration of the restart section: blank keeps the default.\<close>

definition restart_duration :: "string \<Rightarrow> string \<Rightarrow> duration \<Rightarrow> duration result" where
  "restart_duration key raw def =
     (let s = trim_space raw
      in if s = [] then Inr def
         else case duration_of s of
           Inl e \<Rightarrow> Inl (Wrapf (''strategies.restart.'' @ key @ '': '') e)
         | Inr d \<Rightarrow> Inr d)"

definition parse_restart_settings :: "restart_raw \<Rightarrow> restart_settings result" where
  "parse_restart_settings raw =
     (let def = default_restart_settings;
          out = def\<lparr>rs_max_crashes := (if 0 < rw_max_crashes raw then rw_max_crashes raw else rs_max_crashes def),
                    rs_multiplier := (if 0 < rw_multiplier raw then rw_multiplier raw else rs_multiplier def)\<rparr>
      in case restart_duration ''crash_window'' (rw_crash_window raw) (rs_crash_window def) of
           Inl e \<Rightarrow> Inl e
         | Inr w \<Rightarrow> (case restart_duration ''initial_backoff'' (rw_initial_backoff raw) (rs_initial_backoff def) of
             Inl e \<Rightarrow> Inl e
           | Inr i \<Rightarrow> (case restart_duration ''max_backoff'' (rw_max_backoff raw) (rs_max_backoff def) of
               Inl e \<Rightarrow> Inl e
             | Inr m \<Rightarrow> Inr (out\<lparr>rs_crash_window := w, rs_initial_backoff := i, rs_max_backoff := m\<rparr>))))"

definition default_persistence_settings :: persistence_settings where
  "default_persistence_settings = \<lparr>ps_log_days = 7, ps_snapshot_days = 30, ps_cleanup = 3600 * second\<rparr>"

definition parse_persistence_settings :: "persistence_config \<Rightarrow> persistence_settings result" where
  "parse_persistence_settings raw =
     (let out = default_persistence_settings\<lparr>ps_log_days := pc_log_days raw,
                                             ps_snapshot_days := pc_snapshot_days raw\<rparr>
      in if pc_log_days raw < 0
         then Inl (Errorf ''persistence.strategy_log_retention_days must be non-negative'')
         else if pc_snapshot_days raw < 0
         then Inl (Errorf ''persistence.account_snapshot_retention_days must be non-negative'')
         else let s = trim_space (pc_cleanup raw)
              in if s = [] then Inr out
                 else case parse_duration s of
                   None \<Rightarrow> Inr (out\<lparr>ps_cleanup := 3600 * second\<rparr>)
                 | Some d \<Rightarrow> Inr (out\<lparr>ps_cleanup := (if d \<le> 0 then 3600 * second else d)\<rparr>))"

definition normalize_grpc :: "grpc_config \<Rightarrow> grpc_config" where
  "normalize_grpc g =
     (let a = trim_space (gr_addr g)
      in g\<lparr>gr_addr := (if a \<noteq> [] \<and> CHR '':'' \<notin> set a then a @ '':50051'' else a)\<rparr>)"

subsection \<open>Paths\<close>

definition expand_path :: "string result \<Rightarrow> string \<Rightarrow> string result" where
  "expand_path home p0 =
     (let p = trim_space p0
      in if p = [] then Inl (Errorf ''empty path'')
         else if has_prefix p ''~/''
         then (case home of Inl e \<Rightarrow> Inl e | Inr h \<Rightarrow> Inr (clean_path (join_path h (drop 2 p))))
         else Inr (clean_path p))"

definition resolve_work_dir :: "string \<Rightarrow> string result \<Rightarrow> string result" where
  "resolve_work_dir env home =
     (let raw = trim_space env in expand_path home (if raw = [] then ''~/.signalix'' else raw))"

definition resolve_path :: "string \<Rightarrow> string \<Rightarrow> string result" where
  "resolve_path base p0 =
     (let p = trim_space p0
      in if p = [] then Inl (Errorf ''empty path'')
         else if is_abs p then Inr (clean_path p)
         else Inr (clean_path (join_path base p)))"

subsection \<open>Load\<close>

definition validate_exchange :: "string \<Rightarrow> exchange_config \<Rightarrow> exchange_config result" where
  "validate_exchange path ec =
     (let name0 = to_lower (trim_space (ec_name ec));
          ec1 = (if name0 = [] then ec\<lparr>ec_name := ''gateio''\<rparr> else ec);
          name = (if name0 = [] then ''gateio'' else name0)
      in if name \<noteq> ''gateio''
         then Inl (Errorf (''unsupported exchange.name '' @ quoted (ec_name ec1) @ '' (only gateio)''))
         else if trim_space (ec_api_key ec1) = [] \<or> trim_space (ec_api_secret ec1) = []
         then Inl (Errorf (''exchange.api_key and exchange.api_secret are required in '' @ path))
         else if ec_private_ws ec1 \<and> trim_space (ec_user_id ec1) = []
         then Inl (Errorf ''exchange.user_id is required when exchange.connect.private_ws is true'')
         else Inr ec1)"

definition validate_cfg :: "config \<Rightarrow> config result" where
  "validate_cfg c =
     (case validate_exchange (cfg_path c) (cfg_exchange c) of
        Inl e \<Rightarrow> Inl e
      | Inr ec \<Rightarrow>
        let rs = cfg_restart c
        in if cfg_divisor c \<le> 0 then Inl (Errorf ''decision.default_size_divisor must be positive'')
           else if rs_max_crashes rs \<le> 0
           then Inl (Errorf ''strategies.restart.max_crashes must be positive'')
           else if rs_crash_window rs \<le> 0
           then Inl (Errorf ''strategies.restart.crash_window must be positive'')
           else if rs_enabled rs \<and> rs_initial_backoff rs < 0
           then Inl (Errorf ''strategies.restart.initial_backoff must be non-negative'')
           else if 0 < rs_max_backoff rs \<and> rs_max_backoff rs < rs_initial_backoff rs
           then Inl (Errorf ''strategies.restart.max_backoff must be >= initial_backoff'')
           else Inr (c\<lparr>cfg_exchange := ec\<rparr>))"

text \<open>What \<open>viper\<close> answers for the path: the last field of a decoded file is
  \<open>IsSet("strategies.restart.enabled")\<close>.\<close>

datatype config_file = Unreadable go_error | NoFile | Undecodable go_error | Decoded raw_config bool

definition build_config :: "string \<Rightarrow> string \<Rightarrow> raw_config \<Rightarrow> bool \<Rightarrow> config result" where
  "build_config work_dir path raw enabled_set =
     (case resolve_path work_dir (sc_dir (raw_strategies raw)) of
        Inl e \<Rightarrow> Inl e
      | Inr sdir \<Rightarrow>
     (case (let f = trim_space (lc_file (raw_log raw)) in if f = [] then Inr f else resolve_path work_dir f) of
        Inl e \<Rightarrow> Inl e
      | Inr logf \<Rightarrow>
     (case duration_of (trim_space (raw_refresh raw)) of
        Inl e \<Rightarrow> Inl (Wrapf ''projection.refresh_interval: '' e)
      | Inr refresh \<Rightarrow>
     (case parse_restart_settings (sc_restart (raw_strategies raw)) of
        Inl e \<Rightarrow> Inl e
      | Inr rs \<Rightarrow>
     (case parse_persistence_settings (raw_persistence raw) of
        Inl e \<Rightarrow> Inl e
      | Inr ps \<Rightarrow>
        validate_cfg
          \<lparr>cfg_work_dir = work_dir, cfg_path = path,
           cfg_database = join_path work_dir ''data/signalix.db'',
           cfg_strategies_dir = sdir, cfg_strategies = raw_strategies raw,
           cfg_log = (raw_log raw)\<lparr>lc_file := logf\<rparr>, cfg_exchange = raw_exchange raw,
           cfg_risk = raw_risk raw, cfg_max_open_conns = raw_max_open_conns raw,
           cfg_persistence = \<lparr>pc_log_days = 0, pc_snapshot_days = 0, pc_cleanup = []\<rparr>,
           cfg_channels = raw_channels raw, cfg_divisor = raw_divisor raw,
           cfg_grpc = normalize_grpc (raw_grpc raw), cfg_markets = raw_markets raw,
           cfg_refresh = refresh,
           cfg_restart = rs\<lparr>rs_enabled :=
             (if \<not> enabled_set then rs_enabled default_restart_settings
              else rw_enabled (sc_restart (raw_strategies raw)))\<rparr>,
           cfg_kill_cancel = rk_cancel_on_kill (raw_risk raw),
           cfg_retention = ps\<rparr>)))))"

definition load_config :: "string \<Rightarrow> string result \<Rightarrow> (string \<Rightarrow> config_file) \<Rightarrow> config result" where
  "load_config env home viper =
     (case resolve_work_dir env home of
        Inl e \<Rightarrow> Inl e
      | Inr work_dir \<Rightarrow>
        let path = join_path work_dir ''config.toml''
        in case viper path of
             Unreadable e \<Rightarrow> Inl (Wrapf (''read config '' @ path @ '': '') e)
           | Undecodable e \<Rightarrow> Inl (Wrapf ''parse config: '' e)
           | NoFile \<Rightarrow> build_config work_dir path default_raw True
           | Decoded raw enabled_set \<Rightarrow> build_config work_dir path raw enabled_set)"

subsection \<open>What the engine reads of it\<close>

text \<open>The receivers may be nil: \<open>None\<close>.\<close>

definition projection_refresh_interval :: "config option \<Rightarrow> duration" where
  "projection_refresh_interval co =
     (case co of None \<Rightarrow> 10 * second
      | Some c \<Rightarrow> if cfg_refresh c \<le> 0 then 10 * second else cfg_refresh c)"

definition restart_settings_of :: "config option \<Rightarrow> restart_settings" where
  "restart_settings_of co = (case co of None \<Rightarrow> default_restart_settings | Some c \<Rightarrow> cfg_restart c)"

definition kill_switch_settings_of :: "config option \<Rightarrow> bool" where
  "kill_switch_settings_of co = (case co of None \<Rightarrow> False | Some c \<Rightarrow> cfg_kill_cancel c)"

definition persistence_settings_of :: "config option \<Rightarrow> persistence_settings" where
  "persistence_settings_of co =
     (case co of None \<Rightarrow> default_persistence_settings | Some c \<Rightarrow> cfg_retention c)"

text \<open>\<open>None\<close>: \<open>NewFromFloat\<close> panics.\<close>

definition positive_limit :: "(rat \<Rightarrow> decimal) \<Rightarrow> go_float \<Rightarrow> decimal \<Rightarrow> decimal option" where
  "positive_limit nff x def =
     (if float_less (Fin 0) x then (case x of Fin q \<Rightarrow> Some (nff q) | _ \<Rightarrow> None) else Some def)"

definition positive_int :: "int \<Rightarrow> int \<Rightarrow> int" where
  "positive_int v def = (if 0 < v then v else def)"

definition risk_rules :: "(rat \<Rightarrow> decimal) \<Rightarrow> config option \<Rightarrow> rules option" where
  "risk_rules nff co =
     (case co of None \<Rightarrow> Some default_rules
      | Some c \<Rightarrow>
        let d = default_rules; r = cfg_risk c
        in case positive_limit nff (rk_max_order_size r) (r_max_order_size d) of None \<Rightarrow> None | Some mos \<Rightarrow>
          (case positive_limit nff (rk_max_position_size r) (r_max_position_size d) of None \<Rightarrow> None | Some mps \<Rightarrow>
          (case positive_limit nff (rk_max_daily_loss r) (r_max_daily_loss d) of None \<Rightarrow> None | Some mdl \<Rightarrow>
          (case positive_limit nff (rk_max_drawdown r) (r_max_drawdown d) of None \<Rightarrow> None | Some mdd \<Rightarrow>
             Some \<lparr>r_enable = rk_enable r, r_max_order_size = mos,
                   r_max_open_orders = positive_int (rk_max_open_orders r) (r_max_open_orders d),
                   r_max_positions = positive_int (rk_max_positions r) (r_max_positions d),
                   r_max_position_size = mps, r_max_daily_loss = mdl, r_max_drawdown = mdd,
                   r_max_leverage = positive_int (rk_max_leverage r) (r_max_leverage d),
                   r_position_lock = rk_position_lock r\<rparr>))))"

subsection \<open>Markets and logging\<close>

fun markets_loop :: "string list \<Rightarrow> market list \<Rightarrow> market list result" where
  "markets_loop [] out = Inr out"
| "markets_loop (raw # rest) out =
     (let s = trim_space (to_lower raw)
      in if s = [] then markets_loop rest out
         else case parse_market s of
           Inl e \<Rightarrow> Inl (Wrapf ''markets.enabled: '' e)
         | Inr m \<Rightarrow>
             if m = Spot then Inl (Errorf (''market '' @ quoted (market_str m) @ '' not supported in this build''))
             else if \<not> market_valid m then Inl (Errorf (''markets.enabled: invalid market '' @ quoted raw))
             else if m \<in> set out then markets_loop rest out
             else markets_loop rest (out @ [m]))"

definition enabled_markets :: "config option \<Rightarrow> market list result" where
  "enabled_markets co =
     (let names = (case co of None \<Rightarrow> [''perp''] | Some c \<Rightarrow> if cfg_markets c = [] then [''perp''] else cfg_markets c)
      in case markets_loop names [] of
           Inl e \<Rightarrow> Inl e
         | Inr out \<Rightarrow> Inr (if out = [] then [Perp] else out))"

datatype log_level = LevelDebug | LevelInfo | LevelWarn | LevelError

definition parse_log_level :: "string \<Rightarrow> log_level result" where
  "parse_log_level s =
     (let t = to_lower (trim_space s)
      in if t = ''debug'' then Inr LevelDebug
         else if t = ''info'' \<or> t = [] then Inr LevelInfo
         else if t = ''warn'' \<or> t = ''warning'' then Inr LevelWarn
         else if t = ''error'' then Inr LevelError
         else Inl (Errorf (''unknown log.log_level '' @ quoted s)))"

definition positive_or :: "int \<Rightarrow> int \<Rightarrow> int" where
  "positive_or v def = (if 0 < v then v else def)"

datatype log_option =
    WithZapHandler | WithLevel log_level | WithAddSource bool | WithEncoding string
  | WithFile string | WithMaxSize int | WithMaxBackups int | WithMaxAge int | WithCompress bool

definition logger_options :: "log_config \<Rightarrow> log_option list result" where
  "logger_options l =
     (case parse_log_level (lc_level l) of
        Inl e \<Rightarrow> Inl e
      | Inr level \<Rightarrow>
        let f = trim_space (lc_file l)
        in Inr ([WithZapHandler, WithLevel level, WithAddSource True] @
             (if f \<noteq> [] then
                [WithEncoding ''json'', WithFile f, WithMaxSize (positive_or (lc_max_size l) 100),
                 WithMaxBackups (positive_or (lc_max_backups l) 5),
                 WithMaxAge (positive_or (lc_max_age l) 30), WithCompress (lc_compress l)]
              else [WithEncoding ''console''])))"

subsection \<open>Build parameters\<close>

record build_params =
  bp_channels :: channels_config
  bp_refresh :: duration
  bp_divisor :: int
  bp_max_retries :: int
  bp_default_interval :: string
  bp_restart :: restart_settings
  bp_kill_cancel :: bool
  bp_retention :: persistence_settings

definition no_channels :: channels_config where
  "no_channels = \<lparr>cc_signal = 0, cc_order = 0, cc_main_order = 0, cc_market = 0,
     cc_oms_order_update = 0, cc_oms_cmd = 0\<rparr>"

definition build_params_from_config :: "config option \<Rightarrow> build_params" where
  "build_params_from_config co =
     (case co of
        None \<Rightarrow> \<lparr>bp_channels = no_channels, bp_refresh = 10 * second, bp_divisor = 10, bp_max_retries = 3,
                 bp_default_interval = [], bp_restart = default_restart_settings, bp_kill_cancel = False,
                 bp_retention = default_persistence_settings\<rparr>
      | Some c \<Rightarrow> \<lparr>bp_channels = cfg_channels c, bp_refresh = projection_refresh_interval co,
                 bp_divisor = cfg_divisor c, bp_max_retries = ec_max_retries (cfg_exchange c),
                 bp_default_interval = sc_default_interval (cfg_strategies c),
                 bp_restart = restart_settings_of co, bp_kill_cancel = kill_switch_settings_of co,
                 bp_retention = persistence_settings_of co\<rparr>)"

subsection \<open>What a loaded configuration satisfies\<close>

definition restart_ok :: "restart_settings \<Rightarrow> bool" where
  "restart_ok rs \<longleftrightarrow> 0 < rs_max_crashes rs \<and> 0 < rs_crash_window rs \<and> 0 < rs_multiplier rs \<and>
     (rs_enabled rs \<longrightarrow> 0 \<le> rs_initial_backoff rs) \<and>
     (0 < rs_max_backoff rs \<longrightarrow> rs_initial_backoff rs \<le> rs_max_backoff rs)"

definition retention_ok :: "persistence_settings \<Rightarrow> bool" where
  "retention_ok ps \<longleftrightarrow> 0 \<le> ps_log_days ps \<and> 0 \<le> ps_snapshot_days ps \<and> 0 < ps_cleanup ps"

definition credentials_ok :: "exchange_config \<Rightarrow> bool" where
  "credentials_ok ec \<longleftrightarrow>
     to_lower (trim_space (ec_name ec)) = ''gateio'' \<and>
     trim_space (ec_api_key ec) \<noteq> [] \<and> trim_space (ec_api_secret ec) \<noteq> [] \<and>
     (ec_private_ws ec \<longrightarrow> trim_space (ec_user_id ec) \<noteq> [])"

lemma trim_gateio: "to_lower (trim_space ''gateio'') = ''gateio''"
  by code_simp

lemma validate_exchange_ok: "validate_exchange path ec = Inr ec' \<Longrightarrow> credentials_ok ec'"
  by (auto simp: validate_exchange_def credentials_ok_def Let_def trim_gateio split: if_splits)

lemma parse_restart_multiplier: "parse_restart_settings raw = Inr rs \<Longrightarrow> 0 < rs_multiplier rs"
  by (auto simp: parse_restart_settings_def default_restart_settings_def Let_def
      split: sum.splits if_splits)

lemma parse_persistence_ok: "parse_persistence_settings raw = Inr ps \<Longrightarrow> retention_ok ps"
  by (auto simp: parse_persistence_settings_def default_persistence_settings_def retention_ok_def
      second_def Let_def split: if_splits option.splits)

lemma validate_cfg_ok:
  assumes "validate_cfg c = Inr c'" and "0 < rs_multiplier (cfg_restart c)"
  shows "0 < cfg_divisor c' \<and> restart_ok (cfg_restart c') \<and> credentials_ok (cfg_exchange c') \<and>
    (\<exists>ec. c' = c\<lparr>cfg_exchange := ec\<rparr>)"
  using assms by (auto simp: validate_cfg_def restart_ok_def Let_def
      dest: validate_exchange_ok split: sum.splits if_splits)

lemma resolve_path_abs: "is_abs base \<Longrightarrow> resolve_path base p = Inr q \<Longrightarrow> is_abs q"
  by (auto simp: resolve_path_def Let_def join_path_abs split: if_splits)

lemma build_config_cases:
  assumes "build_config wd path raw b = Inr c"
  obtains sdir logf refresh rs ps c0 where
    "resolve_path wd (sc_dir (raw_strategies raw)) = Inr sdir"
    "(if trim_space (lc_file (raw_log raw)) = [] then Inr []
      else resolve_path wd (trim_space (lc_file (raw_log raw)))) = Inr logf"
    "duration_of (trim_space (raw_refresh raw)) = Inr refresh"
    "parse_restart_settings (sc_restart (raw_strategies raw)) = Inr rs"
    "parse_persistence_settings (raw_persistence raw) = Inr ps"
    "validate_cfg c0 = Inr c" "cfg_work_dir c0 = wd" "cfg_path c0 = path"
    "cfg_database c0 = join_path wd ''data/signalix.db''" "cfg_strategies_dir c0 = sdir"
    "lc_file (cfg_log c0) = logf" "cfg_retention c0 = ps" "rs_multiplier (cfg_restart c0) = rs_multiplier rs"
    "cfg_refresh c0 = refresh" "cfg_risk c0 = raw_risk raw"
  using assms unfolding build_config_def Let_def
  by (auto split: sum.splits if_splits)

definition config_ok :: "config \<Rightarrow> bool" where
  "config_ok c \<longleftrightarrow>
     0 < cfg_divisor c \<and> restart_ok (cfg_restart c) \<and> retention_ok (cfg_retention c) \<and>
     credentials_ok (cfg_exchange c) \<and> 0 < projection_refresh_interval (Some c) \<and>
     (is_abs (cfg_work_dir c) \<longrightarrow>
        is_abs (cfg_database c) \<and> is_abs (cfg_strategies_dir c) \<and>
        (lc_file (cfg_log c) \<noteq> [] \<longrightarrow> is_abs (lc_file (cfg_log c))))"

lemma build_config_ok:
  assumes "build_config wd path raw b = Inr c"
  shows "config_ok c \<and> cfg_work_dir c = wd"
  using assms
proof (rule build_config_cases, goal_cases)
  case (1 sdir logf refresh rs ps c0)
  note parts = 1
  have v: "0 < cfg_divisor c \<and> restart_ok (cfg_restart c) \<and> credentials_ok (cfg_exchange c) \<and>
      (\<exists>ec. c = c0\<lparr>cfg_exchange := ec\<rparr>)"
    using validate_cfg_ok [OF parts(6)] parse_restart_multiplier [OF parts(4)] parts(13) by simp
  then obtain ec where c: "c = c0\<lparr>cfg_exchange := ec\<rparr>" by blast
  have "is_abs wd \<Longrightarrow> logf \<noteq> [] \<Longrightarrow> is_abs logf"
    using parts(2) resolve_path_abs by (auto split: if_splits)
  then show ?case
    using v parts resolve_path_abs [OF _ parts(1)] parse_persistence_ok [OF parts(5)]
    by (simp add: config_ok_def c join_path_abs projection_refresh_interval_def second_def)
qed

lemma load_config_cases:
  assumes "load_config env home viper = Inr c"
  obtains wd raw b where "resolve_work_dir env home = Inr wd"
    "build_config wd (join_path wd ''config.toml'') raw b = Inr c"
  using assms by (auto simp: load_config_def Let_def split: sum.splits config_file.splits)

lemma markets_loop_perp:
  "markets_loop names out = Inr out' \<Longrightarrow> out = [] \<or> out = [Perp] \<Longrightarrow> out' = [] \<or> out' = [Perp]"
proof (induction names out rule: markets_loop.induct)
  case (2 raw rest out)
  then show ?case
    by (auto simp: market_valid_def Let_def split: if_splits sum.splits)
qed auto

lemma enabled_markets_perp:
  assumes "enabled_markets co = Inr ms"
  shows "ms = [Perp]"
proof -
  obtain names out where "markets_loop names [] = Inr out" "ms = (if out = [] then [Perp] else out)"
    using assms unfolding enabled_markets_def Let_def by (auto split: sum.splits)
  then show ?thesis using markets_loop_perp [of names "[]" out] by auto
qed

lemma default_durations:
  "parse_duration ''5m'' = Some (300 * second)" "parse_duration ''3s'' = Some (3 * second)"
  "parse_duration ''60s'' = Some (60 * second)" "parse_duration ''10s'' = Some (10 * second)"
  "parse_duration ''1h'' = Some (3600 * second)"
proof -
  have n: "show_nat 5 = ''5''" "show_nat 3 = ''3''" "show_nat 60 = ''60''" "show_nat 10 = ''10''"
    "show_nat 1 = ''1''" by code_simp+
  have u: "unit_nanos ''m'' = Some (60 * 10 ^ 9)" "unit_nanos ''s'' = Some (10 ^ 9)"
    "unit_nanos ''h'' = Some (3600 * 10 ^ 9)" by (simp_all add: unit_nanos_def)
  note w = parse_whole_duration
  show "parse_duration ''5m'' = Some (300 * second)" "parse_duration ''3s'' = Some (3 * second)"
    "parse_duration ''60s'' = Some (60 * second)" "parse_duration ''10s'' = Some (10 * second)"
    "parse_duration ''1h'' = Some (3600 * second)"
    using w [OF u(1), of 5] w [OF u(2), of 3] w [OF u(2), of 60] w [OF u(2), of 10] w [OF u(3), of 1]
    by (simp_all add: n second_def is_digit_def del: One_nat_def)
qed

text \<open>A file with credentials and nothing else, in the directory \<open>/w\<close>.\<close>

definition minimal_raw :: raw_config where
  "minimal_raw = default_raw\<lparr>raw_exchange := (raw_exchange default_raw)\<lparr>ec_api_key := ''k'',
     ec_api_secret := ''s'', ec_user_id := ''1''\<rparr>\<rparr>"

lemma minimal_trims:
  "trim_space ''5m'' = ''5m''" "trim_space ''3s'' = ''3s''" "trim_space ''60s'' = ''60s''"
  "trim_space ''10s'' = ''10s''" "trim_space ''1h'' = ''1h''" "trim_space ''k'' = ''k''"
  "trim_space ''s'' = ''s''" "trim_space ''1'' = ''1''"
  by code_simp+

lemma minimal_paths:
  "resolve_work_dir ''/w'' home = Inr ''/w''" "resolve_path ''/w'' ''strategies'' = Inr ''/w/strategies''"
proof -
  have "trim_space ''/w'' = ''/w''" "has_prefix ''/w'' ''~/'' = False" "clean_path ''/w'' = ''/w''"
    by code_simp+
  then show "resolve_work_dir ''/w'' home = Inr ''/w''"
    by (simp add: resolve_work_dir_def expand_path_def)
  show "resolve_path ''/w'' ''strategies'' = Inr ''/w/strategies''" by code_simp
qed

lemma load_minimal:
  "\<exists>c. load_config ''/w'' home (\<lambda>_. Decoded minimal_raw True) = Inr c \<and>
       cfg_markets c = [''perp''] \<and> cfg_risk c = raw_risk default_raw"
  by (simp add: load_config_def minimal_paths build_config_def minimal_raw_def default_raw_def
      parse_restart_settings_def restart_duration_def duration_of_def minimal_trims default_durations
      parse_persistence_settings_def validate_cfg_def validate_exchange_def trim_gateio
      default_restart_settings_def default_persistence_settings_def second_def Let_def)

text \<open>C32. A configuration that \<open>Load\<close> accepts is one the engine can run on: a positive size divisor
  and refresh interval, restart settings with a positive window, crash limit and multiplier and an
  initial delay within the cap, retention periods that are not negative with a positive cleanup
  interval, the credentials the enabled connections need, and, when the working directory is
  absolute, absolute paths for the database, the strategies and the log file; the daemon's markets
  are then the perpetual one alone.\<close>

theorem loaded_config_sound:
  assumes "load_config env home viper = Inr c"
  shows "config_ok c \<and> resolve_work_dir env home = Inr (cfg_work_dir c) \<and>
    (enabled_markets (Some c) = Inr ms \<longrightarrow> ms = [Perp])"
proof -
  obtain wd raw b where w: "resolve_work_dir env home = Inr wd"
    and b: "build_config wd (join_path wd ''config.toml'') raw b = Inr c"
    using assms by (rule load_config_cases)
  then show ?thesis using build_config_ok [OF b] enabled_markets_perp by simp
qed

theorem loaded_config_sound_witness:
  "\<exists>c. load_config ''/w'' (Inl (Errorf [])) (\<lambda>_. Decoded minimal_raw True) = Inr c \<and>
       config_ok c \<and> enabled_markets (Some c) = Inr [Perp]"
proof -
  obtain c where c: "load_config ''/w'' (Inl (Errorf [])) (\<lambda>_. Decoded minimal_raw True) = Inr c"
      "cfg_markets c = [''perp'']"
    using load_minimal by blast
  have "markets_loop [''perp''] [] = Inr [Perp]" by code_simp
  then have "enabled_markets (Some c) = Inr [Perp]" by (simp add: enabled_markets_def c(2))
  then show ?thesis using loaded_config_sound [OF c(1), of "[Perp]"] c(1) by blast
qed

subsection \<open>The limits\<close>

lemma positive_limit_Some:
  "positive_limit nff x def = Some v \<longleftrightarrow>
     (if float_less (Fin 0) x then (\<exists>q. x = Fin q \<and> v = nff q) else v = def)"
  by (cases x) (auto simp: positive_limit_def)

lemma risk_rules_Some:
  assumes "risk_rules nff (Some cfg) = Some r"
  defines "c \<equiv> cfg_risk cfg" and "d \<equiv> default_rules"
  shows "positive_limit nff (rk_max_order_size c) (r_max_order_size d) = Some (r_max_order_size r)"
    "positive_limit nff (rk_max_position_size c) (r_max_position_size d) = Some (r_max_position_size r)"
    "positive_limit nff (rk_max_daily_loss c) (r_max_daily_loss d) = Some (r_max_daily_loss r)"
    "positive_limit nff (rk_max_drawdown c) (r_max_drawdown d) = Some (r_max_drawdown r)"
    "r_max_open_orders r = positive_int (rk_max_open_orders c) (r_max_open_orders d)"
    "r_max_positions r = positive_int (rk_max_positions c) (r_max_positions d)"
    "r_max_leverage r = positive_int (rk_max_leverage c) (r_max_leverage d)"
    "r_enable r = rk_enable c" "r_position_lock r = rk_position_lock c"
  using assms(1) unfolding risk_rules_def Let_def c_def d_def
  by (simp_all split: option.splits) auto

text \<open>The rules the engine enforces are those of the file where the file states a positive
  limit, and the defaults elsewhere; the switch and the position lock are always the file's. The
  rules exist exactly when no limit is \<open>+Inf\<close>, on which the conversion to a decimal panics.\<close>

theorem risk_limits_from_config:
  assumes "c = cfg_risk cfg"
  shows "(risk_rules nff (Some cfg) = None \<longleftrightarrow>
       PInf \<in> {rk_max_order_size c, rk_max_position_size c, rk_max_daily_loss c, rk_max_drawdown c}) \<and>
    (\<forall>r. risk_rules nff (Some cfg) = Some r \<longrightarrow>
       r_enable r = rk_enable c \<and> r_position_lock r = rk_position_lock c \<and>
       (\<forall>q > 0. rk_max_order_size c = Fin q \<longrightarrow> r_max_order_size r = nff q) \<and>
       (\<forall>q > 0. rk_max_position_size c = Fin q \<longrightarrow> r_max_position_size r = nff q) \<and>
       (\<forall>q > 0. rk_max_daily_loss c = Fin q \<longrightarrow> r_max_daily_loss r = nff q) \<and>
       (\<forall>q > 0. rk_max_drawdown c = Fin q \<longrightarrow> r_max_drawdown r = nff q) \<and>
       r_max_open_orders r = (if 0 < rk_max_open_orders c then rk_max_open_orders c else 50) \<and>
       r_max_positions r = (if 0 < rk_max_positions c then rk_max_positions c else 20) \<and>
       r_max_leverage r = (if 0 < rk_max_leverage c then rk_max_leverage c else 0))"
proof -
  have none: "positive_limit nff x d = None \<longleftrightarrow> x = PInf" for x d
    by (cases x) (auto simp: positive_limit_def)
  have "risk_rules nff (Some cfg) = None \<longleftrightarrow>
      positive_limit nff (rk_max_order_size c) (r_max_order_size default_rules) = None \<or>
      positive_limit nff (rk_max_position_size c) (r_max_position_size default_rules) = None \<or>
      positive_limit nff (rk_max_daily_loss c) (r_max_daily_loss default_rules) = None \<or>
      positive_limit nff (rk_max_drawdown c) (r_max_drawdown default_rules) = None"
    unfolding assms by (simp add: risk_rules_def Let_def split: option.split)
  then have "risk_rules nff (Some cfg) = None \<longleftrightarrow>
      PInf \<in> {rk_max_order_size c, rk_max_position_size c, rk_max_daily_loss c, rk_max_drawdown c}"
    unfolding none by auto
  moreover have "positive_limit nff x d = Some v \<Longrightarrow> \<forall>q > 0. x = Fin q \<longrightarrow> v = nff q" for x d v
    by (auto simp: positive_limit_Some)
  from risk_rules_Some(1-4) [of nff cfg, folded assms, THEN this]
  have "risk_rules nff (Some cfg) = Some r \<Longrightarrow>
      (\<forall>q > 0. rk_max_order_size c = Fin q \<longrightarrow> r_max_order_size r = nff q) \<and>
      (\<forall>q > 0. rk_max_position_size c = Fin q \<longrightarrow> r_max_position_size r = nff q) \<and>
      (\<forall>q > 0. rk_max_daily_loss c = Fin q \<longrightarrow> r_max_daily_loss r = nff q) \<and>
      (\<forall>q > 0. rk_max_drawdown c = Fin q \<longrightarrow> r_max_drawdown r = nff q)" for r by blast
  moreover note risk_rules_Some(5-9) [of nff cfg, folded assms]
  ultimately show ?thesis
    by (simp add: positive_int_def default_rules_def)
qed

theorem risk_limits_from_config_witness:
  "\<exists>cfg r. cfg_risk cfg = raw_risk default_raw \<and> risk_rules (\<lambda>q. of_int \<lfloor>q\<rfloor>) (Some cfg) = Some r \<and>
     r_enable r \<and> r_max_order_size r = 100000 \<and> r_max_open_orders r = 50"
proof -
  obtain cfg :: config where c: "cfg_risk cfg = raw_risk default_raw" using load_minimal [of "Inr []"] by blast
  have "risk_rules (\<lambda>q. of_int \<lfloor>q\<rfloor>) (Some cfg) \<noteq> None"
    using risk_limits_from_config [OF refl, of "\<lambda>q. of_int \<lfloor>q\<rfloor>" cfg] by (simp add: c default_raw_def)
  then obtain r where r: "risk_rules (\<lambda>q. of_int \<lfloor>q\<rfloor>) (Some cfg) = Some r" by blast
  then show ?thesis
    using risk_limits_from_config [OF refl, of "\<lambda>q. of_int \<lfloor>q\<rfloor>" cfg] c by (auto simp: default_raw_def)
qed

text \<open>The example file and the rules say that a zero limit means no limit. A zero in the file is
  ignored instead: the default stays, and an order above it is never allowed as it is.\<close>

theorem zero_limit_keeps_default:
  assumes "risk_rules nff (Some cfg) = Some r" and "rk_enable (cfg_risk cfg)"
    and "rk_max_order_size (cfg_risk cfg) = Fin 0"
    and "in_rules i = r" "dec_parse D (in_order_size i) = Some qty" "100000 < qty"
  shows "v_kind (evaluate D i) \<noteq> KAllow"
proof -
  have r: "r_enable r" "r_max_order_size r = 100000"
    using assms(1-3) by (auto simp: risk_rules_def Let_def positive_limit_Some default_rules_def split: option.splits)
  show ?thesis
  proof (cases "v_kind (evaluate D i) = KReject")
    case False
    have "r_enable (in_rules i)" using r(1) assms(4) by simp
    from this False show ?thesis
      by (cases rule: evaluate_cases) (use r(2) assms(4-6) in auto)
  qed simp
qed

end
