(* ===== verification/PerpMarket.thy ===== *)
theory PerpMarket
  imports Projection MarketRouter Instrument Executor
begin

text \<open>
  The perpetual market as one value, \<open>internal/app/market/perp\<close>: its construction
  (\<open>perp_market.go\<close>), the account and market-data queries behind the strategies' RPC and the gRPC
  service (\<open>account.go\<close>) and the adaptation of the projection's refresh hook
  (\<open>projection_hook.go\<close>). A receiver that may be nil is an option. The decision engine and the
  risk context it builds are in their own theories; here they are the settings it is made with.
\<close>

record perp_market =
  pmk_router :: "router option"
  pmk_proj :: "projection option"
  pmk_exec :: executor
  pmk_registry :: registry
  pmk_buffer :: int
  pmk_divisor :: int
  pmk_refresh :: duration
  pmk_risk :: bool

text \<open>\<open>metas\<close> is the exchange's answer to the load of the registry, whose failure is only
  logged.\<close>

definition new_perp_market ::
  "bool \<Rightarrow> int \<Rightarrow> int \<Rightarrow> duration \<Rightarrow> bool \<Rightarrow> contract_meta option list result \<Rightarrow> perp_market result" where
  "new_perp_market exch buf divisor every hook metas =
     (if \<not> exch then Inl (Errorf ''exchange is required'')
      else let proj = new_projection hook False
           in Inr \<lparr>pmk_router = Some new_router, pmk_proj = Some proj,
                   pmk_exec = new_executor (Some proj),
                   pmk_registry = snd (load_from metas new_registry),
                   pmk_buffer = (if buf \<le> 0 then 1000 else buf),
                   pmk_divisor = (if divisor \<le> 0 then 10 else divisor),
                   pmk_refresh = (if every \<le> 0 then 10 * second else every),
                   pmk_risk = False\<rparr>)"

definition bind_risk :: "perp_market \<Rightarrow> perp_market" where
  "bind_risk pm = pm\<lparr>pmk_risk := True\<rparr>"

definition attach_equity_hook :: "perp_market \<Rightarrow> perp_market" where
  "attach_equity_hook pm =
     (case pmk_proj pm of None \<Rightarrow> pm
      | Some p \<Rightarrow> pm\<lparr>pmk_proj := Some (p\<lparr>pj_equity_hook := True\<rparr>)\<rparr>)"

text \<open>\<open>ping\<close> is the exchange's answer.\<close>

definition market_ping :: "go_error option \<Rightarrow> perp_market option \<Rightarrow> go_error option" where
  "market_ping ping pmo = (case pmo of None \<Rightarrow> Some (Errorf ''perp market not configured'') | Some pm \<Rightarrow> ping)"

definition perp_from_markets :: "(market \<rightharpoonup> perp_market) \<Rightarrow> perp_market result" where
  "perp_from_markets ms =
     (case ms Perp of None \<Rightarrow> Inl (Errorf (''market '' @ quoted ''perp'' @ '' not registered'')) | Some pm \<Rightarrow> Inr pm)"

subsection \<open>Queries\<close>

definition balance_anchor :: contract where
  "balance_anchor = ''BTC/USDT''"

definition no_projection :: go_error where
  "no_projection = Errorf ''account projection not configured''"

definition no_router :: go_error where
  "no_router = Errorf ''market router not configured''"

definition ticker_not_in_cache :: go_error where
  "ticker_not_in_cache = Errorf ''ticker not in cache''"

definition symbol_required :: go_error where
  "symbol_required = Errorf ''symbol is required''"

definition acct_balance :: "perp_market \<Rightarrow> balance_view result" where
  "acct_balance pm =
     (case pmk_proj pm of None \<Rightarrow> Inl no_projection
      | Some p \<Rightarrow> (case snapshot p balance_anchor of
          Inl e \<Rightarrow> Inl e | Inr (b, _, _) \<Rightarrow> Inr (balance_view_from_perp b)))"

definition acct_position :: "perp_market \<Rightarrow> string \<Rightarrow> position_view option result" where
  "acct_position pm symbol =
     (case pmk_proj pm of None \<Rightarrow> Inl no_projection
      | Some p \<Rightarrow>
        let c = trim_space symbol
        in if c = [] then Inl symbol_required
           else case snapshot p c of
             Inl e \<Rightarrow> Inl e
           | Inr (_, pos, _) \<Rightarrow> Inr (map_option position_view_from_perp pos))"

definition acct_ticker :: "perp_market \<Rightarrow> string \<Rightarrow> ticker result" where
  "acct_ticker pm symbol =
     (case pmk_router pm of None \<Rightarrow> Inl no_router
      | Some mr \<Rightarrow>
        let c = trim_space symbol
        in if c = [] then Inl symbol_required
           else case get_cached_ticker mr c of
             None \<Rightarrow> Inl (WrapAfter ticker_not_in_cache c)
           | Some snap \<Rightarrow> Inr (ticker_from_snapshot snap))"

definition acct_klines :: "perp_market \<Rightarrow> string \<Rightarrow> string \<Rightarrow> int \<Rightarrow> kline list result" where
  "acct_klines pm symbol interval0 limit =
     (case pmk_router pm of None \<Rightarrow> Inl no_router
      | Some mr \<Rightarrow>
        let c = trim_space symbol; iv = trim_space interval0
        in if c = [] then Inl symbol_required
           else if iv = [] then Inl (Errorf ''interval is required'')
           else case list_closed_klines (mr_hist mr) c iv (normalize_kline_limit limit) of
             None \<Rightarrow> Inr [] | Some ks \<Rightarrow> Inr ks)"

text \<open>\<open>ks\<close> is the order of the range over the positions.\<close>

definition acct_positions :: "contract list \<Rightarrow> perp_market \<Rightarrow> position_view list result" where
  "acct_positions ks pm =
     (case pmk_proj pm of None \<Rightarrow> Inl no_projection
      | Some p \<Rightarrow> (case all_positions ks p of
          Inl e \<Rightarrow> Inl e | Inr ps \<Rightarrow> Inr (map position_view_from_perp ps)))"

definition acct_tickers :: "perp_market \<Rightarrow> (string \<rightharpoonup> ticker) result" where
  "acct_tickers pm =
     (case pmk_router pm of None \<Rightarrow> Inl no_router
      | Some mr \<Rightarrow> Inr (\<lambda>c. map_option ticker_from_snapshot (mr_tickers mr c)))"

text \<open>The wrapped hook hands the same refresh to the persistence, as views.\<close>

definition wrap_refresh_hook :: "refresh_call \<Rightarrow> balance_view \<times> position_view list \<times> 64 word \<times> go_time" where
  "wrap_refresh_hook rc =
     (balance_view_from_perp (rc_balance rc), map position_view_from_perp (rc_positions rc),
      rc_revision rc, rc_at rc)"

subsection \<open>What the queries answer\<close>

lemma acct_balance_ready:
  "pmk_proj pm = Some p \<Longrightarrow> acct_balance pm =
     (case pj_balance p of Some b \<Rightarrow> if pj_ready p then Inr (balance_view_from_perp b) else Inl not_ready
      | None \<Rightarrow> Inl not_ready)"
  by (auto simp: acct_balance_def snapshot_def split: option.split)

text \<open>The number of bars asked for is clamped: an answer never has more than 2000.\<close>

lemma acct_klines_bound:
  assumes "acct_klines pm s iv lim0 = Inr ks"
  shows "length ks \<le> 2000 \<and> (0 < lim0 \<longrightarrow> length ks \<le> nat lim0)"
proof -
  obtain mr where mr: "pmk_router pm = Some mr" using assms by (auto simp: acct_klines_def split: option.splits)
  have lo: "0 < normalize_kline_limit lim0" "normalize_kline_limit lim0 \<le> 2000"
    "0 < lim0 \<Longrightarrow> normalize_kline_limit lim0 \<le> lim0"
    by (auto simp: normalize_kline_limit_def)
  have "ks = [] \<or> list_closed_klines (mr_hist mr) (trim_space s) (trim_space iv) (normalize_kline_limit lim0) = Some ks"
    using assms mr by (auto simp: acct_klines_def Let_def split: if_splits option.splits)
  moreover have "length xs \<le> nat (normalize_kline_limit lim0)"
    if "list_closed_klines st c i (normalize_kline_limit lim0) = Some xs" for st c i xs
    using that by (auto simp: list_closed_klines_def Let_def split: if_splits)
  ultimately have "length ks \<le> nat (normalize_kline_limit lim0)" by auto
  then show ?thesis using lo by (auto simp: nat_le_iff)
qed

text \<open>A position asked for under another spelling of its contract is answered as if there were
  none: the query only trims the name, the projection's keys are the canonical ones.\<close>

lemma position_exact_name:
  assumes "pmk_proj pm = Some p" "pj_ready p" "pj_balance p \<noteq> None"
    and "trim_space s \<noteq> []" "pj_positions p (trim_space s) = None"
  shows "acct_position pm s = Inr None"
  using assms by (auto simp: acct_position_def snapshot_def Let_def)

end
