(* ===== verification/EngineIPC.thy ===== *)
theory EngineIPC
  imports PerpMarket Reconcile
begin

text \<open>
  The engine's side of the conversation with a strategy (\<open>engine.go\<close>, \<open>engine_rpc.go\<close>,
  \<open>account_snapshot.go\<close>, \<open>market_snapshot.go\<close>, \<open>account_snapshot_persist.go\<close>): the messages a
  process sends, the requests it may make, its custom state, and the views handed to it. A JSON
  value is a \<open>gval\<close>; \<open>json.Marshal\<close> of one is the parameter \<open>marshal\<close>. Objects are association
  lists ordered by key, the order in which \<open>Marshal\<close> writes a map. The answer to a request is the
  message sent; log lines are left out.
\<close>

subsection \<open>Objects\<close>

definition obj_row :: "gval option \<Rightarrow> row" where
  "obj_row vo = (case vo of Some (GObj kvs) \<Rightarrow> map_of kvs | _ \<Rightarrow> Map.empty)"

fun str_member :: "gval option \<Rightarrow> string" where
  "str_member (Some (GStr s)) = s"
| "str_member _ = []"

subsection \<open>Views\<close>

definition unix_sec :: "go_time \<Rightarrow> gval" where
  "unix_sec t = GInt (t div second)"

definition ticker_view_to_rpc :: "ticker option \<Rightarrow> gval" where
  "ticker_view_to_rpc ticko =
     (case ticko of None \<Rightarrow> GNull
      | Some t \<Rightarrow> GObj
         [(''change_pct_24h'', GStr (tv_change t)), (''contract'', GStr (tv_contract t)),
          (''funding_rate'', GStr (tv_funding t)), (''high_24h'', GStr (tv_high t)),
          (''index_price'', GStr (tv_index t)), (''last'', GStr (tv_last t)),
          (''low_24h'', GStr (tv_low t)), (''mark_price'', GStr (tv_mark t)),
          (''open_interest'', GStr (tv_open_interest t)), (''timestamp_millis'', GInt (tv_millis t)),
          (''volume_24h'', GStr (tv_volume t)), (''volume_24h_base'', GStr (tv_volume_base t)),
          (''volume_24h_quote'', GStr (tv_volume_quote t))])"

definition balance_view_to_rpc :: "balance_view option \<Rightarrow> gval" where
  "balance_view_to_rpc bo =
     (case bo of None \<Rightarrow> GNull
      | Some b \<Rightarrow> GObj
         [(''available'', GStr (bv_available b)), (''currency'', GStr (bv_currency b)),
          (''frozen'', GStr (bv_frozen b)), (''total'', GStr (bv_total b)),
          (''updated_at'', unix_sec (bv_updated b))])"

definition position_object :: "gval \<Rightarrow> position_view \<Rightarrow> gval" where
  "position_object lev p = GObj
     [(''contract'', GStr (pv_symbol p)), (''entry_price'', GStr (pv_entry p)), (''leverage'', lev),
      (''mark_price'', GStr (pv_mark p)), (''side'', GStr (pv_side p)), (''size'', GStr (pv_size p)),
      (''unrealized_pnl'', GStr (pv_pnl p)), (''updated_at'', unix_sec (pv_updated p))]"

definition position_view_to_rpc :: "position_view option \<Rightarrow> gval" where
  "position_view_to_rpc po =
     (case po of None \<Rightarrow> GNull | Some p \<Rightarrow> position_object (GStr (pv_leverage p)) p)"

text \<open>The encoders of the persisted snapshots (\<open>account_snapshot.go\<close>): \<open>Atoi\<close>, whose error is
  dropped, leaves 0 on a syntax error and the nearest bound on a range error.\<close>

definition atoi_or :: "string \<Rightarrow> int" where
  "atoi_or s =
     (case parse_int 64 s of Some i \<Rightarrow> i
      | None \<Rightarrow> (case read_int s of None \<Rightarrow> 0 | Some i \<Rightarrow> if i < 0 then - (2 ^ 63) else 2 ^ 63 - 1))"

definition balance_to_rpc :: "balance_view option \<Rightarrow> gval" where
  "balance_to_rpc bo =
     (case bo of None \<Rightarrow> GNull
      | Some b \<Rightarrow> GObj
         [(''available'', GStr (bv_available b)), (''currency'', GStr (bv_currency b)),
          (''frozen'', GStr (bv_frozen b)), (''total'', GStr (bv_total b)),
          (''updated_at'', unix_sec (bv_updated b))])"

definition position_to_rpc :: "position_view option \<Rightarrow> gval" where
  "position_to_rpc po =
     (case po of None \<Rightarrow> GNull
      | Some p \<Rightarrow> position_object
          (GInt (if pv_leverage p \<noteq> [] then atoi_or (trim_space (pv_leverage p)) else 0)) p)"

record snapshot_row =
  sr_at :: go_time
  sr_revision :: "64 word"
  sr_currency :: string
  sr_equity :: string
  sr_balance :: string
  sr_positions :: string

definition encode_account_snapshot_row ::
  "(gval \<Rightarrow> string result) \<Rightarrow> balance_view option \<Rightarrow> position_view option list \<Rightarrow> 64 word \<Rightarrow> go_time \<Rightarrow>
   snapshot_row result" where
  "encode_account_snapshot_row marshal bo ps revision at_time =
     (case bo of None \<Rightarrow> Inl (Errorf ''nil balance'')
      | Some b \<Rightarrow> (case marshal (balance_to_rpc bo) of Inl e \<Rightarrow> Inl e
        | Inr bj \<Rightarrow> (case marshal (GArr (map (\<lambda>p. position_to_rpc (Some p)) (List.map_filter id ps))) of
            Inl e \<Rightarrow> Inl e
          | Inr pj \<Rightarrow> Inr \<lparr>sr_at = at_time, sr_revision = revision, sr_currency = bv_currency b,
                sr_equity = bv_total b, sr_balance = bj, sr_positions = pj\<rparr>)))"

text \<open>\<open>PersistAccountSnapshot\<close>: the row handed to the store, if any; a failed save is logged.\<close>

definition persist_account_snapshot ::
  "bool \<Rightarrow> (gval \<Rightarrow> string result) \<Rightarrow> balance_view option \<Rightarrow> position_view option list \<Rightarrow> 64 word \<Rightarrow> go_time \<Rightarrow>
   snapshot_row option" where
  "persist_account_snapshot store marshal bo ps revision at_time =
     (if \<not> store then None
      else case encode_account_snapshot_row marshal bo ps revision at_time of
        Inl e \<Rightarrow> None | Inr row \<Rightarrow> Some row)"

subsection \<open>The engine as the queries see it\<close>

record engine_view =
  ev_markets :: "market \<rightharpoonup> perp_market"
  ev_projection :: "projection option"
  ev_intervals :: "string \<rightharpoonup> string"
  ev_states :: strategy_states
  ev_store :: bool
  ev_saves :: "(string \<times> string \<times> string) list"

definition market_account :: "engine_view \<Rightarrow> market \<Rightarrow> perp_market result" where
  "market_account e m =
     (case ev_markets e m of
        None \<Rightarrow> Inl (Errorf (''market '' @ quoted (market_str m) @ '' not registered''))
      | Some mk \<Rightarrow> Inr mk)"

definition rpc_get_balance :: "engine_view \<Rightarrow> gval result" where
  "rpc_get_balance e =
     (case market_account e Perp of Inl err \<Rightarrow> Inl err
      | Inr a \<Rightarrow> (case acct_balance a of Inl err \<Rightarrow> Inl err | Inr bv \<Rightarrow> Inr (balance_view_to_rpc (Some bv))))"

definition rpc_get_position :: "engine_view \<Rightarrow> string \<Rightarrow> gval result" where
  "rpc_get_position e symbol =
     (case market_account e Perp of Inl err \<Rightarrow> Inl err
      | Inr a \<Rightarrow> (case acct_position a symbol of Inl err \<Rightarrow> Inl err
          | Inr None \<Rightarrow> Inr GNull
          | Inr (Some pv) \<Rightarrow> Inr (position_view_to_rpc (Some pv))))"

definition rpc_get_ticker :: "engine_view \<Rightarrow> string \<Rightarrow> gval result" where
  "rpc_get_ticker e symbol =
     (case market_account e Perp of Inl err \<Rightarrow> Inl err
      | Inr a \<Rightarrow> (case acct_ticker a (trim_space symbol) of
          Inl err \<Rightarrow> Inl err | Inr t \<Rightarrow> Inr (ticker_view_to_rpc (Some t))))"

text \<open>The members of a bar: \<open>models.Kline\<close> is encoded by its tags.\<close>

definition kline_object :: "kline \<Rightarrow> gval" where
  "kline_object k = GObj
     ([(''contract'', GStr (k_contract k)), (''interval'', GStr (k_interval k)), (''open'', GStr (k_open k)),
       (''high'', GStr (k_high k)), (''low'', GStr (k_low k)), (''close'', GStr (k_close k)),
       (''volume'', GStr (k_volume k))] @
      (if k_volume_base k = [] then [] else [(''volume_base'', GStr (k_volume_base k))]) @
      [(''timestamp_sec'', GInt (k_sec k)), (''window_closed'', GBool (k_closed k))])"

text \<open>The limit of a decoded request is a float, truncated by the conversion.\<close>

definition klines_limit :: "(go_float \<Rightarrow> int) \<Rightarrow> gval option \<Rightarrow> int" where
  "klines_limit impl vo =
     (case vo of Some (GNum f) \<Rightarrow> to_int64 impl f | Some (GInt i) \<Rightarrow> i | _ \<Rightarrow> 100)"

definition rpc_get_klines :: "(go_float \<Rightarrow> int) \<Rightarrow> engine_view \<Rightarrow> string \<Rightarrow> row \<Rightarrow> gval result" where
  "rpc_get_klines impl e name params =
     (case market_account e Perp of Inl err \<Rightarrow> Inl err
      | Inr a \<Rightarrow>
        let s = trim_space (str_member (params ''symbol''));
            iv0 = trim_space (str_member (params ''interval''))
        in if s = [] then Inl symbol_required
           else
             (case (if iv0 \<noteq> [] then Some iv0
                    else case ev_intervals e name of Some iv \<Rightarrow> if iv = [] then None else Some iv | None \<Rightarrow> None) of
                None \<Rightarrow> Inl (Errorf ''interval is required (strategy not running or no default interval)'')
              | Some iv \<Rightarrow> (case acct_klines a s iv (klines_limit impl (params ''limit'')) of
                  Inl err \<Rightarrow> Inl err | Inr ks \<Rightarrow> Inr (GArr (map kline_object ks)))))"

text \<open>The same reads for the gRPC service.\<close>

definition require_projection_ready :: "engine_view \<Rightarrow> go_error option" where
  "require_projection_ready e =
     (case ev_projection e of None \<Rightarrow> Some no_projection
      | Some p \<Rightarrow> if \<not> pj_ready p then Some not_ready else None)"

definition balance_snapshot :: "engine_view \<Rightarrow> balance_view result" where
  "balance_snapshot e =
     (case require_projection_ready e of Some err \<Rightarrow> Inl err
      | None \<Rightarrow> (case market_account e Perp of Inl err \<Rightarrow> Inl err | Inr a \<Rightarrow> acct_balance a))"

definition position_snapshot :: "engine_view \<Rightarrow> string \<Rightarrow> position_view option result" where
  "position_snapshot e symbol =
     (case require_projection_ready e of Some err \<Rightarrow> Inl err
      | None \<Rightarrow> (case market_account e Perp of Inl err \<Rightarrow> Inl err
        | Inr a \<Rightarrow> let s = trim_space symbol in if s = [] then Inl symbol_required else acct_position a s))"

definition all_positions_snapshot :: "contract list \<Rightarrow> engine_view \<Rightarrow> position_view list result" where
  "all_positions_snapshot ks e =
     (case require_projection_ready e of Some err \<Rightarrow> Inl err
      | None \<Rightarrow> (case market_account e Perp of Inl err \<Rightarrow> Inl err | Inr a \<Rightarrow> acct_positions ks a))"

definition eng_ticker_snapshot :: "engine_view \<Rightarrow> string \<Rightarrow> ticker result" where
  "eng_ticker_snapshot e symbol =
     (case market_account e Perp of Inl err \<Rightarrow> Inl err
      | Inr a \<Rightarrow> let s = trim_space symbol in if s = [] then Inl symbol_required else acct_ticker a s)"

definition list_cached_tickers :: "engine_view \<Rightarrow> (string \<rightharpoonup> ticker) result" where
  "list_cached_tickers e = (case market_account e Perp of Inl err \<Rightarrow> Inl err | Inr a \<Rightarrow> acct_tickers a)"

definition closed_klines :: "engine_view \<Rightarrow> string \<Rightarrow> string \<Rightarrow> int \<Rightarrow> kline list result" where
  "closed_klines e symbol iv limit =
     (case market_account e Perp of Inl err \<Rightarrow> Inl err | Inr a \<Rightarrow> acct_klines a symbol iv limit)"

subsection \<open>Custom state\<close>

text \<open>The saves are the rows handed to the store; a value that does not marshal is not saved.\<close>

definition set_custom_state ::
  "(gval \<Rightarrow> string result) \<Rightarrow> string \<Rightarrow> string \<Rightarrow> gval \<Rightarrow> engine_view \<Rightarrow> engine_view" where
  "set_custom_state marshal name k v e =
     (let e1 = e\<lparr>ev_states := (ev_states e)(name := (ev_states e name)(k \<mapsto> v))\<rparr>
      in if \<not> ev_store e then e1
         else case marshal v of
           Inl err \<Rightarrow> e1
         | Inr raw \<Rightarrow> e1\<lparr>ev_saves := ev_saves e @ [(name, k, raw)]\<rparr>)"

definition get_custom_state :: "string \<Rightarrow> string \<Rightarrow> engine_view \<Rightarrow> gval option" where
  "get_custom_state name k e = ev_states e name k"

text \<open>\<open>flushStrategyStatesToStore\<close>: \<open>order\<close> is the order of the two ranges, \<open>save\<close> the store's
  answer; the first failed save ends it.\<close>

fun flush_states ::
  "(gval \<Rightarrow> string result) \<Rightarrow> (string \<times> string \<times> string \<Rightarrow> go_error option) \<Rightarrow> (string \<times> string \<times> gval) list \<Rightarrow>
   go_error option \<times> (string \<times> string \<times> string) list" where
  "flush_states marshal save [] = (None, [])"
| "flush_states marshal save ((sn, k, v) # rest) =
     (case marshal v of
        Inl e \<Rightarrow> flush_states marshal save rest
      | Inr raw \<Rightarrow> (case save (sn, k, raw) of
          Some e \<Rightarrow> (Some (Wrapf (''save strategy state '' @ sn @ ''/'' @ k @ '': '') e), [])
        | None \<Rightarrow> (case flush_states marshal save rest of (r, rows) \<Rightarrow> (r, (sn, k, raw) # rows))))"

subsection \<open>Requests\<close>

definition rpc_ok :: gval where
  "rpc_ok = GObj [(''status'', GStr ''ok'')]"

definition rpc_call ::
  "(go_float \<Rightarrow> int) \<Rightarrow> (gval \<Rightarrow> string result) \<Rightarrow> string \<Rightarrow> string \<Rightarrow> row \<Rightarrow> engine_view \<Rightarrow>
   gval result \<times> engine_view" where
  "rpc_call impl marshal name method params e =
     (if method = ''get_position'' then (rpc_get_position e (str_member (params ''symbol'')), e)
      else if method = ''get_balance'' then (rpc_get_balance e, e)
      else if method = ''get_ticker'' then (rpc_get_ticker e (str_member (params ''symbol'')), e)
      else if method = ''get_klines'' then (rpc_get_klines impl e name params, e)
      else if method = ''get_state'' then
        (let k = str_member (params ''key'')
         in (case get_custom_state name k e of
               None \<Rightarrow> Inl (Errorf (''can't find state for '' @ k)) | Some v \<Rightarrow> Inr v, e))
      else if method = ''set_state'' then
        (Inr rpc_ok, set_custom_state marshal name (str_member (params ''key''))
           (case params ''value'' of None \<Rightarrow> GNull | Some v \<Rightarrow> v) e)
      else (Inl (Errorf (''unknown method: '' @ method)), e))"

text \<open>\<open>SendRPCResponse\<close>: the data of the message.\<close>

definition rpc_response :: "string \<Rightarrow> gval result \<Rightarrow> (string \<times> gval) list" where
  "rpc_response rid r =
     (case r of
        Inl err \<Rightarrow> [(''error'', GObj [(''code'', GInt 2000), (''message'', GStr (error_text err))]),
                    (''request_id'', GStr rid)]
      | Inr v \<Rightarrow> [(''request_id'', GStr rid), (''result'', v)])"

definition handle_rpc_request ::
  "(go_float \<Rightarrow> int) \<Rightarrow> (gval \<Rightarrow> string result) \<Rightarrow> string \<Rightarrow> row \<Rightarrow> engine_view \<Rightarrow>
   (string \<times> gval) list \<times> engine_view" where
  "handle_rpc_request impl marshal name msg e =
     (case rpc_call impl marshal name (str_member (msg ''method'')) (obj_row (msg ''params'')) e of
        (r, e') \<Rightarrow> (rpc_response (str_member (msg ''request_id'')) r, e'))"

subsection \<open>Two encoders of one view\<close>

lemma atoi_show_int: "- (2 ^ 63) \<le> i \<Longrightarrow> i < 2 ^ 63 \<Longrightarrow> atoi_or (show_int i) = i"
  by (simp add: atoi_or_def parse_int_def read_int_show_int)



subsection \<open>Requests are answered and isolated\<close>

lemma set_custom_state_effect:
  "ev_states (set_custom_state marshal name k v e) = (ev_states e)(name := (ev_states e name)(k \<mapsto> v))"
  "ev_markets (set_custom_state marshal name k v e) = ev_markets e"
  "ev_intervals (set_custom_state marshal name k v e) = ev_intervals e"
  "ev_store (set_custom_state marshal name k v e) = ev_store e"
  by (auto simp: set_custom_state_def Let_def split: sum.split)

lemma rpc_call_effect:
  "snd (rpc_call impl marshal name method params e) = e \<or>
   method = ''set_state'' \<and> (\<exists>k v. snd (rpc_call impl marshal name method params e) = set_custom_state marshal name k v e)"
  by (auto simp: rpc_call_def Let_def)

text \<open>C35. Every request a strategy sends is answered once, under the request's own id, with a result
  or with an error and never both; only \<open>set_state\<close> changes anything, and only the state of the
  strategy that sent it; the value it stores is what the next \<open>get_state\<close> of that strategy and key
  answers, whether or not it could be saved.\<close>

theorem rpc_request_answered:
  assumes "handle_rpc_request impl marshal name msg e = (resp, e')"
  shows "map_of resp ''request_id'' = Some (GStr (str_member (msg ''request_id''))) \<and>
    (map_of resp ''result'' = None) = (map_of resp ''error'' \<noteq> None) \<and>
    (str_member (msg ''method'') \<noteq> ''set_state'' \<longrightarrow> e' = e) \<and>
    ev_markets e' = ev_markets e \<and> (\<forall>other. other \<noteq> name \<longrightarrow> ev_states e' other = ev_states e other) \<and>
    (str_member (msg ''method'') = ''set_state'' \<and> obj_row (msg ''params'') ''value'' = Some v \<longrightarrow>
       fst (rpc_call impl marshal name ''get_state''
         [''key'' \<mapsto> GStr (str_member (obj_row (msg ''params'') ''key''))] e') = Inr v)"
proof -
  let ?m = "str_member (msg ''method'')" and ?p = "obj_row (msg ''params'')"
  obtain r where r: "rpc_call impl marshal name ?m ?p e = (r, e')"
    and resp: "resp = rpc_response (str_member (msg ''request_id'')) r"
    using assms by (auto simp: handle_rpc_request_def split: prod.splits)
  have ans: "map_of resp ''request_id'' = Some (GStr (str_member (msg ''request_id''))) \<and>
      (map_of resp ''result'' = None) = (map_of resp ''error'' \<noteq> None)"
    unfolding resp by (cases r) (simp_all add: rpc_response_def)
  have eff: "e' = e \<or> ?m = ''set_state'' \<and> (\<exists>k w. e' = set_custom_state marshal name k w e)"
    using rpc_call_effect [of impl marshal name ?m ?p e] by (simp add: r)
  have got: "fst (rpc_call impl marshal name ''get_state'' [''key'' \<mapsto> GStr (str_member (?p ''key''))] e') = Inr v"
    if "?m = ''set_state''" "?p ''value'' = Some v"
  proof -
    have "e' = set_custom_state marshal name (str_member (?p ''key'')) v e"
      using r that by (simp add: rpc_call_def)
    then show ?thesis
      by (simp add: rpc_call_def get_custom_state_def set_custom_state_effect)
  qed
  show ?thesis using ans eff got by (auto simp: set_custom_state_effect)
qed

definition no_engine :: engine_view where
  "no_engine = \<lparr>ev_markets = Map.empty, ev_projection = None, ev_intervals = Map.empty,
     ev_states = (\<lambda>_. Map.empty), ev_store = False, ev_saves = []\<rparr>"

theorem rpc_request_answered_witness:
  "fst (rpc_call (\<lambda>_. 0) (\<lambda>_. Inr []) ''s'' ''get_state'' [''key'' \<mapsto> GStr ''k'']
     (snd (handle_rpc_request (\<lambda>_. 0) (\<lambda>_. Inr []) ''s''
       [''request_id'' \<mapsto> GStr ''1'', ''method'' \<mapsto> GStr ''set_state'',
        ''params'' \<mapsto> GObj [(''key'', GStr ''k''), (''value'', GBool True)]] no_engine))) = Inr (GBool True)"
proof -
  let ?msg = "[''request_id'' \<mapsto> GStr ''1'', ''method'' \<mapsto> GStr ''set_state'',
    ''params'' \<mapsto> GObj [(''key'', GStr ''k''), (''value'', GBool True)]]"
  obtain resp e' where h: "handle_rpc_request (\<lambda>_. 0) (\<lambda>_. Inr []) ''s'' ?msg no_engine = (resp, e')"
    by (metis surj_pair)
  show ?thesis
    using rpc_request_answered [OF h, of "GBool True"] by (simp add: h obj_row_def)
qed

end
