(* ===== verification/GoClock.thy ===== *)
theory GoClock
  imports GoNum "HOL-Library.List_Lexorder" "HOL-Library.Char_ord"
begin

text \<open>
  The calendar and the layout \<open>time.RFC3339Nano\<close> in UTC, for the years 0 to 9999: what the store
  writes for an instant, what it reads back, and how the texts compare. The layout drops the
  trailing zeros of the fraction, and the fraction itself when it is zero.
\<close>

subsection \<open>Calendar\<close>

text \<open>Days are counted from 1 January of the year 0.\<close>

definition year_start :: "int \<Rightarrow> int" where
  "year_start y = 365 * y + (y + 3) div 4 - (y + 99) div 100 + (y + 399) div 400"

definition leap :: "int \<Rightarrow> bool" where
  "leap y \<longleftrightarrow> y mod 4 = 0 \<and> (y mod 100 \<noteq> 0 \<or> y mod 400 = 0)"

definition year_of :: "int \<Rightarrow> int" where
  "year_of d =
     (let y = 400 * d div 146097
      in if d < year_start y then y - 1 else if year_start (y + 1) \<le> d then y + 1 else y)"

text \<open>The day of the year on which a month starts, the month being counted from 1.\<close>

definition month_start :: "int \<Rightarrow> int \<Rightarrow> int" where
  "month_start y m =
     [0, 31, 59, 90, 120, 151, 181, 212, 243, 273, 304, 334, 365] ! nat (m - 1)
       + (if leap y \<and> 2 < m then 1 else 0)"

definition month_of :: "int \<Rightarrow> int \<Rightarrow> int" where
  "month_of y d = (if d < month_start y 2 then 1 else if d < month_start y 3 then 2
     else if d < month_start y 4 then 3 else if d < month_start y 5 then 4
     else if d < month_start y 6 then 5 else if d < month_start y 7 then 6
     else if d < month_start y 8 then 7 else if d < month_start y 9 then 8
     else if d < month_start y 10 then 9 else if d < month_start y 11 then 10
     else if d < month_start y 12 then 11 else 12)"

lemma div_next: "0 < n \<Longrightarrow> (z + 1) div n = z div n + (if n dvd z + 1 then 1 else 0)" for z n :: int
proof -
  assume n: "0 < n"
  define q r where "q = z div n" and "r = z mod n"
  have z: "z = n * q + r" "0 \<le> r" "r < n" using n by (simp_all add: q_def r_def)
  show ?thesis
  proof (cases "r + 1 = n")
    case True
    then have "z + 1 = n * (q + 1)" using z by (simp add: algebra_simps)
    then show ?thesis using n by (simp add: q_def [symmetric])
  next
    case False
    then have "(z + 1) div n = q" using z n by (intro int_div_pos_eq [where r = "r + 1"]) auto
    moreover have "(z + 1) mod n = r + 1" using z False n by (intro int_mod_pos_eq [where q = q]) auto
    ultimately show ?thesis using z by (simp add: q_def [symmetric] dvd_eq_mod_eq_0)
  qed
qed

lemma year_start_step: "year_start (y + 1) = year_start y + (if leap y then 366 else 365)"
proof -
  have q: "(y + 3 + 1) div 4 = (y + 3) div 4 + (if 4 dvd y then 1 else 0)"
    using div_next [of 4 "y + 3"] dvd_add_left_iff [of 4 4 y] by simp
  have c: "(y + 99 + 1) div 100 = (y + 99) div 100 + (if 100 dvd y then 1 else 0)"
    using div_next [of 100 "y + 99"] dvd_add_left_iff [of 100 100 y] by simp
  have k: "(y + 399 + 1) div 400 = (y + 399) div 400 + (if 400 dvd y then 1 else 0)"
    using div_next [of 400 "y + 399"] dvd_add_left_iff [of 400 400 y] by simp
  have i: "400 dvd y \<Longrightarrow> 100 dvd y" "100 dvd y \<Longrightarrow> 4 dvd y"
    using dvd_trans [of 100 400 y] dvd_trans [of 4 100 y] by simp_all
  have e: "year_start (y + 1) = 365 * y + 365 + (y + 3 + 1) div 4 - (y + 99 + 1) div 100 + (y + 399 + 1) div 400"
    by (simp add: year_start_def add.commute)
  have l: "leap y \<longleftrightarrow> 4 dvd y \<and> (\<not> 100 dvd y \<or> 400 dvd y)"
    by (simp add: leap_def dvd_eq_mod_eq_0)
  show ?thesis unfolding e q c k l using i by (auto simp: year_start_def)
qed

lemma year_start_mono: "a \<le> b \<Longrightarrow> year_start a \<le> year_start b"
proof (induction b rule: int_ge_induct)
  case (step i)
  then show ?case using year_start_step [of i] by (auto split: if_splits)
qed simp

lemma div_bounds: "0 < n \<Longrightarrow> n * (z div n) \<le> z \<and> z < n * (z div n) + n" for z n :: int
  using pos_mod_bound [of n z] pos_mod_sign [of n z] mult_div_mod_eq [of n z] by linarith

lemma year_start_bounds:
  "146097 * z - 396 \<le> 400 * year_start z" "400 * year_start z \<le> 146097 * z + 699"
  using div_bounds [of 4 "z + 3"] div_bounds [of 100 "z + 99"] div_bounds [of 400 "z + 399"]
  unfolding year_start_def by simp_all

lemma year_of_bounds: "year_start (year_of d) \<le> d \<and> d < year_start (year_of d + 1)"
proof -
  define y where "y = 400 * d div 146097"
  have y: "146097 * y \<le> 400 * d" "400 * d < 146097 * y + 146097"
    using div_bounds [of 146097 "400 * d"] by (simp_all add: y_def)
  have "400 * year_start (y - 1) \<le> 146097 * y - 145398"
    using year_start_bounds(2) [of "y - 1"] by (simp add: right_diff_distrib)
  then have "year_start (y - 1) \<le> d" using y(1) by linarith
  moreover have "146097 * y + 291798 \<le> 400 * year_start (y + 2)"
    using year_start_bounds(1) [of "y + 2"] by (simp add: distrib_left)
  then have "d < year_start (y + 2)" using y(2) by linarith
  ultimately show ?thesis unfolding year_of_def y_def [symmetric] by (simp add: Let_def add.commute)
qed

lemma year_of_unique: "year_start y \<le> d \<Longrightarrow> d < year_start (y + 1) \<Longrightarrow> year_of d = y"
  using year_of_bounds [of d] year_start_mono [of "y + 1" "year_of d"] year_start_mono [of "year_of d + 1" y]
  by linarith

lemma year_of_mono: "a \<le> b \<Longrightarrow> year_of a \<le> year_of b"
  using year_of_bounds [of a] year_of_bounds [of b] year_start_mono [of "year_of b + 1" "year_of a"]
  by linarith

lemma month_of_range: "1 \<le> month_of y d" "month_of y d \<le> 12"
  by (auto simp: month_of_def)

lemma month_of_mono: "a \<le> b \<Longrightarrow> month_of y a \<le> month_of y b"
  by (simp add: month_of_def)

lemma month_starts:
  "month_start y 1 = 0" "month_start y 2 = 31" "month_start y 3 = (if leap y then 60 else 59)"
  "month_start y 4 = (if leap y then 91 else 90)" "month_start y 5 = (if leap y then 121 else 120)"
  "month_start y 6 = (if leap y then 152 else 151)" "month_start y 7 = (if leap y then 182 else 181)"
  "month_start y 8 = (if leap y then 213 else 212)" "month_start y 9 = (if leap y then 244 else 243)"
  "month_start y 10 = (if leap y then 274 else 273)" "month_start y 11 = (if leap y then 305 else 304)"
  "month_start y 12 = (if leap y then 335 else 334)"
  by (simp_all add: month_start_def)

lemma month_of_bounds:
  assumes "0 \<le> d" "d < (if leap y then 366 else 365)"
  shows "month_start y (month_of y d) \<le> d \<and> d < month_start y (month_of y d) + 31"
proof (cases "leap y")
  case True
  then show ?thesis using assms by (simp add: month_of_def month_starts)
next
  case False
  then show ?thesis using assms by (simp add: month_of_def month_starts)
qed

definition year_len :: "int \<Rightarrow> int" where
  "year_len y = (if leap y then 366 else 365)"

definition day_of_year :: "int \<Rightarrow> int" where
  "day_of_year d = d - year_start (year_of d)"

lemma day_of_year_range: "0 \<le> day_of_year d" "day_of_year d < year_len (year_of d)"
  using year_of_bounds [of d] year_start_step [of "year_of d"] by (simp_all add: day_of_year_def year_len_def)

definition month_of_day :: "int \<Rightarrow> int" where
  "month_of_day d = month_of (year_of d) (day_of_year d)"

definition day_of_month :: "int \<Rightarrow> int" where
  "day_of_month d = day_of_year d - month_start (year_of d) (month_of_day d) + 1"

lemma day_of_month_range: "1 \<le> day_of_month d" "day_of_month d \<le> 31"
  using month_of_bounds [of "day_of_year d" "year_of d"] day_of_year_range [of d]
  by (simp_all add: day_of_month_def month_of_day_def year_len_def)

definition days_of_date :: "int \<Rightarrow> int \<Rightarrow> int \<Rightarrow> int" where
  "days_of_date y m d = year_start y + month_start y m + d - 1"

lemma days_of_date_of_day: "days_of_date (year_of d) (month_of_day d) (day_of_month d) = d"
  by (simp add: days_of_date_def day_of_month_def day_of_year_def)

lemma date_order:
  assumes "a < b"
  shows "year_of a < year_of b \<or>
    year_of a = year_of b \<and> (month_of_day a < month_of_day b \<or>
      month_of_day a = month_of_day b \<and> day_of_month a < day_of_month b)"
proof -
  have "year_of a \<le> year_of b" using assms by (intro year_of_mono) simp
  moreover have "month_of_day a \<le> month_of_day b" if "year_of a = year_of b"
  proof -
    have "day_of_year a \<le> day_of_year b" using assms that by (simp add: day_of_year_def)
    then show ?thesis using month_of_mono that by (simp add: month_of_day_def)
  qed
  moreover have "day_of_month a < day_of_month b"
    if "year_of a = year_of b" "month_of_day a = month_of_day b"
    using assms that by (simp add: day_of_month_def day_of_year_def)
  ultimately show ?thesis by linarith
qed

subsection \<open>Fixed-width numbers\<close>

primrec pad :: "nat \<Rightarrow> nat \<Rightarrow> string" where
  "pad 0 n = []"
| "pad (Suc w) n = digit (n div 10 ^ w mod 10) # pad w n"

lemma length_pad [simp]: "length (pad w n) = w"
  by (induction w) simp_all

lemma pad_digits: "c \<in> set (pad w n) \<Longrightarrow> is_digit c"
  by (induction w) auto

lemma digit_less: "a < 10 \<Longrightarrow> b < 10 \<Longrightarrow> digit a < digit b \<longleftrightarrow> a < b"
  by (simp add: less_char_def digit_def)

lemma append_less_left: "length xs = length ys \<Longrightarrow> xs < ys \<Longrightarrow> xs @ us < ys @ (vs :: string)"
  by (induction xs ys rule: list_induct2) auto

lemma append_less_right: "us < vs \<Longrightarrow> xs @ us < xs @ (vs :: string)"
  by (induction xs) auto

lemma pad_less: "n mod 10 ^ w < m mod 10 ^ w \<Longrightarrow> pad w n < pad w m"
proof (induction w)
  case (Suc w)
  have split: "k mod 10 ^ Suc w = 10 ^ w * (k div 10 ^ w mod 10) + k mod 10 ^ w" for k :: nat
    using mod_mult2_eq [of k "10 ^ w" 10] by (simp add: mult.commute)
  let ?a = "n div 10 ^ w mod 10" and ?b = "m div 10 ^ w mod 10"
  have "?a < ?b \<or> ?a = ?b \<and> n mod 10 ^ w < m mod 10 ^ w"
  proof (rule ccontr)
    assume "\<not> ?thesis"
    then have "?b < ?a \<or> ?a = ?b \<and> m mod 10 ^ w \<le> n mod 10 ^ w" by linarith
    moreover have "10 ^ w * ?b + m mod 10 ^ w < 10 ^ w * ?a" if "?b < ?a"
    proof -
      have "10 ^ w * ?b + 10 ^ w \<le> 10 ^ w * ?a"
        using mult_le_mono2 [of "Suc ?b" ?a "10 ^ w"] that by simp
      moreover have "m mod 10 ^ w < 10 ^ w" by simp
      ultimately show ?thesis by linarith
    qed
    ultimately show False using Suc.prems unfolding split by fastforce
  qed
  then show ?case using Suc.IH by (auto simp: digit_less)
qed simp

lemma foldl_digits:
  "foldl (\<lambda>a c. 10 * a + digit_val c) k t = k * 10 ^ length t + nat_of_digits t"
proof (induction t arbitrary: k)
  case (Cons c t)
  have "foldl (\<lambda>a c. 10 * a + digit_val c) k (c # t) = (10 * k + digit_val c) * 10 ^ length t + nat_of_digits t"
    using Cons [of "10 * k + digit_val c"] by (simp only: foldl_Cons)
  moreover have "nat_of_digits (c # t) = digit_val c * 10 ^ length t + nat_of_digits t"
    using Cons [of "digit_val c"] unfolding nat_of_digits_def by (simp only: foldl_Cons mult_0_right add_0)
  ultimately show ?case by (simp only: distrib_right length_Cons power_Suc mult.assoc mult.left_commute add.assoc)
qed (simp add: nat_of_digits_def)

lemma nat_of_digits_append:
  "nat_of_digits (s @ t) = nat_of_digits s * 10 ^ length t + nat_of_digits t"
  using foldl_digits [of "nat_of_digits s" t] by (simp add: nat_of_digits_def)

lemma nat_of_digits_pad_mod: "nat_of_digits (pad w n) = n mod 10 ^ w"
proof (induction w)
  case (Suc w)
  have "pad (Suc w) n = [digit (n div 10 ^ w mod 10)] @ pad w n" by simp
  then have "nat_of_digits (pad (Suc w) n) = (n div 10 ^ w mod 10) * 10 ^ w + n mod 10 ^ w"
    unfolding \<open>pad (Suc w) n = _\<close> nat_of_digits_append Suc.IH by (simp add: nat_of_digits_def)
  also have "\<dots> = n mod 10 ^ Suc w"
    using mod_mult2_eq [of n "10 ^ w" 10] by (simp add: mult.commute)
  finally show ?case .
qed (simp add: nat_of_digits_def)

subsection \<open>RFC3339Nano\<close>

definition date_text :: "int \<Rightarrow> string" where
  "date_text d = pad 4 (nat (year_of d)) @ ''-'' @ pad 2 (nat (month_of_day d)) @ ''-'' @ pad 2 (nat (day_of_month d))"

definition clock_text :: "int \<Rightarrow> string" where
  "clock_text s = pad 2 (nat (s div 3600)) @ '':'' @ pad 2 (nat (s div 60 mod 60)) @ '':'' @ pad 2 (nat (s mod 60))"

definition fraction_text :: "int \<Rightarrow> string" where
  "fraction_text ns = (if ns = 0 then [] else ''.'' @ trim_right (CHR ''0'') (pad 9 (nat ns)))"

text \<open>The second of the epoch, as days since the year 0 and seconds of the day.\<close>

definition epoch_day :: int where
  "epoch_day = 719528"

definition sec_text :: "int \<Rightarrow> string" where
  "sec_text s = date_text (s div 86400 + epoch_day) @ ''T'' @ clock_text (s mod 86400)"

definition format_time_utc :: "go_time \<Rightarrow> string" where
  "format_time_utc t = sec_text (t div second) @ fraction_text (t mod second) @ ''Z''"

text \<open>The instants of the years 0 to 9999.\<close>

definition time_in_range :: "go_time \<Rightarrow> bool" where
  "time_in_range t \<longleftrightarrow> (let y = year_of (t div second div 86400 + epoch_day) in 0 \<le> y \<and> y \<le> 9999)"

lemma length_date_text [simp]: "length (date_text d) = 10"
  by (simp add: date_text_def)

lemma length_clock_text [simp]: "length (clock_text s) = 8"
  by (simp add: clock_text_def)

lemma length_sec_text [simp]: "length (sec_text s) = 19"
  by (simp add: sec_text_def)

lemma pad_less_int: "0 \<le> a \<Longrightarrow> a < b \<Longrightarrow> b < 10 ^ w \<Longrightarrow> pad w (nat a) < pad w (nat b)"
proof -
  assume a: "0 \<le> a" "a < b" "b < 10 ^ w"
  then have "nat b < 10 ^ w" by (simp add: nat_less_iff)
  moreover have "nat a < nat b" using a by simp
  ultimately show ?thesis by (intro pad_less) simp
qed

lemma date_text_less:
  assumes "a < b" "0 \<le> year_of a" "year_of b \<le> 9999"
  shows "date_text a < date_text b"
proof -
  note r = month_of_range [of "year_of b" "day_of_year b", folded month_of_day_def]
    month_of_range [of "year_of a" "day_of_year a", folded month_of_day_def]
    day_of_month_range [of a] day_of_month_range [of b]
  consider "year_of a < year_of b" | "year_of a = year_of b" "month_of_day a < month_of_day b"
    | "year_of a = year_of b" "month_of_day a = month_of_day b" "day_of_month a < day_of_month b"
    using date_order [OF assms(1)] by blast
  then show ?thesis
  proof cases
    case 1
    then show ?thesis
      using assms unfolding date_text_def by (intro append_less_left pad_less_int) simp_all
  next
    case 2
    then show ?thesis
      using r unfolding date_text_def by (simp only:) (intro append_less_right append_less_left pad_less_int, simp_all)
  next
    case 3
    then show ?thesis
      using r unfolding date_text_def by (simp only:) (intro append_less_right pad_less_int, simp_all)
  qed
qed

lemma clock_text_less:
  assumes "0 \<le> a" "a < b" "b < 86400"
  shows "clock_text a < clock_text b"
proof -
  have h: "a div 3600 = a div 60 div 60" "b div 3600 = b div 60 div 60"
    by (simp_all add: zdiv_zmult2_eq [symmetric])
  have le: "a div 60 \<le> b div 60" "a div 3600 \<le> b div 3600"
    using assms(2) by (simp_all add: zdiv_mono1)
  have sec: "a mod 60 < b mod 60" if "a div 60 = b div 60"
    using that assms(2) mult_div_mod_eq [of 60 a] mult_div_mod_eq [of 60 b] by linarith
  have mins: "a div 60 mod 60 < b div 60 mod 60" if "a div 60 < b div 60" "a div 3600 = b div 3600"
    using that mult_div_mod_eq [of 60 "a div 60"] mult_div_mod_eq [of 60 "b div 60"] unfolding h by linarith
  consider "a div 3600 < b div 3600" | "a div 3600 = b div 3600" "a div 60 mod 60 < b div 60 mod 60"
    | "a div 3600 = b div 3600" "a div 60 mod 60 = b div 60 mod 60" "a mod 60 < b mod 60"
    using le sec mins by (cases "a div 60 = b div 60"; cases "a div 3600 = b div 3600") auto
  moreover have "b div 3600 < 24" "0 \<le> a div 3600" using assms by (simp_all add: div_less_iff_less_mult)
  moreover have "x mod 60 < 100" "0 \<le> x mod 60" for x :: int
    using pos_mod_bound [of 60 x] by simp_all
  ultimately show ?thesis
  proof cases
    case 1
    then show ?thesis
      using \<open>b div 3600 < 24\<close> \<open>0 \<le> a div 3600\<close> unfolding clock_text_def
      by (intro append_less_left pad_less_int) simp_all
  next
    case 2
    then show ?thesis
      using \<open>\<And>x. x mod 60 < 100\<close> unfolding clock_text_def
      by (simp only:) (intro append_less_right append_less_left pad_less_int, simp_all)
  next
    case 3
    then show ?thesis
      using \<open>\<And>x. x mod 60 < 100\<close> unfolding clock_text_def
      by (simp only:) (intro append_less_right pad_less_int, simp_all)
  qed
qed

lemma sec_text_less:
  assumes "a < b" "0 \<le> year_of (a div 86400 + epoch_day)" "year_of (b div 86400 + epoch_day) \<le> 9999"
  shows "sec_text a < sec_text b"
proof (cases "a div 86400 = b div 86400")
  case True
  then have "a mod 86400 < b mod 86400"
    using assms(1) mult_div_mod_eq [of 86400 a] mult_div_mod_eq [of 86400 b] by linarith
  then have "clock_text (a mod 86400) < clock_text (b mod 86400)" by (intro clock_text_less) simp_all
  then show ?thesis using True unfolding sec_text_def by (simp only: append_less_right)
next
  case False
  then have "a div 86400 + epoch_day < b div 86400 + epoch_day"
    using zdiv_mono1 [of a b 86400] assms(1) by simp
  then have "date_text (a div 86400 + epoch_day) < date_text (b div 86400 + epoch_day)"
    using assms(2,3) by (intro date_text_less)
  then show ?thesis unfolding sec_text_def by (intro append_less_left) simp_all
qed

text \<open>Texts of instants in different seconds compare like the instants.\<close>

lemma format_time_less:
  assumes "a div second < b div second" "time_in_range a" "time_in_range b"
  shows "format_time_utc a < format_time_utc b"
  unfolding format_time_utc_def using assms
  by (intro append_less_left sec_text_less) (simp_all add: time_in_range_def Let_def)

text \<open>Within a second they need not: the text of a shorter fraction ends earlier, and its \<open>Z\<close> is
  greater than any digit or the point.\<close>

lemma digit_chars:
  "digit 0 = CHR ''0''" "digit 1 = CHR ''1''" "digit 2 = CHR ''2''" "digit 3 = CHR ''3''"
  "digit 4 = CHR ''4''" "digit 5 = CHR ''5''" "digit 6 = CHR ''6''" "digit 7 = CHR ''7''"
  "digit 8 = CHR ''8''" "digit 9 = CHR ''9''" "digit (Suc 0) = CHR ''1''"
  by code_simp+

lemma pad_numeral:
  "pad (numeral k) n = digit (n div 10 ^ pred_numeral k mod 10) # pad (pred_numeral k) n"
  using pad.simps(2) [of "pred_numeral k" n] unfolding numeral_eq_Suc [of k, symmetric] .

lemma epoch_date: "date_text epoch_day = ''1970-01-01''"
proof -
  have y: "year_of epoch_day = 1970"
    by (rule year_of_unique) (simp_all add: year_start_def epoch_day_def)
  have d: "day_of_year epoch_day = 0"
    unfolding day_of_year_def y by (simp add: year_start_def epoch_day_def)
  have m: "month_of_day epoch_day = 1" unfolding month_of_day_def d by (simp add: month_of_def month_starts)
  have "day_of_month epoch_day = 1" unfolding day_of_month_def d m by (simp add: month_starts)
  then show ?thesis unfolding date_text_def y m by (simp add: pad_numeral digit_chars)
qed

lemma format_time_within_second:
  "format_time_utc 0 = ''1970-01-01T00:00:00Z''"
  "format_time_utc 500000000 = ''1970-01-01T00:00:00.5Z''"
proof -
  have c: "clock_text 0 = ''00:00:00''" by (simp add: clock_text_def pad_numeral digit_chars)
  have f: "fraction_text 0 = []" "fraction_text 500000000 = ''.5''"
    by (simp_all add: fraction_text_def pad_numeral digit_chars trim_right_def)
  show "format_time_utc 0 = ''1970-01-01T00:00:00Z''" "format_time_utc 500000000 = ''1970-01-01T00:00:00.5Z''"
    by (simp_all add: format_time_utc_def sec_text_def epoch_date c f second_def)
qed

lemma within_second_wrong: "format_time_utc 500000000 < format_time_utc 0"
  unfolding format_time_within_second by code_simp

subsection \<open>Reading\<close>

text \<open>The texts in UTC only, the ones the store writes. A month, a day or a time out of range is an
  error, as in \<open>time.Parse\<close>.\<close>

definition month_len :: "int \<Rightarrow> int \<Rightarrow> int" where
  "month_len y m = (if m = 12 then 31 else month_start y (m + 1) - month_start y m)"

definition fraction_value :: "string \<Rightarrow> int option" where
  "fraction_value s =
     (if s = [] then Some 0
      else if hd s = CHR ''.'' \<and> digits_only (tl s) \<and> length (tl s) \<le> 9
      then Some (int (nat_of_digits (tl s)) * 10 ^ (9 - length (tl s)))
      else None)"

definition field :: "nat \<Rightarrow> nat \<Rightarrow> string \<Rightarrow> string" where
  "field i n s = take n (drop i s)"

definition parse_time_utc :: "string \<Rightarrow> go_time option" where
  "parse_time_utc s =
     (let y = int (nat_of_digits (field 0 4 s)); m = int (nat_of_digits (field 5 2 s));
          d = int (nat_of_digits (field 8 2 s)); hh = int (nat_of_digits (field 11 2 s));
          mi = int (nat_of_digits (field 14 2 s)); ss = int (nat_of_digits (field 17 2 s));
          rest = drop 19 s
      in if length s < 20 \<or> last s \<noteq> CHR ''Z'' \<or>
            \<not> list_all digits_only [field 0 4 s, field 5 2 s, field 8 2 s, field 11 2 s, field 14 2 s, field 17 2 s] \<or>
            [s ! 4, s ! 7, s ! 10, s ! 13, s ! 16] \<noteq> ''--T::''
         then None
         else if m < 1 \<or> 12 < m \<or> d < 1 \<or> month_len y m < d \<or> 23 < hh \<or> 59 < mi \<or> 59 < ss then None
         else case fraction_value (butlast rest) of
           None \<Rightarrow> None
         | Some ns \<Rightarrow> Some (((days_of_date y m d - epoch_day) * 86400 + hh * 3600 + mi * 60 + ss) * second + ns))"

lemma fraction_roundtrip:
  assumes "0 \<le> ns" "ns < 10 ^ 9"
  shows "fraction_value (fraction_text ns) = Some ns"
proof (cases "ns = 0")
  case False
  let ?p = "pad 9 (nat ns)" and ?f = "trim_right (CHR ''0'') (pad 9 (nat ns))"
  obtain z where z: "?p = ?f @ replicate z (CHR ''0'')" using trim_right_split by blast
  have n: "nat ns < 10 ^ 9" using assms by (simp add: nat_less_iff)
  have v: "nat_of_digits ?p = nat ns" using n nat_of_digits_pad_mod [of 9 "nat ns"] by simp
  have zeros: "nat_of_digits (replicate k (CHR ''0'')) = 0" for k
    using nat_of_digits_pad [of k "[]"] unfolding digit_chars by (simp add: nat_of_digits_def)
  have "length ?p = length ?f + z" by (subst z) simp
  then have len: "9 = length ?f + z" by simp
  have "nat_of_digits ?p = nat_of_digits ?f * 10 ^ z"
    by (subst z) (simp add: nat_of_digits_append zeros)
  moreover have "9 - length ?f = z" using len by linarith
  ultimately have val: "nat_of_digits ?f * 10 ^ (9 - length ?f) = nat ns" using v by metis
  have "?f \<noteq> []"
  proof
    assume "?f = []"
    then have "nat_of_digits ?p = 0" using z zeros by (metis append_Nil)
    then show False using v False assms by simp
  qed
  moreover have "set ?f \<subseteq> set ?p" by (subst z) simp
  then have "list_all is_digit ?f" using pad_digits by (auto simp: list_all_iff)
  ultimately have "digits_only ?f" by (simp add: digits_only_def)
  moreover have "int (nat_of_digits ?f) * 10 ^ (9 - length ?f) = ns"
    using arg_cong [OF val, of int] assms(1) by simp
  ultimately show ?thesis using False len by (simp add: fraction_value_def fraction_text_def)
qed (simp add: fraction_value_def fraction_text_def)

lemma day_in_month:
  "day_of_month d \<le> month_len (year_of d) (month_of_day d)"
proof -
  have b: "0 \<le> day_of_year d" "day_of_year d < (if leap (year_of d) then 366 else 365)"
    using day_of_year_range [of d] by (simp_all add: year_len_def)
  have "x < month_start y (month_of y x + 1)" if "month_of y x \<noteq> 12" for y x
    using that by (simp add: month_of_def split: if_splits)
  then show ?thesis
    using month_of_bounds [OF b] unfolding day_of_month_def month_len_def month_of_day_def by fastforce
qed

lemma pad_value: "0 \<le> a \<Longrightarrow> a < 10 ^ w \<Longrightarrow> int (nat_of_digits (pad w (nat a))) = a"
  by (simp add: nat_of_digits_pad_mod nat_less_iff)

lemma pad_value2: "0 \<le> a \<Longrightarrow> a \<le> 99 \<Longrightarrow> int (nat_of_digits (pad 2 (nat a))) = a"
  and pad_value4: "0 \<le> a \<Longrightarrow> a \<le> 9999 \<Longrightarrow> int (nat_of_digits (pad 4 (nat a))) = a"
  by (rule pad_value; simp)+

lemma digits_only_pad: "0 < w \<Longrightarrow> digits_only (pad w n)"
  by (auto simp: digits_only_def list_all_iff pad_digits) (cases w, auto)

text \<open>The fields of a written text, and what a value read back is.\<close>

lemma field_drop: "length p = i \<Longrightarrow> length q = n \<Longrightarrow> field i n (p @ q @ r) = q"
  by (simp add: field_def)

lemma text_fields:
  assumes "s = pad 4 y @ ''-'' @ pad 2 m @ ''-'' @ pad 2 d @ ''T'' @ pad 2 hh @ '':'' @ pad 2 mi @ '':'' @ pad 2 ss @ rest"
  shows "field 0 4 s = pad 4 y" "field 5 2 s = pad 2 m" "field 8 2 s = pad 2 d"
    "field 11 2 s = pad 2 hh" "field 14 2 s = pad 2 mi" "field 17 2 s = pad 2 ss" "drop 19 s = rest"
    "[s ! 4, s ! 7, s ! 10, s ! 13, s ! 16] = ''--T::''"
  unfolding assms by (simp_all add: field_def nth_append)

lemma parse_format_time:
  assumes "time_in_range t"
  shows "parse_time_utc (format_time_utc t) = Some t"
proof -
  define sec ns where "sec = t div second" and "ns = t mod second"
  define day sod where "day = sec div 86400 + epoch_day" and "sod = sec mod 86400"
  let ?s = "format_time_utc t"
  let ?y = "year_of day" and ?m = "month_of_day day" and ?d = "day_of_month day"
  let ?hh = "sod div 3600" and ?mi = "sod div 60 mod 60" and ?ss = "sod mod 60"
  have form: "?s = pad 4 (nat ?y) @ ''-'' @ pad 2 (nat ?m) @ ''-'' @ pad 2 (nat ?d) @ ''T'' @
      pad 2 (nat ?hh) @ '':'' @ pad 2 (nat ?mi) @ '':'' @ pad 2 (nat ?ss) @ (fraction_text ns @ ''Z'')"
    by (simp add: format_time_utc_def sec_text_def date_text_def clock_text_def day_def sod_def sec_def ns_def)
  note fields = text_fields [OF form]
  have y: "0 \<le> ?y" "?y \<le> 9999"
    using assms by (simp_all add: time_in_range_def Let_def day_def sec_def)
  note m = month_of_range [of ?y "day_of_year day", folded month_of_day_def] and d = day_of_month_range [of day]
  have sod: "0 \<le> sod" "sod < 86400" by (simp_all add: sod_def)
  have hh: "0 \<le> ?hh" "?hh \<le> 23" 
    using sod div_bounds [of 3600 sod] by (simp_all add: pos_imp_zdiv_nonneg_iff)
  have mi: "0 \<le> ?mi" "?mi \<le> 59" and ss: "0 \<le> ?ss" "?ss \<le> 59"
    using pos_mod_bound [of 60 "sod div 60"] pos_mod_bound [of 60 sod] by simp_all
  have vals: "int (nat_of_digits (pad 4 (nat ?y))) = ?y" "int (nat_of_digits (pad 2 (nat ?m))) = ?m"
    "int (nat_of_digits (pad 2 (nat ?d))) = ?d" "int (nat_of_digits (pad 2 (nat ?hh))) = ?hh"
    "int (nat_of_digits (pad 2 (nat ?mi))) = ?mi" "int (nat_of_digits (pad 2 (nat ?ss))) = ?ss"
    by (rule pad_value4 pad_value2; use y m d hh mi ss in linarith)+
  have n: "fraction_value (fraction_text ns) = Some ns"
    by (rule fraction_roundtrip) (simp_all add: ns_def second_def)
  have ok: "?m \<le> 12" "1 \<le> ?m" "1 \<le> ?d" "?d \<le> month_len ?y ?m" using m d day_in_month by simp_all
  have shape: "\<not> length ?s < 20" "last ?s = CHR ''Z''" unfolding form by simp_all
  have total: "((days_of_date ?y ?m ?d - epoch_day) * 86400 + ?hh * 3600 + ?mi * 60 + ?ss) * second + ns = t"
  proof -
    have "?hh = sod div 60 div 60" by (simp add: zdiv_zmult2_eq [symmetric])
    then have "?hh * 3600 + ?mi * 60 + ?ss = sod"
      using mult_div_mod_eq [of 60 sod] mult_div_mod_eq [of 60 "sod div 60"] by linarith
    moreover have "(day - epoch_day) * 86400 + sod = sec"
      using mult_div_mod_eq [of 86400 sec] by (simp add: day_def sod_def)
    moreover have "sec * second + ns = t" using mult_div_mod_eq [of second t] by (simp add: sec_def ns_def mult.commute)
    ultimately show ?thesis unfolding days_of_date_of_day by (metis add.assoc)
  qed
  show ?thesis
    unfolding parse_time_utc_def Let_def fields vals butlast_snoc n
    using shape ok hh mi ss total by (simp add: digits_only_pad del: length_append)
qed

lemma format_time_inj: "time_in_range a \<Longrightarrow> time_in_range b \<Longrightarrow> format_time_utc a = format_time_utc b \<Longrightarrow> a = b"
  by (metis option.inject parse_format_time)

end
