(* ===== verification/SqlStore.thy ===== *)
theory SqlStore
  imports GoClock EngineIPC GoStd "HOL-Library.Product_Lexorder"
begin

text \<open>
  The SQLite store, \<open>internal/adapters/store/sqlite\<close>: the schema and its migrations, the two
  upserts, the inserts with their generated ids, the purges and the queries. A table is the list of
  its rows in the order of their row ids; a statement does to it what its SQL says, texts compare as
  byte strings (the collation \<open>BINARY\<close>). Times are the texts \<open>format_time_utc\<close>. Failures of the
  database itself, which every operation returns as they are, are left out.
\<close>

subsection \<open>Schema\<close>

record order_row =
  or_id :: string
  or_strategy :: string
  or_symbol :: string
  or_side :: string
  or_type :: string
  or_size :: string
  or_filled :: string
  or_status :: string
  or_price :: "string option"
  or_stop_price :: "string option"
  or_exchange_id :: "string option"
  or_created :: string
  or_updated :: string

record state_row =
  sw_strategy :: string
  sw_key :: string
  sw_value :: string
  sw_updated :: string

record snap_row =
  sp_id :: int
  sp_at :: string
  sp_revision :: "64 word"
  sp_currency :: string
  sp_equity :: string
  sp_balance :: string
  sp_positions :: string

record log_row =
  lg_id :: int
  lg_strategy :: string
  lg_level :: string
  lg_message :: string
  lg_created :: string

text \<open>The sequences are those of \<open>AUTOINCREMENT\<close>: an id is never used twice.\<close>

record db =
  db_version :: int
  db_tables :: "string set"
  db_orders :: "order_row list"
  db_states :: "state_row list"
  db_snaps :: "snap_row list"
  db_logs :: "log_row list"
  db_snap_seq :: int
  db_log_seq :: int

definition empty_db :: db where
  "empty_db = \<lparr>db_version = 0, db_tables = {}, db_orders = [], db_states = [], db_snaps = [], db_logs = [],
     db_snap_seq = 0, db_log_seq = 0\<rparr>"

definition migrate_v1 :: "db \<Rightarrow> db" where
  "migrate_v1 d = d\<lparr>db_tables := db_tables d \<union> {''orders'', ''strategy_state''}, db_version := 1\<rparr>"

definition migrate_v2 :: "db \<Rightarrow> db" where
  "migrate_v2 d = d\<lparr>db_tables := db_tables d \<union> {''account_snapshots'', ''strategy_logs''}, db_version := 2\<rparr>"

definition init_schema :: "db \<Rightarrow> db" where
  "init_schema d =
     (let (v, d1) = (if db_version d < 1 then (1, migrate_v1 d) else (db_version d, d))
      in if v < 2 then migrate_v2 d1 else d1)"

definition store_path :: "string result \<Rightarrow> string \<Rightarrow> string result" where
  "store_path home p0 =
     (let p = trim_space p0
      in if p = [] then Inl (Errorf ''empty database path'')
         else if has_prefix p ''~/''
         then (case home of Inl e \<Rightarrow> Inl e | Inr h \<Rightarrow> Inr (clean_path (join_path h (drop 2 p))))
         else Inr (clean_path p))"

text \<open>\<open>Open\<close>: the limit on connections the pool gets, and the database with its schema;
  \<open>contents p\<close> is what the file holds.\<close>

definition open_store :: "string result \<Rightarrow> (string \<Rightarrow> db) \<Rightarrow> string \<Rightarrow> int \<Rightarrow> (int \<times> db) result" where
  "open_store home contents path conns =
     (case store_path home path of
        Inl e \<Rightarrow> Inl e
      | Inr p \<Rightarrow> Inr (if conns \<le> 0 then 1 else conns, init_schema (contents p)))"

subsection \<open>Orders\<close>

fun side_str :: "order_side \<Rightarrow> string" where
  "side_str Buy = ''Buy''" | "side_str Sell = ''Sell''" | "side_str (OtherSide s) = s"

fun type_str :: "order_type \<Rightarrow> string" where
  "type_str MarketOrder = ''Market''" | "type_str LimitOrder = ''Limit''" | "type_str (OtherType s) = s"

definition side_of_str :: "string \<Rightarrow> order_side" where
  "side_of_str s = (if s = ''Buy'' then Buy else if s = ''Sell'' then Sell else OtherSide s)"

definition type_of_str :: "string \<Rightarrow> order_type" where
  "type_of_str s = (if s = ''Market'' then MarketOrder else if s = ''Limit'' then LimitOrder else OtherType s)"

definition status_of_str :: "string \<Rightarrow> order_status" where
  "status_of_str s =
     (if s = ''Pending'' then Pending else if s = ''Submitted'' then Submitted
      else if s = ''PartialFilled'' then PartialFilled else if s = ''Filled'' then Filled
      else if s = ''Cancelled'' then Cancelled else if s = ''Rejected'' then Rejected else OtherStatus s)"

definition row_of_order :: "order \<Rightarrow> order_row" where
  "row_of_order ob =
     \<lparr>or_id = ord_id ob, or_strategy = ord_strategy ob, or_symbol = ord_symbol ob, or_side = side_str (ord_side ob),
      or_type = type_str (ord_type ob), or_size = ord_size ob, or_filled = ord_filled ob,
      or_status = status_str (ord_status ob), or_price = ord_price ob, or_stop_price = ord_stop_price ob,
      or_exchange_id = (if ord_exchange_id ob \<noteq> [] then Some (ord_exchange_id ob) else None),
      or_created = format_time_utc (ord_created ob), or_updated = format_time_utc (ord_updated ob)\<rparr>"

text \<open>An upsert on a primary key: the row keeps its place.\<close>

definition upsert :: "('r \<Rightarrow> 'k) \<Rightarrow> 'r \<Rightarrow> 'r list \<Rightarrow> 'r list" where
  "upsert key r rs =
     (if key r \<in> set (map key rs) then map (\<lambda>x. if key x = key r then r else x) rs else rs @ [r])"

definition save_order :: "order option \<Rightarrow> db \<Rightarrow> go_error option \<times> db" where
  "save_order oo d =
     (case oo of None \<Rightarrow> (Some (Errorf ''nil order''), d)
      | Some ob \<Rightarrow> (None, d\<lparr>db_orders := upsert or_id (row_of_order ob) (db_orders d)\<rparr>))"

text \<open>A time that does not parse is the zero time; the market, which has no column, is empty.\<close>

definition scan_order :: "order_row \<Rightarrow> order" where
  "scan_order r =
     \<lparr>ord_id = or_id r, ord_exchange_id = (case or_exchange_id r of None \<Rightarrow> [] | Some x \<Rightarrow> x),
      ord_market = OtherMarket [], ord_symbol = or_symbol r, ord_side = side_of_str (or_side r),
      ord_type = type_of_str (or_type r), ord_price = or_price r, ord_size = or_size r,
      ord_filled = or_filled r, ord_status = status_of_str (or_status r),
      ord_created = (case parse_time_utc (or_created r) of None \<Rightarrow> zero_time | Some t \<Rightarrow> t),
      ord_updated = (case parse_time_utc (or_updated r) of None \<Rightarrow> zero_time | Some t \<Rightarrow> t),
      ord_stop_price = or_stop_price r, ord_strategy = or_strategy r\<rparr>"

definition list_non_terminal_orders :: "db \<Rightarrow> order list" where
  "list_non_terminal_orders d =
     map scan_order (sort_key or_created
       (filter (\<lambda>r. or_status r \<in> {''Pending'', ''Submitted'', ''PartialFilled''}) (db_orders d)))"

subsection \<open>Strategy states\<close>

definition save_strategy_state :: "string \<Rightarrow> string \<Rightarrow> string \<Rightarrow> go_time \<Rightarrow> db \<Rightarrow> db" where
  "save_strategy_state name k raw now d =
     d\<lparr>db_states := upsert (\<lambda>r. (sw_strategy r, sw_key r))
         \<lparr>sw_strategy = name, sw_key = k, sw_value = raw, sw_updated = format_time_utc now\<rparr> (db_states d)\<rparr>"

definition load_all_strategy_states :: "db \<Rightarrow> string \<Rightarrow> string \<rightharpoonup> string" where
  "load_all_strategy_states d =
     fold (\<lambda>r m. m(sw_strategy r := (m (sw_strategy r))(sw_key r \<mapsto> sw_value r))) (db_states d) (\<lambda>_. Map.empty)"

subsection \<open>Snapshots and logs\<close>

definition save_account_snapshot :: "snapshot_row option \<Rightarrow> db \<Rightarrow> go_error option \<times> db" where
  "save_account_snapshot ro d =
     (case ro of None \<Rightarrow> (Some (Errorf ''nil account snapshot row''), d)
      | Some r \<Rightarrow> (None, d\<lparr>db_snap_seq := db_snap_seq d + 1, db_snaps := db_snaps d @
          [\<lparr>sp_id = db_snap_seq d + 1, sp_at = format_time_utc (sr_at r), sp_revision = sr_revision r,
            sp_currency = sr_currency r, sp_equity = sr_equity r, sp_balance = sr_balance r,
            sp_positions = sr_positions r\<rparr>]\<rparr>))"

record strategy_log =
  sl_id :: int
  sl_strategy :: string
  sl_level :: string
  sl_message :: string
  sl_created :: go_time

text \<open>The row gets its id back.\<close>

definition save_strategy_log :: "strategy_log \<Rightarrow> db \<Rightarrow> strategy_log result \<times> db" where
  "save_strategy_log row d =
     (if trim_space (sl_strategy row) = [] then (Inl (Errorf ''empty strategy_name''), d)
      else if trim_space (sl_message row) = [] then (Inl (Errorf ''empty message''), d)
      else let lv = to_lower (trim_space (sl_level row)); i = db_log_seq d + 1
           in (Inr (row\<lparr>sl_id := i\<rparr>),
               d\<lparr>db_log_seq := i, db_logs := db_logs d @
                 [\<lparr>lg_id = i, lg_strategy = sl_strategy row, lg_level = (if lv = [] then ''info'' else lv),
                   lg_message = sl_message row, lg_created = format_time_utc (sl_created row)\<rparr>]\<rparr>))"

definition purge_snapshots_before :: "go_time \<Rightarrow> db \<Rightarrow> int \<times> db" where
  "purge_snapshots_before t d =
     (int (length (filter (\<lambda>r. sp_at r < format_time_utc t) (db_snaps d))),
      d\<lparr>db_snaps := filter (\<lambda>r. \<not> sp_at r < format_time_utc t) (db_snaps d)\<rparr>)"

definition purge_logs_before :: "go_time \<Rightarrow> db \<Rightarrow> int \<times> db" where
  "purge_logs_before t d =
     (int (length (filter (\<lambda>r. lg_created r < format_time_utc t) (db_logs d))),
      d\<lparr>db_logs := filter (\<lambda>r. \<not> lg_created r < format_time_utc t) (db_logs d)\<rparr>)"

subsection \<open>Queries\<close>

definition scan_log :: "log_row \<Rightarrow> strategy_log result" where
  "scan_log r =
     (case parse_time_utc (lg_created r) of
        None \<Rightarrow> Inl (Wrapf ''parse created_at: '' (Errorf ''parsing time''))
      | Some t \<Rightarrow> Inr \<lparr>sl_id = lg_id r, sl_strategy = lg_strategy r, sl_level = lg_level r,
                      sl_message = lg_message r, sl_created = t\<rparr>)"

record saved_snapshot = snapshot_row +
  ss_id :: int

definition scan_snapshot :: "snap_row \<Rightarrow> saved_snapshot result" where
  "scan_snapshot r =
     (case parse_time_utc (sp_at r) of
        None \<Rightarrow> Inl (Wrapf ''parse snapshot_at: '' (Errorf ''parsing time''))
      | Some t \<Rightarrow> Inr \<lparr>sr_at = t, sr_revision = sp_revision r, sr_currency = sp_currency r,
                      sr_equity = sp_equity r, sr_balance = sp_balance r, sr_positions = sp_positions r,
                      ss_id = sp_id r\<rparr>)"

text \<open>The loop over the rows: the first one that does not scan is the answer.\<close>

fun scan_all :: "('r \<Rightarrow> 'a result) \<Rightarrow> 'r list \<Rightarrow> 'a list result" where
  "scan_all f [] = Inr []"
| "scan_all f (r # rs) =
     (case f r of Inl e \<Rightarrow> Inl e
      | Inr x \<Rightarrow> (case scan_all f rs of Inl e \<Rightarrow> Inl e | Inr xs \<Rightarrow> Inr (x # xs)))"

definition in_window :: "go_time option \<Rightarrow> go_time option \<Rightarrow> string \<Rightarrow> bool" where
  "in_window start stop s \<longleftrightarrow>
     (case start of None \<Rightarrow> True | Some t \<Rightarrow> format_time_utc t \<le> s) \<and>
     (case stop of None \<Rightarrow> True | Some t \<Rightarrow> s \<le> format_time_utc t)"

definition limited :: "int \<Rightarrow> 'a list \<Rightarrow> 'a list" where
  "limited n xs = (if 0 < n then take (nat n) xs else xs)"

definition list_strategy_logs ::
  "string \<Rightarrow> go_time option \<Rightarrow> go_time option \<Rightarrow> int \<Rightarrow> db \<Rightarrow> strategy_log list result" where
  "list_strategy_logs name start stop n d =
     scan_all scan_log (limited n (sort_key (\<lambda>r. (lg_created r, lg_id r))
       (filter (\<lambda>r. (trim_space name = [] \<or> lg_strategy r = trim_space name) \<and> in_window start stop (lg_created r))
          (db_logs d))))"

definition list_recent_strategy_logs :: "string \<Rightarrow> int \<Rightarrow> db \<Rightarrow> strategy_log list result" where
  "list_recent_strategy_logs name n d =
     scan_all scan_log (take (nat (if n \<le> 0 then 50 else n)) (rev (sort_key (\<lambda>r. (lg_created r, lg_id r))
       (filter (\<lambda>r. trim_space name = [] \<or> lg_strategy r = trim_space name) (db_logs d)))))"

definition list_account_snapshots :: "go_time option \<Rightarrow> go_time option \<Rightarrow> int \<Rightarrow> db \<Rightarrow> saved_snapshot list result" where
  "list_account_snapshots start stop n d =
     scan_all scan_snapshot (limited n (sort_key (\<lambda>r. (sp_at r, sp_id r))
       (filter (\<lambda>r. in_window start stop (sp_at r)) (db_snaps d))))"

definition latest_account_snapshot :: "db \<Rightarrow> saved_snapshot option result" where
  "latest_account_snapshot d =
     (case rev (sort_key (\<lambda>r. (sp_at r, sp_id r)) (db_snaps d)) of
        [] \<Rightarrow> Inr None
      | r # _ \<Rightarrow> (case scan_snapshot r of Inl e \<Rightarrow> Inl e | Inr x \<Rightarrow> Inr (Some x)))"

subsection \<open>Upserts\<close>

definition by_key :: "('r \<Rightarrow> 'k) \<Rightarrow> 'r list \<Rightarrow> 'k \<rightharpoonup> 'r" where
  "by_key key rs = map_of (map (\<lambda>r. (key r, r)) rs)"

lemma by_key_simps [simp]:
  "by_key key [] = Map.empty" "by_key key (r # rs) = (by_key key rs)(key r \<mapsto> r)"
  by (simp_all add: by_key_def)

lemma by_key_iff: "distinct (map key rs) \<Longrightarrow> by_key key rs k = Some r \<longleftrightarrow> r \<in> set rs \<and> key r = k"
  by (auto simp: by_key_def map_of_eq_Some_iff comp_def)

lemma upsert_keys: "distinct (map key rs) \<Longrightarrow> distinct (map key (upsert key r rs))"
proof -
  have "map key (map (\<lambda>x. if key x = key r then r else x) rs) = map key rs" by auto
  then show "distinct (map key rs) \<Longrightarrow> ?thesis" by (simp add: upsert_def del: map_map)
qed

lemma by_key_append: "key r \<notin> set (map key rs) \<Longrightarrow> by_key key (rs @ [r]) = (by_key key rs)(key r \<mapsto> r)"
  by (induction rs) auto

lemma by_key_replace:
  "by_key key (map (\<lambda>x. if key x = key r then r else x) rs) =
     (if key r \<in> set (map key rs) then (by_key key rs)(key r \<mapsto> r) else by_key key rs)"
  by (induction rs) auto

lemma by_key_upsert: "by_key key (upsert key r rs) = (by_key key rs)(key r \<mapsto> r)"
  by (simp add: upsert_def by_key_append by_key_replace)

subsection \<open>The orders read back\<close>

lemma status_roundtrip: "(\<forall>s. st = OtherStatus s \<longrightarrow> s \<notin> status_str ` {Pending, Submitted, PartialFilled, Filled, Cancelled, Rejected})
    \<Longrightarrow> status_of_str (status_str st) = st"
  by (cases st) (auto simp: status_of_str_def)

lemma open_status_str:
  "(\<forall>s. st \<noteq> OtherStatus s) \<Longrightarrow> status_str st \<in> {''Pending'', ''Submitted'', ''PartialFilled''} \<longleftrightarrow> is_open st"
  by (cases st) (auto simp: is_open_def)

text \<open>The orders the program makes: their side, type and status are the named ones, their times in
  range.\<close>

definition storable :: "order \<Rightarrow> bool" where
  "storable ob \<longleftrightarrow> (\<forall>s. ord_side ob \<noteq> OtherSide s) \<and> (\<forall>s. ord_type ob \<noteq> OtherType s) \<and>
     (\<forall>s. ord_status ob \<noteq> OtherStatus s) \<and> time_in_range (ord_created ob) \<and> time_in_range (ord_updated ob)"

lemma scan_row_of_order:
  assumes "storable ob"
  shows "scan_order (row_of_order ob) = ob\<lparr>ord_market := OtherMarket []\<rparr>"
proof -
  have "side_of_str (side_str (ord_side ob)) = ord_side ob"
    using assms by (cases "ord_side ob") (auto simp: storable_def side_of_str_def)
  moreover have "type_of_str (type_str (ord_type ob)) = ord_type ob"
    using assms by (cases "ord_type ob") (auto simp: storable_def type_of_str_def)
  moreover have "status_of_str (status_str (ord_status ob)) = ord_status ob"
    using assms by (intro status_roundtrip) (auto simp: storable_def)
  ultimately show ?thesis
    using assms by (simp add: scan_order_def row_of_order_def storable_def parse_format_time)
qed

definition save_orders :: "order list \<Rightarrow> db \<Rightarrow> db" where
  "save_orders obs d = fold (\<lambda>ob d. snd (save_order (Some ob) d)) obs d"

text \<open>The table after a series of saves: one row for each id, that of the last saved copy.\<close>

lemma save_orders_rows:
  "distinct (map or_id (db_orders d)) \<Longrightarrow>
   distinct (map or_id (db_orders (save_orders obs d))) \<and>
   by_key or_id (db_orders (save_orders obs d)) =
     (\<lambda>k. case fold (\<lambda>ob m. m(ord_id ob \<mapsto> ob)) obs Map.empty k of
        None \<Rightarrow> by_key or_id (db_orders d) k | Some ob \<Rightarrow> Some (row_of_order ob))"
proof (induction obs rule: rev_induct)
  case (snoc ob obs)
  then show ?case
    by (auto simp: save_orders_def save_order_def by_key_upsert upsert_keys row_of_order_def fun_eq_iff)
qed (simp add: save_orders_def)

lemma list_non_terminal_mem:
  "ob \<in> set (list_non_terminal_orders d) \<longleftrightarrow>
     (\<exists>r \<in> set (db_orders d). or_status r \<in> {''Pending'', ''Submitted'', ''PartialFilled''} \<and> ob = scan_order r)"
  by (auto simp: list_non_terminal_orders_def)

lemma list_non_terminal_distinct:
  assumes "distinct (map or_id (db_orders d))"
  shows "distinct (map ord_id (list_non_terminal_orders d))"
proof -
  let ?f = "filter (\<lambda>r. or_status r \<in> {''Pending'', ''Submitted'', ''PartialFilled''}) (db_orders d)"
  have "distinct (map or_id ?f)" using assms by (rule distinct_map_filter)
  then have "distinct (map or_id (sort_key or_created ?f))"
    by (simp add: distinct_map)
  moreover have "map ord_id (list_non_terminal_orders d) = map or_id (sort_key or_created ?f)"
    by (simp add: list_non_terminal_orders_def scan_order_def)
  ultimately show ?thesis by simp
qed

lemma last_saved_mem: "fold (\<lambda>ob m. m(ord_id ob \<mapsto> ob)) obs m0 k = Some ob \<Longrightarrow> m0 k = Some ob \<or> ob \<in> set obs \<and> ord_id ob = k"
  by (induction obs rule: rev_induct) (auto split: if_splits)

lemma saved_rows:
  assumes "db_orders d = []"
  shows "r \<in> set (db_orders (save_orders obs d)) \<longleftrightarrow>
    (\<exists>k saved. fold (\<lambda>ob m. m(ord_id ob \<mapsto> ob)) obs Map.empty k = Some saved \<and> r = row_of_order saved)"
proof -
  let ?last = "fold (\<lambda>ob m. m(ord_id ob \<mapsto> ob)) obs Map.empty"
  have d: "distinct (map or_id (db_orders (save_orders obs d)))"
    and b: "by_key or_id (db_orders (save_orders obs d)) = (\<lambda>k. map_option row_of_order (?last k))"
    using save_orders_rows [of d obs] by (auto simp: assms fun_eq_iff split: option.splits)
  have "r \<in> set (db_orders (save_orders obs d)) \<longleftrightarrow> (\<exists>k. by_key or_id (db_orders (save_orders obs d)) k = Some r)"
    by (simp add: by_key_iff [OF d])
  then show ?thesis unfolding b by auto
qed

lemma stored_orders:
  assumes "db_orders d = []" and "\<forall>ob \<in> set obs. storable ob"
  shows "distinct (map ord_id (list_non_terminal_orders (save_orders obs d)))"
    and "ob \<in> set (list_non_terminal_orders (save_orders obs d)) \<longleftrightarrow>
       (\<exists>k saved. fold (\<lambda>ob m. m(ord_id ob \<mapsto> ob)) obs Map.empty k = Some saved \<and> is_open (ord_status saved) \<and>
          ob = saved\<lparr>ord_market := OtherMarket []\<rparr>)"
proof -
  show "distinct (map ord_id (list_non_terminal_orders (save_orders obs d)))"
    using save_orders_rows [of d obs] assms(1) by (intro list_non_terminal_distinct) simp
  have st: "storable saved"
    if "fold (\<lambda>ob m. m(ord_id ob \<mapsto> ob)) obs Map.empty k = Some saved" for k saved
    using last_saved_mem [OF that] assms(2) by auto
  have "or_status (row_of_order saved) \<in> {''Pending'', ''Submitted'', ''PartialFilled''} \<longleftrightarrow> is_open (ord_status saved)"
    if "storable saved" for saved
    using that open_status_str [of "ord_status saved"] by (simp add: row_of_order_def storable_def)
  then show "ob \<in> set (list_non_terminal_orders (save_orders obs d)) \<longleftrightarrow>
       (\<exists>k saved. fold (\<lambda>ob m. m(ord_id ob \<mapsto> ob)) obs Map.empty k = Some saved \<and> is_open (ord_status saved) \<and>
          ob = saved\<lparr>ord_market := OtherMarket []\<rparr>)"
    unfolding list_non_terminal_mem Bex_def saved_rows [OF assms(1)]
    using st scan_row_of_order by (metis (no_types, lifting))
qed

text \<open>C34. The table of orders is a map from order ids to the copies saved last: whatever sequence of
  saves is made into an empty table, the query for unfinished orders answers exactly the orders
  whose last saved copy is open, each once, in every field as it was saved except the market, for
  which the table has no column.\<close>

theorem stored_orders_refine:
  assumes "db_orders d = []" and "\<forall>ob \<in> set obs. storable ob"
  shows "distinct (map ord_id (list_non_terminal_orders (save_orders obs d))) \<and>
    (ob \<in> set (list_non_terminal_orders (save_orders obs d)) \<longleftrightarrow>
       (\<exists>k saved. fold (\<lambda>ob m. m(ord_id ob \<mapsto> ob)) obs Map.empty k = Some saved \<and> is_open (ord_status saved) \<and>
          ob = saved\<lparr>ord_market := OtherMarket []\<rparr>))"
  using stored_orders [OF assms] by blast

definition stored_ex :: "order_status \<Rightarrow> order" where
  "stored_ex st =
     \<lparr>ord_id = ''a'', ord_exchange_id = ''7'', ord_market = Perp, ord_symbol = ''BTC/USDT'', ord_side = Buy,
      ord_type = MarketOrder, ord_price = None, ord_size = ''5'', ord_filled = ''0'', ord_status = st,
      ord_created = 0, ord_updated = 500000000, ord_stop_price = None, ord_strategy = ''s''\<rparr>"

lemma epoch_in_range: "0 \<le> t \<Longrightarrow> t < 86400 * second \<Longrightarrow> time_in_range t"
proof -
  assume t: "0 \<le> t" "t < 86400 * second"
  have "t div second div 86400 = 0"
    using t by (simp add: zdiv_zmult2_eq [symmetric] second_def)
  moreover have "year_of epoch_day = 1970"
    by (rule year_of_unique) (simp_all add: year_start_def epoch_day_def)
  ultimately show ?thesis by (simp add: time_in_range_def)
qed

lemma storable_ex: "(\<forall>s. st \<noteq> OtherStatus s) \<Longrightarrow> storable (stored_ex st)"
  using epoch_in_range [of 0] epoch_in_range [of 500000000]
  by (auto simp: storable_def stored_ex_def second_def)

theorem stored_orders_refine_witness:
  "(stored_ex Submitted)\<lparr>ord_market := OtherMarket []\<rparr> \<in>
     set (list_non_terminal_orders (save_orders [stored_ex Pending, stored_ex Submitted] empty_db)) \<and>
   (stored_ex Submitted)\<lparr>ord_market := OtherMarket []\<rparr> \<notin>
     set (list_non_terminal_orders (save_orders [stored_ex Submitted, stored_ex Filled] empty_db))"
proof -
  have s: "\<forall>ob \<in> set [stored_ex Pending, stored_ex Submitted]. storable ob"
    "\<forall>ob \<in> set [stored_ex Submitted, stored_ex Filled]. storable ob"
    using storable_ex by simp_all
  show ?thesis
    using stored_orders_refine [OF _ s(1), of empty_db "(stored_ex Submitted)\<lparr>ord_market := OtherMarket []\<rparr>"]
      stored_orders_refine [OF _ s(2), of empty_db "(stored_ex Submitted)\<lparr>ord_market := OtherMarket []\<rparr>"]
    by (auto simp: empty_db_def stored_ex_def)
qed

end
