(* ===== verification/SqlRecovery.thy ===== *)
theory SqlRecovery
  imports SqlStore
begin

text \<open>
  The order management, the store and the recovery put together: what is in memory when the process
  dies is what a restart finds, and what a strategy stored in its custom state is what it reads
  after a restart.
\<close>

subsection \<open>Orders across a restart\<close>

definition restart_store :: "oms \<Rightarrow> db \<Rightarrow> (string \<times> string \<times> string) list \<Rightarrow> snapshot_store" where
  "restart_store s d rows =
     \<lparr>ss_states = Inr rows, ss_orders = Inr (map Some (list_non_terminal_orders (save_orders (oms_saves s) d)))\<rparr>"

lemma persisted_lookup: "write_through s \<Longrightarrow> fold (\<lambda>ob m. m(ord_id ob \<mapsto> ob)) (oms_saves s) Map.empty k = oms_orders s k"
  by (simp add: write_through_def persisted_def [symmetric])

lemma hydrate_reconciled_other:
  assumes "k \<notin> ord_id ` set obs"
    and "load_snapshot_and_reconcile (Some store) decode (Some execs) sync now r = (e, r')"
    and "ss_states store = Inr rows" "ss_orders store = Inr (map Some obs)"
  shows "oms_orders (rec_oms r') k = oms_orders (rec_oms r) k"
proof -
  let ?obs = "map (\<lambda>ob. Some (fst (reconcile_one execs sync now ob))) obs"
  have "rec_oms r' = hydrate_from_snapshot ?obs (rec_oms r)"
    using assms(2) by (auto simp: load_snapshot_and_reconcile_def reconcile_with_executors_def assms(3,4)
        Let_def comp_def)
  moreover have "\<forall>ob. Some ob \<in> set ?obs \<longrightarrow> ord_id ob \<noteq> k"
    using assms(1) by (auto simp: reconcile_one_id)
  ultimately show ?thesis using hydrate_other [of ?obs k "rec_oms r"] by simp
qed

text \<open>What the recovery makes of an open perpetual order, given the answer of the exchange.\<close>

definition recovered_as :: "(market \<Rightarrow> bool) \<Rightarrow> (order \<Rightarrow> order_event option result) \<Rightarrow> go_time \<Rightarrow> order \<Rightarrow> order" where
  "recovered_as execs sync now ob =
     (if ord_exchange_id ob = [] \<or> \<not> execs Perp then ob
      else case sync ob of
        Inr (Some ev) \<Rightarrow> ob\<lparr>ord_status := oe_status ev, ord_filled := oe_filled ev, ord_updated := oe_updated ev\<rparr>
      | Inr None \<Rightarrow> ob
      | Inl err \<Rightarrow> if is_order_not_found err then ob\<lparr>ord_status := Cancelled, ord_updated := now\<rparr> else ob)"

lemma reconcile_stored:
  assumes "is_open (ord_status ob)" "ord_market ob = Perp"
  shows "with_default_market (fst (reconcile_one execs sync now (ob\<lparr>ord_market := OtherMarket []\<rparr>))) =
    recovered_as execs sync now ob"
proof -
  have t: "\<not> is_terminal (ord_status ob)" using assms(1) by (rule open_not_terminal)
  have p: "ob\<lparr>ord_market := Perp\<rparr> = ob" using assms(2) by simp
  have p': "ob\<lparr>ord_market := Perp, ord_status := st, ord_updated := u\<rparr> = ob\<lparr>ord_status := st, ord_updated := u\<rparr>"
    "ob\<lparr>ord_market := Perp, ord_status := st, ord_filled := f, ord_updated := u\<rparr> =
       ob\<lparr>ord_status := st, ord_filled := f, ord_updated := u\<rparr>" for st f u
    using assms(2) by simp_all
  show ?thesis
    using t assms(2) by (auto simp: reconcile_one_def recovered_as_def with_default_market_def market_valid_def
        Let_def p p' split: sum.split option.split)
qed


definition crashed_oms :: oms where
  "crashed_oms = oms_run ref_lib [Submit env_ex scr_ex (Some oms_order_ex)] (new_oms (\<lambda>m. m = Perp) True None 3)"

definition fresh_recovery :: recovery where
  "fresh_recovery = \<lparr>rec_states = (\<lambda>_. Map.empty), rec_oms = new_oms (\<lambda>m. m = Perp) True None 3, rec_saved = []\<rparr>"

definition restart_ex :: "go_error option \<times> recovery" where
  "restart_ex = load_snapshot_and_reconcile (Some (restart_store crashed_oms empty_db [])) (\<lambda>_. None)
     (Some (\<lambda>m. m = Perp)) (\<lambda>_. Inr (Some filled_ex)) 9 fresh_recovery"

lemma crashed_oms_facts:
  "\<forall>ob \<in> set (oms_saves crashed_oms). storable ob"
  "\<exists>ob. oms_orders crashed_oms ''o1'' = Some ob \<and> ord_status ob = Submitted \<and> ord_exchange_id ob = ''x7'' \<and> ord_market ob = Perp"
  using epoch_in_range [of 0] epoch_in_range [of 1] epoch_in_range [of 2] epoch_in_range [of 3]
  by (simp_all add: crashed_oms_def oms_run_def exec_submit_def submit_with_retry_def validate_order_for_place_def
      new_oms_def oms_order_ex_def env_ex_def market_valid_def Let_def has_executor_def attempts_def
      eval_nat_numeral scr_ex_def send_order_update_def put_order_def handle_submit_success_def storable_def second_def)


subsection \<open>Custom state across a restart\<close>

text \<open>The stores an engine with a database has asked for, in order, applied to the database.\<close>

definition save_states :: "go_time \<Rightarrow> (string \<times> string \<times> string) list \<Rightarrow> db \<Rightarrow> db" where
  "save_states now rows d = fold (\<lambda>(n, k, raw). save_strategy_state n k raw now) rows d"

definition set_all ::
  "(gval \<Rightarrow> string result) \<Rightarrow> (string \<times> string \<times> gval) list \<Rightarrow> engine_view \<Rightarrow> engine_view" where
  "set_all marshal sets e = fold (\<lambda>(n, k, v). set_custom_state marshal n k v) sets e"

definition state_key :: "state_row \<Rightarrow> string \<times> string" where
  "state_key r = (sw_strategy r, sw_key r)"

lemma load_all_by_key:
  "distinct (map state_key rs) \<Longrightarrow>
   fold (\<lambda>r m. m(sw_strategy r := (m (sw_strategy r))(sw_key r \<mapsto> sw_value r))) rs (\<lambda>_. Map.empty) n k =
   map_option sw_value (by_key state_key rs (n, k))"
proof (induction rs rule: rev_induct)
  case (snoc r rs)
  then have "state_key r \<notin> set (map state_key rs)" by auto
  then show ?case using snoc by (auto simp: by_key_append state_key_def)
qed simp

lemma save_states_lookup:
  assumes "distinct (map state_key (db_states d))"
  shows "distinct (map state_key (db_states (save_states now rows d))) \<and>
    load_all_strategy_states (save_states now rows d) n k =
      fold (\<lambda>(n, k, raw) m. m((n, k) \<mapsto> raw)) rows (\<lambda>(n, k). load_all_strategy_states d n k) (n, k)"
proof (induction rows arbitrary: n k rule: rev_induct)
  case (snoc row rows)
  obtain n0 k0 raw where row: "row = (n0, k0, raw)" by (cases row)
  let ?d = "save_states now rows d"
  have key: "(\<lambda>r. (sw_strategy r, sw_key r)) = state_key" by (simp add: fun_eq_iff state_key_def)
  have d: "distinct (map state_key (db_states ?d))" using snoc by blast
  have st: "db_states (save_states now (rows @ [row]) d) =
      upsert state_key \<lparr>sw_strategy = n0, sw_key = k0, sw_value = raw, sw_updated = format_time_utc now\<rparr> (db_states ?d)"
    by (simp add: save_states_def row save_strategy_state_def key)
  have d': "distinct (map state_key (db_states (save_states now (rows @ [row]) d)))"
    unfolding st by (rule upsert_keys [OF d])
  have "load_all_strategy_states (save_states now (rows @ [row]) d) n k =
      map_option sw_value (by_key state_key (db_states (save_states now (rows @ [row]) d)) (n, k))"
    by (simp only: load_all_strategy_states_def load_all_by_key [OF d'])
  also have "\<dots> = (if (n, k) = (n0, k0) then Some raw else map_option sw_value (by_key state_key (db_states ?d) (n, k)))"
    unfolding st by (auto simp: by_key_upsert state_key_def)
  also have "map_option sw_value (by_key state_key (db_states ?d) (n, k)) = load_all_strategy_states ?d n k"
    by (simp only: load_all_strategy_states_def load_all_by_key [OF d])
  finally have "load_all_strategy_states (save_states now (rows @ [row]) d) n k =
      (if (n, k) = (n0, k0) then Some raw else load_all_strategy_states ?d n k)" .
  then show ?case using snoc [of n k] d' by (auto simp: row)
qed (use assms in \<open>simp add: save_states_def\<close>)

lemma load_rows:
  assumes "distinct (map (\<lambda>(n, k, raw). (n, k)) rows)"
  shows "fold (load_state decode) rows st n k =
    (case map_of (map (\<lambda>(n, k, raw). ((n, k), raw)) rows) (n, k) of
       None \<Rightarrow> st n k
     | Some raw \<Rightarrow> (case decode raw of None \<Rightarrow> st n k | Some v \<Rightarrow> Some v))"
  using assms
proof (induction rows arbitrary: st)
  case (Cons row rows)
  obtain n0 k0 raw where row: "row = (n0, k0, raw)" by (cases row)
  show ?case
  proof (cases "(n, k) = (n0, k0)")
    case True
    then have "(n, k) \<notin> set (map (\<lambda>(n, k, raw). (n, k)) rows)" using Cons.prems row by simp
    then have "map_of (map (\<lambda>(n, k, raw). ((n, k), raw)) rows) (n, k) = None"
      by (force simp: map_of_eq_None_iff)
    then show ?thesis using Cons True row by (auto simp: load_state_def split: option.split)
  next
    case False
    have "load_state decode row st n k = st n k" using False row
      by (auto simp: load_state_def split: option.split)
    then show ?thesis using Cons False row by (auto split: option.split)
  qed
qed simp

lemma set_all_states:
  assumes "\<forall>(n, k, v) \<in> set sets. \<exists>raw. marshal v = Inr raw \<and> decode raw = Some v"
    and "ev_store e" "ev_states e = (\<lambda>_. Map.empty)" "ev_saves e = []"
  shows "ev_store (set_all marshal sets e) \<and>
    (\<forall>n k. ev_states (set_all marshal sets e) n k =
       Option.bind (fold (\<lambda>(n, k, raw) m. m((n, k) \<mapsto> raw)) (ev_saves (set_all marshal sets e)) Map.empty (n, k)) decode) \<and>
    (\<forall>(n, k, raw) \<in> set (ev_saves (set_all marshal sets e)). decode raw \<noteq> None)"
  using assms(1)
proof (induction sets rule: rev_induct)
  case (snoc x sets)
  obtain n0 k0 v0 where x: "x = (n0, k0, v0)" by (cases x)
  obtain raw where raw: "marshal v0 = Inr raw" "decode raw = Some v0" using snoc.prems x by auto
  have step: "set_all marshal (sets @ [x]) e = set_custom_state marshal n0 k0 v0 (set_all marshal sets e)"
    by (simp add: set_all_def x)
  show ?case using snoc raw unfolding step by (auto simp: set_custom_state_def Let_def)
qed (use assms in \<open>simp add: set_all_def\<close>)

text \<open>C31. Custom state survives a restart. Starting from nothing, the strategies set any series of
  values that the JSON encoder encodes and the decoder gives back; each is saved to the database as it
  is set. A restart that loads the database finds, for every strategy and key, exactly what
  \<open>getCustomState\<close> answered before: the last value set, or nothing. \<open>rows\<close> is the
  loaded map in the order in which Go happens to range over it.\<close>

theorem custom_state_survives_restart:
  assumes "\<forall>(n, k, v) \<in> set sets. \<exists>raw. marshal v = Inr raw \<and> decode raw = Some v"
    and "ev_store e" "ev_states e = (\<lambda>_. Map.empty)" "ev_saves e = []" "db_states d = []"
    and "distinct (map (\<lambda>(n, k, raw). (n, k)) rows)"
    and "\<forall>n k. map_of (map (\<lambda>(n, k, raw). ((n, k), raw)) rows) (n, k) =
      load_all_strategy_states (save_states saved_at (ev_saves (set_all marshal sets e)) d) n k"
    and "load_snapshot_and_reconcile (Some \<lparr>ss_states = Inr rows, ss_orders = Inr obs\<rparr>) decode execs sync now r = (err, r')"
    and "rec_states r = (\<lambda>_. Map.empty)"
  shows "rec_states r' n k = get_custom_state n k (set_all marshal sets e)"
proof -
  let ?saves = "ev_saves (set_all marshal sets e)"
  have "load_all_strategy_states d = (\<lambda>_. Map.empty)" using assms(5) by (simp add: load_all_strategy_states_def)
  then have rows: "map_of (map (\<lambda>(n, k, raw). ((n, k), raw)) rows) (n, k) =
      fold (\<lambda>(n, k, raw) m. m((n, k) \<mapsto> raw)) ?saves Map.empty (n, k)"
    using save_states_lookup [of d saved_at ?saves n k] assms(5,7) by (simp add: case_prod_unfold)
  have "rec_states r' = fold (load_state decode) rows (\<lambda>_. Map.empty)"
    using assms(8,9) by (auto simp: load_snapshot_and_reconcile_def Let_def split: prod.splits)
  then show ?thesis
    using set_all_states [OF assms(1-4)] load_rows [OF assms(6), of decode "\<lambda>_. Map.empty" n k] rows
    by (auto simp: get_custom_state_def split: option.splits)
qed

definition engine_with_store :: engine_view where
  "engine_with_store = \<lparr>ev_markets = Map.empty, ev_projection = None, ev_intervals = Map.empty,
     ev_states = (\<lambda>_. Map.empty), ev_store = True, ev_saves = []\<rparr>"

definition sets_ex :: "(string \<times> string \<times> gval) list" where
  "sets_ex = [(''grid'', ''side'', GStr ''Long''), (''grid'', ''side'', GStr ''Short'')]"

theorem custom_state_survives_restart_witness:
  "rec_states (snd (load_snapshot_and_reconcile (Some \<lparr>ss_states = Inr [(''grid'', ''side'', ''Short'')], ss_orders = Inr []\<rparr>)
      (\<lambda>s. Some (GStr s)) None (\<lambda>_. Inr None) 9 fresh_recovery)) ''grid'' ''side'' = Some (GStr ''Short'')"
proof -
  let ?marshal = "\<lambda>v. case v of GStr s \<Rightarrow> Inr s | _ \<Rightarrow> Inl (Errorf [])"
  let ?l = "load_snapshot_and_reconcile (Some \<lparr>ss_states = Inr [(''grid'', ''side'', ''Short'')], ss_orders = Inr []\<rparr>)
      (\<lambda>s. Some (GStr s)) None (\<lambda>_. Inr None) 9 fresh_recovery"
  have l: "?l = (fst ?l, snd ?l)" by simp
  have "rec_states (snd ?l) ''grid'' ''side'' = get_custom_state ''grid'' ''side'' (set_all ?marshal sets_ex engine_with_store)"
    by (rule custom_state_survives_restart [of sets_ex ?marshal _ engine_with_store empty_db _ 7, OF _ _ _ _ _ _ _ l])
       (auto simp: sets_ex_def engine_with_store_def empty_db_def fresh_recovery_def set_all_def set_custom_state_def
         save_states_def save_strategy_state_def load_all_strategy_states_def upsert_def Let_def)
  then show ?thesis
    by (simp add: sets_ex_def engine_with_store_def set_all_def set_custom_state_def get_custom_state_def Let_def)
qed

end
