(* ===== verification/Channels.thy ===== *)
theory Channels
  imports OMS "HOL-Library.Sublist"
begin

text \<open>
  Buffered channels as the engine uses them for its fan-outs: a send that gives up when the buffer
  is full, a receive, and closing; then the fan-out of order updates of \<open>engine.go\<close>
  (\<open>orderFanoutLoop\<close>, \<open>RegisterOrderSubscriber\<close>). Sends to different channels do not
  touch each other, so the order in which a map of subscribers is ranged over does not matter.
\<close>

record 'a chan =
  ch_cap :: nat
  ch_buf :: "'a list"
  ch_closed :: bool

definition make_chan :: "int \<Rightarrow> 'a chan" where
  "make_chan n = \<lparr>ch_cap = nat n, ch_buf = [], ch_closed = False\<rparr>"

text \<open>A \<open>select\<close> with a send and a default: done, given up, or a panic on a closed channel.\<close>

datatype 'a offered = Sent "'a chan" | Full | SendPanic

definition offer :: "'a \<Rightarrow> 'a chan \<Rightarrow> 'a offered" where
  "offer x c =
     (if ch_closed c then SendPanic
      else if length (ch_buf c) < ch_cap c then Sent (c\<lparr>ch_buf := ch_buf c @ [x]\<rparr>)
      else Full)"

definition offer_drop :: "'a \<Rightarrow> 'a chan \<Rightarrow> 'a chan" where
  "offer_drop x c = (case offer x c of Sent c' \<Rightarrow> c' | _ \<Rightarrow> c)"

definition receive :: "'a chan \<Rightarrow> ('a \<times> 'a chan) option" where
  "receive c = (case ch_buf c of [] \<Rightarrow> None | x # xs \<Rightarrow> Some (x, c\<lparr>ch_buf := xs\<rparr>))"

definition close_chan :: "'a chan \<Rightarrow> 'a chan" where
  "close_chan c = c\<lparr>ch_closed := True\<rparr>"

lemma offer_drop_cases:
  "ch_buf (offer_drop x c) = ch_buf c \<or> ch_buf (offer_drop x c) = ch_buf c @ [x]"
  by (auto simp: offer_drop_def offer_def)

lemma offer_drop_same [simp]:
  "ch_cap (offer_drop x c) = ch_cap c" "ch_closed (offer_drop x c) = ch_closed c"
  by (auto simp: offer_drop_def offer_def)

lemma offer_drop_bound: "length (ch_buf c) \<le> ch_cap c \<Longrightarrow> length (ch_buf (offer_drop x c)) \<le> ch_cap c"
  by (auto simp: offer_drop_def offer_def)

lemma offer_drop_room:
  "\<not> ch_closed c \<Longrightarrow> length (ch_buf c) < ch_cap c \<Longrightarrow> ch_buf (offer_drop x c) = ch_buf c @ [x]"
  by (simp add: offer_drop_def offer_def)

subsection \<open>Fan-out of order updates\<close>

text \<open>A closed subscription is no longer in the map: the same critical section deletes and closes it.\<close>

record order_fanout =
  fo_main :: "order chan"
  fo_subs :: "nat \<rightharpoonup> order chan"
  fo_next :: nat

definition order_fanout_step :: "order option \<Rightarrow> order_fanout \<Rightarrow> order_fanout" where
  "order_fanout_step oo s =
     (case oo of None \<Rightarrow> s
      | Some ob \<Rightarrow> s\<lparr>fo_main := offer_drop ob (fo_main s),
                    fo_subs := (\<lambda>i. map_option (offer_drop ob) (fo_subs s i))\<rparr>)"

definition register_order_sub :: "int \<Rightarrow> order_fanout \<Rightarrow> nat \<times> order_fanout" where
  "register_order_sub buf s =
     (let i = fo_next s + 1
      in (i, s\<lparr>fo_next := i, fo_subs := (fo_subs s)(i \<mapsto> make_chan (if buf < 1 then 16 else buf))\<rparr>))"

definition cancel_order_sub :: "nat \<Rightarrow> order_fanout \<Rightarrow> order_fanout" where
  "cancel_order_sub i s = s\<lparr>fo_subs := (fo_subs s)(i := None)\<rparr>"

text \<open>A subscriber that reads nothing gets the first updates its buffer has room for, whatever the
  other subscribers do.\<close>

lemma offer_all_buf:
  assumes "\<not> ch_closed c" "length (ch_buf c) \<le> ch_cap c"
  shows "ch_buf (fold offer_drop xs c) = take (ch_cap c) (ch_buf c @ xs)"
  using assms
proof (induction xs arbitrary: c)
  case (Cons x xs)
  show ?case
  proof (cases "length (ch_buf c) < ch_cap c")
    case True
    then have b: "ch_buf (offer_drop x c) = ch_buf c @ [x]" using Cons.prems by (simp add: offer_drop_room)
    show ?thesis using Cons.IH [of "offer_drop x c"] Cons.prems True b by simp
  next
    case False
    then have "offer_drop x c = c" using Cons.prems by (simp add: offer_drop_def offer_def)
    then show ?thesis using Cons False by simp
  qed
qed simp

lemma fan_out_runs:
  "fo_subs (fold (\<lambda>ob. order_fanout_step (Some ob)) obs s) i = map_option (fold offer_drop obs) (fo_subs s i)"
  by (induction obs arbitrary: s) (auto simp: order_fanout_step_def option.map_comp comp_def option.map_id)

lemma slow_subscriber:
  assumes "register_order_sub buf s = (i, s')"
  shows "\<exists>c. fo_subs (fold (\<lambda>ob. order_fanout_step (Some ob)) obs s') i = Some c \<and>
    ch_buf c = take (nat (if buf < 1 then 16 else buf)) obs"
  using assms offer_all_buf [of "make_chan (if buf < 1 then 16 else buf)" obs]
  by (auto simp: fan_out_runs register_order_sub_def Let_def make_chan_def)

end
