(* ===== verification/LogStream.thy ===== *)
theory LogStream
  imports Channels SqlStore Config
begin

text \<open>
  The log of the strategies: the queue and its writer (\<open>engine/strategy_log_writer.go\<close>), the live
  subscriptions (\<open>engine/strategy_log_subscriber.go\<close>), the stream the gRPC service makes of the
  stored tail and a subscription (\<open>adapters/grpc/persistence_handlers.go\<close>), and the retention
  (\<open>engine/retention.go\<close>). Goroutines are steps of one state: the writer's loop body, the two parts
  of the handler of a stream, the reception of a row by it.
\<close>

subsection \<open>Queue, writer, subscribers\<close>

record log_sub =
  su_chan :: "strategy_log chan"
  su_name :: string
  su_min :: int

record log_stream =
  lo_store :: bool
  lo_chan :: "strategy_log chan option"
  lo_subs :: "nat \<rightharpoonup> log_sub"
  lo_next :: nat
  lo_db :: db

definition start_log_writer :: "log_stream \<Rightarrow> log_stream" where
  "start_log_writer s =
     (if \<not> lo_store s \<or> lo_chan s \<noteq> None then s else s\<lparr>lo_chan := Some (make_chan 512)\<rparr>)"

definition stop_log_writer :: "log_stream \<Rightarrow> log_stream" where
  "stop_log_writer s = s\<lparr>lo_chan := map_option close_chan (lo_chan s)\<rparr>"

text \<open>\<open>enqueueStrategyLog\<close>; \<open>None\<close> is the panic of a send on the closed channel.\<close>

definition enqueue_log :: "go_time \<Rightarrow> string \<Rightarrow> string \<Rightarrow> string \<Rightarrow> log_stream \<Rightarrow> log_stream option" where
  "enqueue_log now name level msg s =
     (case lo_chan s of None \<Rightarrow> Some s
      | Some c \<Rightarrow>
        if \<not> lo_store s then Some s
        else if trim_space msg = [] then Some s
        else case offer \<lparr>sl_id = 0, sl_strategy = name, sl_level = level, sl_message = msg, sl_created = now\<rparr> c of
               Sent c' \<Rightarrow> Some (s\<lparr>lo_chan := Some c'\<rparr>)
             | Full \<Rightarrow> Some s
             | SendPanic \<Rightarrow> None)"

definition sub_wants :: "log_sub \<Rightarrow> strategy_log \<Rightarrow> bool" where
  "sub_wants u row \<longleftrightarrow> \<not> (su_name u \<noteq> [] \<and> su_name u \<noteq> sl_strategy row) \<and> \<not> sl_id row \<le> su_min u"

definition notify_log_subscribers :: "strategy_log \<Rightarrow> log_stream \<Rightarrow> log_stream" where
  "notify_log_subscribers row s =
     (if sl_id row \<le> 0 then s
      else s\<lparr>lo_subs := (\<lambda>i. map_option
             (\<lambda>u. if sub_wants u row then u\<lparr>su_chan := offer_drop row (su_chan u)\<rparr> else u) (lo_subs s i))\<rparr>)"

text \<open>One round of \<open>strategyLogWriterLoop\<close>: nothing happens while the queue is empty.\<close>

definition log_writer_step :: "log_stream \<Rightarrow> log_stream" where
  "log_writer_step s =
     (case lo_chan s of None \<Rightarrow> s
      | Some c \<Rightarrow> (case receive c of None \<Rightarrow> s
        | Some (row, c') \<Rightarrow>
          let s1 = s\<lparr>lo_chan := Some c'\<rparr>
          in case save_strategy_log row (lo_db s) of
               (Inl e, d) \<Rightarrow> s1
             | (Inr row', d) \<Rightarrow> notify_log_subscribers row' (s1\<lparr>lo_db := d\<rparr>)))"

definition register_log_sub :: "string \<Rightarrow> int \<Rightarrow> int \<Rightarrow> log_stream \<Rightarrow> nat \<times> log_stream" where
  "register_log_sub name min_id buf s =
     (let i = lo_next s + 1
      in (i, s\<lparr>lo_next := i, lo_subs := (lo_subs s)(i \<mapsto>
           \<lparr>su_chan = make_chan (if buf < 1 then 16 else buf), su_name = name, su_min = min_id\<rparr>)\<rparr>))"

definition cancel_log_sub :: "nat \<Rightarrow> log_stream \<Rightarrow> log_stream" where
  "cancel_log_sub i s = s\<lparr>lo_subs := (lo_subs s)(i := None)\<rparr>"

subsection \<open>The stream of a client\<close>

text \<open>A handler of \<open>SubscribeStrategyLogs\<close>: first the tail is read, then the subscription is
  registered with the greatest id of the tail and the tail is sent, oldest first; then each row of the
  subscription is sent. \<open>lc_sent\<close> is what \<open>stream.Send\<close> has been given.\<close>

definition clamp_log_tail :: "int \<Rightarrow> int result" where
  "clamp_log_tail n =
     (if n < 0 then Inl (Errorf ''invalid tail'') else if n = 0 then Inr 50 else if 200 < n then Inr 200 else Inr n)"

datatype log_client =
    Listed string "strategy_log list"
  | Streaming string nat "strategy_log list"

record log_world =
  lw_stream :: log_stream
  lw_clients :: "nat \<rightharpoonup> log_client"

definition max_row_id :: "strategy_log list \<Rightarrow> int" where
  "max_row_id rows = fold (\<lambda>r m. if m < sl_id r then sl_id r else m) rows 0"

definition rows_ascending :: "strategy_log list \<Rightarrow> strategy_log list" where
  "rows_ascending rows = sort_key (\<lambda>r. (sl_created r, sl_id r)) rows"

definition client_list :: "nat \<Rightarrow> string \<Rightarrow> int \<Rightarrow> log_world \<Rightarrow> log_world" where
  "client_list c name n w =
     (case clamp_log_tail n of Inl e \<Rightarrow> w
      | Inr k \<Rightarrow> (case list_recent_strategy_logs name k (lo_db (lw_stream w)) of Inl e \<Rightarrow> w
        | Inr rows \<Rightarrow> w\<lparr>lw_clients := (lw_clients w)(c \<mapsto> Listed name rows)\<rparr>))"

definition client_register :: "nat \<Rightarrow> log_world \<Rightarrow> log_world" where
  "client_register c w =
     (case lw_clients w c of
        Some (Listed name rows) \<Rightarrow>
          (case register_log_sub name (max_row_id rows) 64 (lw_stream w) of (i, s) \<Rightarrow>
             w\<lparr>lw_stream := s, lw_clients := (lw_clients w)(c \<mapsto> Streaming name i (rows_ascending rows))\<rparr>)
      | _ \<Rightarrow> w)"

definition client_receive :: "nat \<Rightarrow> log_world \<Rightarrow> log_world" where
  "client_receive c w =
     (case lw_clients w c of
        Some (Streaming name i sent) \<Rightarrow>
          (case lo_subs (lw_stream w) i of None \<Rightarrow> w
           | Some u \<Rightarrow> (case receive (su_chan u) of None \<Rightarrow> w
             | Some (row, ch) \<Rightarrow>
               w\<lparr>lw_stream := (lw_stream w)\<lparr>lo_subs := (lo_subs (lw_stream w))(i \<mapsto> u\<lparr>su_chan := ch\<rparr>)\<rparr>,
                 lw_clients := (lw_clients w)(c \<mapsto> Streaming name i (sent @ [row]))\<rparr>))
      | _ \<Rightarrow> w)"

definition client_leave :: "nat \<Rightarrow> log_world \<Rightarrow> log_world" where
  "client_leave c w =
     (case lw_clients w c of
        None \<Rightarrow> w
      | Some (Listed name rows) \<Rightarrow> w\<lparr>lw_clients := (lw_clients w)(c := None)\<rparr>
      | Some (Streaming name i sent) \<Rightarrow>
          w\<lparr>lw_stream := cancel_log_sub i (lw_stream w), lw_clients := (lw_clients w)(c := None)\<rparr>)"

text \<open>The interleavings: what strategies log, the writer, the purge of old rows, and the clients.\<close>

inductive log_reach :: "db \<Rightarrow> log_world \<Rightarrow> bool" for d where
  start: "log_reach d \<lparr>lw_stream = start_log_writer
      \<lparr>lo_store = True, lo_chan = None, lo_subs = Map.empty, lo_next = 0, lo_db = d\<rparr>, lw_clients = Map.empty\<rparr>"
| enqueue: "log_reach d w \<Longrightarrow> enqueue_log now name level msg (lw_stream w) = Some s \<Longrightarrow>
    log_reach d (w\<lparr>lw_stream := s\<rparr>)"
| wrote: "log_reach d w \<Longrightarrow> log_reach d (w\<lparr>lw_stream := log_writer_step (lw_stream w)\<rparr>)"
| purge: "log_reach d w \<Longrightarrow>
    log_reach d (w\<lparr>lw_stream := (lw_stream w)\<lparr>lo_db := snd (purge_logs_before t (lo_db (lw_stream w)))\<rparr>\<rparr>)"
| lists: "log_reach d w \<Longrightarrow> lw_clients w c = None \<Longrightarrow> log_reach d (client_list c name n w)"
| registers: "log_reach d w \<Longrightarrow> log_reach d (client_register c w)"
| receives: "log_reach d w \<Longrightarrow> log_reach d (client_receive c w)"
| leaves: "log_reach d w \<Longrightarrow> log_reach d (client_leave c w)"
| stop: "log_reach d w \<Longrightarrow> log_reach d (w\<lparr>lw_stream := stop_log_writer (lw_stream w)\<rparr>)"


subsection \<open>What a client is sent\<close>

definition logs_ok :: "db \<Rightarrow> bool" where
  "logs_ok d \<longleftrightarrow> distinct (map lg_id (db_logs d)) \<and> 0 \<le> db_log_seq d \<and>
     (\<forall>r \<in> set (db_logs d). 0 < lg_id r \<and> lg_id r \<le> db_log_seq d)"

definition live_ok :: "string \<Rightarrow> int \<Rightarrow> int \<Rightarrow> strategy_log list \<Rightarrow> bool" where
  "live_ok name m seq rows \<longleftrightarrow> sorted_wrt (<) (map sl_id rows) \<and>
     (\<forall>r \<in> set rows. m < sl_id r \<and> sl_id r \<le> seq \<and> (name = [] \<or> sl_strategy r = name))"

definition tail_ok :: "string \<Rightarrow> int \<Rightarrow> strategy_log list \<Rightarrow> bool" where
  "tail_ok name m rows \<longleftrightarrow> distinct (map sl_id rows) \<and>
     (\<forall>r \<in> set rows. sl_id r \<le> m \<and> (trim_space name = [] \<or> sl_strategy r = trim_space name))"

definition stream_ok :: "int \<Rightarrow> log_sub option \<Rightarrow> string \<Rightarrow> strategy_log list \<Rightarrow> bool" where
  "stream_ok seq uo name sent \<longleftrightarrow>
     (\<exists>early live m. sent = early @ live \<and> tail_ok name m early \<and> sorted (map (\<lambda>r. (sl_created r, sl_id r)) early) \<and>
        live_ok name m seq live \<and>
        (\<forall>u. uo = Some u \<longrightarrow> su_min u = m \<and> su_name u = name \<and> live_ok name m seq (live @ ch_buf (su_chan u))))"

fun client_ok :: "log_stream \<Rightarrow> log_client \<Rightarrow> bool" where
  "client_ok s (Listed name rows) \<longleftrightarrow> tail_ok name (db_log_seq (lo_db s)) rows"
| "client_ok s (Streaming name i sent) \<longleftrightarrow>
     i \<le> lo_next s \<and> stream_ok (db_log_seq (lo_db s)) (lo_subs s i) name sent"

definition world_ok :: "log_world \<Rightarrow> bool" where
  "world_ok w \<longleftrightarrow> logs_ok (lo_db (lw_stream w)) \<and>
     (\<forall>c x. lw_clients w c = Some x \<longrightarrow> client_ok (lw_stream w) x)"

lemma live_ok_mono: "live_ok name m seq rows \<Longrightarrow> seq \<le> seq' \<Longrightarrow> live_ok name m seq' rows"
  by (auto simp: live_ok_def)

lemma live_ok_snoc:
  "live_ok name m seq rows \<Longrightarrow> m \<le> seq \<or> m < sl_id r \<Longrightarrow> sl_id r = seq + 1 \<Longrightarrow> name = [] \<or> sl_strategy r = name \<Longrightarrow>
   live_ok name m (seq + 1) (rows @ [r])"
  by (force simp: live_ok_def sorted_wrt_append)

lemma tail_ok_mono: "tail_ok name m rows \<Longrightarrow> m \<le> m' \<Longrightarrow> tail_ok name m' rows"
  by (force simp: tail_ok_def)

lemma stream_okE:
  assumes "stream_ok seq uo name sent"
  obtains early live m where "sent = early @ live" "tail_ok name m early"
    "sorted (map (\<lambda>r. (sl_created r, sl_id r)) early)" "live_ok name m seq live"
    "\<And>u. uo = Some u \<Longrightarrow> su_min u = m \<and> su_name u = name \<and> live_ok name m seq (live @ ch_buf (su_chan u))"
  using assms unfolding stream_ok_def by blast

lemma stream_okI:
  "sent = early @ live \<Longrightarrow> tail_ok name m early \<Longrightarrow> sorted (map (\<lambda>r. (sl_created r, sl_id r)) early) \<Longrightarrow>
   live_ok name m seq live \<Longrightarrow>
   (\<And>u. uo = Some u \<Longrightarrow> su_min u = m \<and> su_name u = name \<and> live_ok name m seq (live @ ch_buf (su_chan u))) \<Longrightarrow>
   stream_ok seq uo name sent"
  unfolding stream_ok_def by blast

lemma stream_ok_mono:
  assumes "stream_ok seq uo name sent" "seq \<le> seq'" "uo' = uo \<or> uo' = None"
  shows "stream_ok seq' uo' name sent"
proof (rule stream_okE [OF assms(1)])
  fix early live m
  assume ok: "sent = early @ live" "tail_ok name m early" "sorted (map (\<lambda>r. (sl_created r, sl_id r)) early)"
    "live_ok name m seq live"
    "\<And>u. uo = Some u \<Longrightarrow> su_min u = m \<and> su_name u = name \<and> live_ok name m seq (live @ ch_buf (su_chan u))"
  show ?thesis
    using ok(5) assms(2,3) live_ok_mono
    by (intro stream_okI [OF ok(1-3) live_ok_mono [OF ok(4) assms(2)]]) blast
qed

lemma scan_all_mem: "scan_all f rs = Inr xs \<Longrightarrow> x \<in> set xs \<Longrightarrow> \<exists>r \<in> set rs. f r = Inr x"
  by (induction rs arbitrary: xs) (auto split: sum.splits)

lemma scan_all_map:
  "scan_all f rs = Inr xs \<Longrightarrow> (\<And>r x. f r = Inr x \<Longrightarrow> g x = h r) \<Longrightarrow> map g xs = map h rs"
  by (induction rs arbitrary: xs) (auto split: sum.splits)

lemma recent_logs_tail:
  assumes "logs_ok d" "list_recent_strategy_logs name n d = Inr rows"
  shows "tail_ok name (db_log_seq d) rows"
proof -
  define rs where "rs = take (nat (if n \<le> 0 then 50 else n)) (rev (sort_key (\<lambda>r. (lg_created r, lg_id r))
       (filter (\<lambda>r. trim_space name = [] \<or> lg_strategy r = trim_space name) (db_logs d))))"
  have scan: "scan_all scan_log rs = Inr rows"
    using assms(2) by (simp add: list_recent_strategy_logs_def rs_def)
  have row: "sl_id x = lg_id r" "sl_strategy x = lg_strategy r" if "scan_log r = Inr x" for r x
    using that by (auto simp: scan_log_def split: option.splits)
  have ids: "map sl_id rows = map lg_id rs" using scan row(1) by (rule scan_all_map)
  have "distinct (map lg_id rs)"
    unfolding rs_def take_map [symmetric] rev_map [symmetric]
    using assms(1) by (intro distinct_take) (auto simp: logs_ok_def distinct_map inj_on_def)
  moreover have "r \<in> set (db_logs d) \<and> (trim_space name = [] \<or> lg_strategy r = trim_space name)" if "r \<in> set rs" for r
    using that by (auto simp: rs_def dest!: in_set_takeD)
  ultimately show ?thesis
    using assms(1) scan_all_mem [OF scan] row unfolding tail_ok_def logs_ok_def ids by metis
qed

lemma max_row_id_bound: "sl_id r \<le> m \<or> r \<in> set rows \<Longrightarrow> sl_id r \<le> fold (\<lambda>r m. if m < sl_id r then sl_id r else m) rows m"
proof (induction rows arbitrary: m)
  case (Cons x rows)
  then show ?case by (auto intro!: Cons.IH)
qed simp

lemma max_row_id_seq: "0 \<le> seq \<Longrightarrow> \<forall>r \<in> set rows. sl_id r \<le> seq \<Longrightarrow> max_row_id rows \<le> seq"
proof -
  have "m \<le> seq \<Longrightarrow> \<forall>r \<in> set rows. sl_id r \<le> seq \<Longrightarrow> fold (\<lambda>r m. if m < sl_id r then sl_id r else m) rows m \<le> seq" for m
    by (induction rows arbitrary: m) auto
  then show "0 \<le> seq \<Longrightarrow> \<forall>r \<in> set rows. sl_id r \<le> seq \<Longrightarrow> max_row_id rows \<le> seq" by (simp add: max_row_id_def)
qed

subsection \<open>The steps keep it\<close>

lemma register_stream:
  assumes "tail_ok name seq rows" "0 \<le> seq"
  shows "stream_ok seq (Some \<lparr>su_chan = make_chan 64, su_name = name, su_min = max_row_id rows\<rparr>) name (rows_ascending rows)"
proof -
  have "tail_ok name (max_row_id rows) (rows_ascending rows)"
    using assms(1) by (auto simp: tail_ok_def rows_ascending_def max_row_id_def distinct_map intro!: max_row_id_bound)
  then show ?thesis
    unfolding stream_ok_def
    by (intro exI [of _ "rows_ascending rows"] exI [of _ "[]"] exI [of _ "max_row_id rows"])
       (simp add: live_ok_def make_chan_def rows_ascending_def)
qed

lemma deliver_stream:
  assumes "stream_ok seq (Some u) name sent" "sl_id row = seq + 1"
  shows "stream_ok (seq + 1) (Some (if sub_wants u row then u\<lparr>su_chan := offer_drop row (su_chan u)\<rparr> else u)) name sent"
proof (rule stream_okE [OF assms(1)])
  fix early live m
  assume ok: "sent = early @ live" "tail_ok name m early" "sorted (map (\<lambda>r. (sl_created r, sl_id r)) early)"
    "live_ok name m seq live"
    "\<And>ua. Some u = Some ua \<Longrightarrow> su_min ua = m \<and> su_name ua = name \<and> live_ok name m seq (live @ ch_buf (su_chan ua))"
  have u: "su_min u = m" "su_name u = name" "live_ok name m seq (live @ ch_buf (su_chan u))" using ok(5) by simp_all
  have new: "live_ok name m (seq + 1) ((live @ ch_buf (su_chan u)) @ [row])" if "sub_wants u row"
    using that by (intro live_ok_snoc [OF u(3)]) (auto simp: sub_wants_def u(1,2) assms(2))
  have old: "live_ok name m (seq + 1) live" "live_ok name m (seq + 1) (live @ ch_buf (su_chan u))"
    using ok(4) u(3) live_ok_mono by simp_all
  show ?thesis
    using u(1,2) old new offer_drop_cases [of row "su_chan u"]
    by (intro stream_okI [OF ok(1-3) old(1)]) auto
qed

lemma receive_stream:
  assumes "stream_ok seq (Some u) name sent" "receive (su_chan u) = Some (row, ch)"
  shows "stream_ok seq (Some (u\<lparr>su_chan := ch\<rparr>)) name (sent @ [row]) \<and>
    stream_ok seq (Some (u\<lparr>su_chan := ch\<rparr>)) name sent"
proof (rule stream_okE [OF assms(1)])
  fix early live m
  assume ok: "sent = early @ live" "tail_ok name m early" "sorted (map (\<lambda>r. (sl_created r, sl_id r)) early)"
    "live_ok name m seq live"
    "\<And>ua. Some u = Some ua \<Longrightarrow> su_min ua = m \<and> su_name ua = name \<and> live_ok name m seq (live @ ch_buf (su_chan ua))"
  have buf: "ch_buf (su_chan u) = row # ch_buf ch"
    using assms(2) by (auto simp: receive_def split: list.splits)
  have u: "su_min u = m" "su_name u = name" "live_ok name m seq ((live @ [row]) @ ch_buf ch)"
    using ok(5) [OF refl] buf by simp_all
  have l: "live_ok name m seq (live @ [row])" "live_ok name m seq (live @ ch_buf ch)"
    using u(3) by (simp_all add: live_ok_def sorted_wrt_append)
  have more: "sent @ [row] = early @ (live @ [row])" using ok(1) by simp
  show ?thesis
    by (intro conjI stream_okI [OF more ok(2,3) l(1)] stream_okI [OF ok(1-4)]) (use u l in auto)
qed

lemma save_log_facts:
  assumes "save_strategy_log row d = (Inr row', d')"
  shows "sl_id row' = db_log_seq d + 1" "db_log_seq d' = db_log_seq d + 1"
    "map lg_id (db_logs d') = map lg_id (db_logs d) @ [db_log_seq d + 1]"
  using assms by (auto simp: save_strategy_log_def Let_def split: if_splits)

lemma logs_ok_ids:
  "logs_ok d \<longleftrightarrow> distinct (map lg_id (db_logs d)) \<and> 0 \<le> db_log_seq d \<and>
     (\<forall>i \<in> set (map lg_id (db_logs d)). 0 < i \<and> i \<le> db_log_seq d)"
  by (simp add: logs_ok_def)

lemma logs_ok_save:
  assumes "logs_ok d" "save_strategy_log row d = (Inr row', d')"
  shows "logs_ok d'"
  using assms(1) unfolding logs_ok_ids save_log_facts(2,3) [OF assms(2)] by fastforce

lemma client_ok_notify:
  assumes "client_ok s x" "save_strategy_log row (lo_db s) = (Inr row', d')" "0 \<le> db_log_seq (lo_db s)"
  shows "client_ok (notify_log_subscribers row' (s\<lparr>lo_chan := c', lo_db := d'\<rparr>)) x"
proof (cases x)
  case (Listed name rows)
  then show ?thesis using assms save_log_facts [OF assms(2)]
    by (auto simp: notify_log_subscribers_def intro: tail_ok_mono)
next
  case (Streaming name i sent)
  note row = save_log_facts [OF assms(2)]
  have ok: "i \<le> lo_next s" "stream_ok (db_log_seq (lo_db s)) (lo_subs s i) name sent"
    using assms(1) Streaming by simp_all
  show ?thesis
  proof (cases "lo_subs s i")
    case None
    then show ?thesis using ok row assms(3) Streaming stream_ok_mono [OF ok(2)]
      by (auto simp: notify_log_subscribers_def)
  next
    case (Some u)
    then show ?thesis using ok row assms(3) Streaming deliver_stream [of "db_log_seq (lo_db s)" u name sent row']
      by (auto simp: notify_log_subscribers_def)
  qed
qed

lemma writer_cases:
  obtains "log_writer_step s = s" | c' where "log_writer_step s = s\<lparr>lo_chan := c'\<rparr>"
    | c' row row' d' where "save_strategy_log row (lo_db s) = (Inr row', d')"
        "log_writer_step s = notify_log_subscribers row' (s\<lparr>lo_chan := c', lo_db := d'\<rparr>)"
proof (cases "lo_chan s")
  case None
  then show ?thesis using that(1) by (simp add: log_writer_step_def)
next
  case (Some c)
  show ?thesis
  proof (cases "receive c")
    case None
    then show ?thesis using that(1) Some by (simp add: log_writer_step_def)
  next
    case (Some p)
    obtain row c' where p: "p = (row, c')" by (cases p)
    obtain res d' where save: "save_strategy_log row (lo_db s) = (res, d')" by (cases "save_strategy_log row (lo_db s)")
    show ?thesis
      using that(2) [of "Some c'"] that(3) [of row _ d' "Some c'"] Some p save \<open>lo_chan s = Some c\<close>
      by (cases res) (auto simp: log_writer_step_def)
  qed
qed

lemma world_ok_writer:
  assumes "world_ok w"
  shows "world_ok (w\<lparr>lw_stream := log_writer_step (lw_stream w)\<rparr>)"
proof -
  let ?s = "lw_stream w"
  have same: "client_ok (?s\<lparr>lo_chan := c'\<rparr>) x = client_ok ?s x" for c' x by (cases x) simp_all
  consider "log_writer_step ?s = ?s" | c' where "log_writer_step ?s = ?s\<lparr>lo_chan := c'\<rparr>"
    | c' row row' d' where "save_strategy_log row (lo_db ?s) = (Inr row', d')"
        "log_writer_step ?s = notify_log_subscribers row' (?s\<lparr>lo_chan := c', lo_db := d'\<rparr>)"
    by (rule writer_cases)
  then show ?thesis
  proof cases
    case 3
    have db: "lo_db (notify_log_subscribers row' (?s\<lparr>lo_chan := c', lo_db := d'\<rparr>)) = d'"
      by (simp add: notify_log_subscribers_def)
    show ?thesis
      using assms 3 logs_ok_save [OF _ 3(1)] client_ok_notify [OF _ 3(1)]
      by (auto simp: world_ok_def db logs_ok_def)
  qed (use assms in \<open>auto simp: world_ok_def same\<close>)
qed


lemma world_okD: "world_ok w \<Longrightarrow> lw_clients w c = Some x \<Longrightarrow> client_ok (lw_stream w) x"
  unfolding world_ok_def by blast

text \<open>A step that changes neither the rows nor the subscriptions keeps the invariant.\<close>

lemma client_ok_cong:
  "lo_next s' = lo_next s \<Longrightarrow> lo_subs s' = lo_subs s \<Longrightarrow> db_log_seq (lo_db s') = db_log_seq (lo_db s) \<Longrightarrow>
   client_ok s' x = client_ok s x"
  by (cases x) simp_all

lemma world_ok_other:
  assumes "world_ok w" "lo_next s = lo_next (lw_stream w)" "lo_subs s = lo_subs (lw_stream w)"
    "db_log_seq (lo_db s) = db_log_seq (lo_db (lw_stream w))" "logs_ok (lo_db s)"
  shows "world_ok (w\<lparr>lw_stream := s\<rparr>)"
  using assms client_ok_cong [of s "lw_stream w"] by (auto simp: world_ok_def)

lemma enqueue_same:
  "enqueue_log now name level msg s = Some s' \<Longrightarrow>
   lo_next s' = lo_next s \<and> lo_subs s' = lo_subs s \<and> lo_db s' = lo_db s"
  by (auto simp: enqueue_log_def split: option.splits if_splits offered.splits)

lemma logs_ok_purge: "logs_ok d \<Longrightarrow> logs_ok (snd (purge_logs_before t d))"
  by (auto simp: logs_ok_def purge_logs_before_def distinct_map_filter)

lemma world_ok_list:
  assumes "world_ok w" shows "world_ok (client_list c name n w)"
  using assms recent_logs_tail [of "lo_db (lw_stream w)" name _]
  by (auto simp: client_list_def world_ok_def split: sum.split)

lemma world_ok_register:
  assumes "world_ok w" shows "world_ok (client_register c w)"
proof -
  let ?s = "lw_stream w"
  have logs: "0 \<le> db_log_seq (lo_db ?s)" using assms by (simp add: world_ok_def logs_ok_def)
  show ?thesis
  proof (cases "\<exists>name rows. lw_clients w c = Some (Listed name rows)")
    case True
    then obtain name rows where c: "lw_clients w c = Some (Listed name rows)" by blast
    let ?u = "\<lparr>su_chan = make_chan 64, su_name = name, su_min = max_row_id rows\<rparr>"
    let ?s' = "?s\<lparr>lo_next := lo_next ?s + 1, lo_subs := (lo_subs ?s)(lo_next ?s + 1 \<mapsto> ?u)\<rparr>"
    have w': "client_register c w = w\<lparr>lw_stream := ?s',
        lw_clients := (lw_clients w)(c \<mapsto> Streaming name (lo_next ?s + 1) (rows_ascending rows))\<rparr>"
      by (simp add: client_register_def c register_log_sub_def Let_def)
    have "client_ok ?s (Listed name rows)" using assms c by (rule world_okD)
    then have new: "stream_ok (db_log_seq (lo_db ?s)) (Some ?u) name (rows_ascending rows)"
      using register_stream logs by simp
    have old: "client_ok ?s' x" if "client_ok ?s x" for x
      using that by (cases x) auto
    show ?thesis using assms new old unfolding w' by (auto simp: world_ok_def)
  next
    case False
    then have "client_register c w = w"
      by (auto simp: client_register_def split: option.splits log_client.splits)
    then show ?thesis using assms by simp
  qed
qed

lemma world_ok_receive:
  assumes "world_ok w" shows "world_ok (client_receive c w)"
proof -
  let ?s = "lw_stream w"
  show ?thesis
  proof (cases "\<exists>name i sent u row ch. lw_clients w c = Some (Streaming name i sent) \<and> lo_subs ?s i = Some u \<and>
      receive (su_chan u) = Some (row, ch)")
    case True
    then obtain name i sent u row ch where c: "lw_clients w c = Some (Streaming name i sent)"
        "lo_subs ?s i = Some u" "receive (su_chan u) = Some (row, ch)" by blast
    let ?s' = "?s\<lparr>lo_subs := (lo_subs ?s)(i \<mapsto> u\<lparr>su_chan := ch\<rparr>)\<rparr>"
    have w': "client_receive c w = w\<lparr>lw_stream := ?s',
        lw_clients := (lw_clients w)(c \<mapsto> Streaming name i (sent @ [row]))\<rparr>"
      by (simp add: client_receive_def c)
    have this_ok: "client_ok ?s (Streaming name i sent)" using assms c(1) by (rule world_okD)
    then have new: "client_ok ?s' (Streaming name i (sent @ [row]))"
      using receive_stream [of "db_log_seq (lo_db ?s)" u name sent row ch] c by simp
    have old: "client_ok ?s' x" if "client_ok ?s x" for x
      using that receive_stream [of "db_log_seq (lo_db ?s)" u _ _ row ch] c by (cases x) auto
    show ?thesis using assms new old unfolding w' by (auto simp: world_ok_def simp del: client_ok.simps)
  next
    case False
    then have "client_receive c w = w"
      by (auto simp: client_receive_def split: option.splits log_client.splits)
    then show ?thesis using assms by simp
  qed
qed

lemma world_ok_leave:
  assumes "world_ok w" shows "world_ok (client_leave c w)"
proof -
  have old: "client_ok (cancel_log_sub i s) x" if "client_ok s x" for i s x
    using that by (cases x) (auto simp: cancel_log_sub_def elim: stream_ok_mono)
  have "lo_db (cancel_log_sub i s) = lo_db s" for i s by (simp add: cancel_log_sub_def)
  then show ?thesis
    using assms old by (auto simp: world_ok_def client_leave_def split: option.split log_client.split)
qed

lemma log_reach_ok: "log_reach d w \<Longrightarrow> logs_ok d \<Longrightarrow> world_ok w"
proof (induction rule: log_reach.induct)
  case start
  then show ?case by (simp add: world_ok_def start_log_writer_def)
next
  case (enqueue w now name level msg s)
  then show ?case using enqueue_same [OF enqueue(2)] by (intro world_ok_other) (auto simp: world_ok_def)
next
  case (purge w t)
  then show ?case
    by (intro world_ok_other) (auto simp: world_ok_def purge_logs_before_def intro: logs_ok_purge [unfolded purge_logs_before_def snd_conv])
next
  case (stop w)
  then show ?case by (intro world_ok_other) (auto simp: world_ok_def stop_log_writer_def)
qed (auto intro: world_ok_writer world_ok_list world_ok_register world_ok_receive world_ok_leave)



definition log_start :: log_world where
  "log_start = \<lparr>lw_stream = start_log_writer
      \<lparr>lo_store = True, lo_chan = None, lo_subs = Map.empty, lo_next = 0, lo_db = empty_db\<rparr>, lw_clients = Map.empty\<rparr>"

definition logged :: "log_world \<Rightarrow> log_world" where
  "logged w = (case enqueue_log 5 ''grid'' ''INFO'' ''up'' (lw_stream w) of None \<Rightarrow> w | Some s \<Rightarrow> w\<lparr>lw_stream := s\<rparr>)"

definition wrote_one :: "log_world \<Rightarrow> log_world" where
  "wrote_one w = w\<lparr>lw_stream := log_writer_step (lw_stream w)\<rparr>"

lemmas log_run_defs = log_start_def logged_def wrote_one_def client_list_def client_register_def client_receive_def
  clamp_log_tail_def list_recent_strategy_logs_def empty_db_def start_log_writer_def register_log_sub_def make_chan_def
  enqueue_log_def offer_def log_writer_step_def receive_def save_strategy_log_def notify_log_subscribers_def
  sub_wants_def offer_drop_def max_row_id_def rows_ascending_def Let_def

lemma trimmed_names [simp]:
  "trim_space ''grid'' = ''grid''" "trim_space '' grid'' = ''grid''" "trim_space ''up'' = ''up''"
  by code_simp+

lemma logged_reach: "log_reach d w \<Longrightarrow> log_reach d (logged w)"
  by (auto simp: logged_def split: option.split intro: log_reach.enqueue)


subsection \<open>What a client is not sent\<close>

text \<open>A row saved between the reading of the tail and the registration is in neither: the listener
  that registers after it never gets it.\<close>

lemma gap_row_lost:
  "\<exists>i. lw_clients (client_receive 7 (client_register 7 (wrote_one (logged (client_list 7 ''grid'' 0 log_start))))) 7 =
       Some (Streaming ''grid'' i [])"
  by (simp add: log_run_defs)

text \<open>A name with blanks around it finds its tail, which is listed by the trimmed name, and then no
  live row.\<close>

lemma padded_name_hears_nothing:
  "\<exists>i. lw_clients (client_receive 7 (wrote_one (logged (client_register 7 (client_list 7 '' grid'' 0 log_start))))) 7 =
       Some (Streaming '' grid'' i [])"
  by (simp add: log_run_defs)

text \<open>Stopping closes the queue; a strategy that still logs makes the engine panic.\<close>

lemma log_after_stop_panics:
  "lo_chan s = Some c \<Longrightarrow> lo_store s \<Longrightarrow> trim_space msg \<noteq> [] \<Longrightarrow>
   enqueue_log now name level msg (stop_log_writer s) = None"
  by (simp add: enqueue_log_def stop_log_writer_def offer_def close_chan_def)

end
