(* ===== verification/Retention.thy ===== *)
theory Retention
  imports SqlStore Config
begin

text \<open>
  The retention of logs and account snapshots, \<open>engine/retention.go\<close>. Each tick of the loop runs
  \<open>run_retention_once\<close> at the time of the tick. In UTC a day of \<open>AddDate\<close> is 86400 seconds.
\<close>

definition retention_cutoff :: "go_time \<Rightarrow> int \<Rightarrow> go_time" where
  "retention_cutoff now days = now - days * 86400 * second"

definition retention_interval :: "persistence_settings \<Rightarrow> duration" where
  "retention_interval st = (if ps_cleanup st \<le> 0 then 3600 * second else ps_cleanup st)"

text \<open>The counts of deleted logs and snapshots, and the database.\<close>

definition run_retention_once :: "persistence_settings \<Rightarrow> go_time \<Rightarrow> db option \<Rightarrow> (int \<times> int) \<times> db option" where
  "run_retention_once st now store =
     (case store of None \<Rightarrow> ((0, 0), None)
      | Some d \<Rightarrow>
        (case (if 0 < ps_log_days st then purge_logs_before (retention_cutoff now (ps_log_days st)) d else (0, d)) of
           (logs, d1) \<Rightarrow>
             (case (if 0 < ps_snapshot_days st
                    then purge_snapshots_before (retention_cutoff now (ps_snapshot_days st)) d1 else (0, d1)) of
                (snaps, d2) \<Rightarrow> ((logs, snaps), Some d2))))"

definition expired :: "int \<Rightarrow> go_time \<Rightarrow> string \<Rightarrow> bool" where
  "expired days now s \<longleftrightarrow> 0 < days \<and> s < format_time_utc (retention_cutoff now days)"

lemma filter_count: "int (length (filter P xs)) = int (length xs) - int (length (filter (\<lambda>x. \<not> P x) xs))"
  using sum_length_filter_compl [of P xs] by linarith

lemma purge_facts:
  "purge_logs_before t d = (n, d1) \<Longrightarrow>
     db_logs d1 = filter (\<lambda>r. \<not> lg_created r < format_time_utc t) (db_logs d) \<and> db_snaps d1 = db_snaps d \<and>
     n = int (length (db_logs d)) - int (length (db_logs d1)) \<and> db_orders d1 = db_orders d \<and> db_states d1 = db_states d"
  "purge_snapshots_before t d = (n, d1) \<Longrightarrow>
     db_snaps d1 = filter (\<lambda>r. \<not> sp_at r < format_time_utc t) (db_snaps d) \<and> db_logs d1 = db_logs d \<and>
     n = int (length (db_snaps d)) - int (length (db_snaps d1)) \<and> db_orders d1 = db_orders d \<and> db_states d1 = db_states d"
  using filter_count [of "\<lambda>r. lg_created r < format_time_utc t" "db_logs d"]
    filter_count [of "\<lambda>r. sp_at r < format_time_utc t" "db_snaps d"]
  by (simp_all add: purge_logs_before_def purge_snapshots_before_def) auto

lemma retention_tables:
  assumes "run_retention_once st now (Some d) = (n, Some d')"
  shows "db_logs d' = filter (\<lambda>r. \<not> expired (ps_log_days st) now (lg_created r)) (db_logs d)"
    "db_snaps d' = filter (\<lambda>r. \<not> expired (ps_snapshot_days st) now (sp_at r)) (db_snaps d)"
    "n = (int (length (db_logs d)) - int (length (db_logs d')), int (length (db_snaps d)) - int (length (db_snaps d')))"
    "db_orders d' = db_orders d" "db_states d' = db_states d"
proof -
  obtain l d1 where l: "(if 0 < ps_log_days st then purge_logs_before (retention_cutoff now (ps_log_days st)) d else (0, d)) = (l, d1)"
    by fastforce
  obtain k d2 where k: "(if 0 < ps_snapshot_days st
      then purge_snapshots_before (retention_cutoff now (ps_snapshot_days st)) d1 else (0, d1)) = (k, d2)"
    by fastforce
  have out: "n = (l, k)" "d' = d2" using assms l k by (simp_all add: run_retention_once_def)
  have d1: "db_logs d1 = filter (\<lambda>r. \<not> expired (ps_log_days st) now (lg_created r)) (db_logs d)" "db_snaps d1 = db_snaps d"
    "l = int (length (db_logs d)) - int (length (db_logs d1))" "db_orders d1 = db_orders d" "db_states d1 = db_states d"
    using l purge_facts(1) [of "retention_cutoff now (ps_log_days st)" d l d1] by (auto simp: expired_def split: if_splits)
  have d2: "db_snaps d2 = filter (\<lambda>r. \<not> expired (ps_snapshot_days st) now (sp_at r)) (db_snaps d1)" "db_logs d2 = db_logs d1"
    "k = int (length (db_snaps d1)) - int (length (db_snaps d2))" "db_orders d2 = db_orders d1" "db_states d2 = db_states d1"
    using k purge_facts(2) [of "retention_cutoff now (ps_snapshot_days st)" d1 k d2] by (auto simp: expired_def split: if_splits)
  show "db_logs d' = filter (\<lambda>r. \<not> expired (ps_log_days st) now (lg_created r)) (db_logs d)"
    "db_snaps d' = filter (\<lambda>r. \<not> expired (ps_snapshot_days st) now (sp_at r)) (db_snaps d)"
    "n = (int (length (db_logs d)) - int (length (db_logs d')), int (length (db_snaps d)) - int (length (db_snaps d')))"
    "db_orders d' = db_orders d" "db_states d' = db_states d"
    unfolding out using d1 d2 by simp_all
qed

lemma expired_by_second:
  assumes "time_in_range t" "time_in_range (retention_cutoff now days)"
  shows "retention_cutoff now days div second < t div second \<Longrightarrow> \<not> expired days now (format_time_utc t)"
    "0 < days \<Longrightarrow> t div second < retention_cutoff now days div second \<Longrightarrow> expired days now (format_time_utc t)"
  using format_time_less [of t "retention_cutoff now days"] format_time_less [of "retention_cutoff now days" t] assms
  by (auto simp: expired_def)


definition retention_ex_row :: "int \<Rightarrow> string \<Rightarrow> go_time \<Rightarrow> log_row" where
  "retention_ex_row i msg t =
     \<lparr>lg_id = i, lg_strategy = ''grid'', lg_level = ''info'', lg_message = msg, lg_created = format_time_utc t\<rparr>"

definition retention_ex :: db where
  "retention_ex = empty_db\<lparr>db_logs := [retention_ex_row 1 ''early'' 0, retention_ex_row 2 ''late'' (5 * second)]\<rparr>"

text \<open>Within the second of the cutoff the texts decide, and a row younger than the cutoff can go.\<close>

lemma retention_within_second:
  "expired 1 (86400 * second) (format_time_utc 500000000)"
  using within_second_wrong by (simp add: expired_def retention_cutoff_def)


end
