(* ===== verification/StrategyIO.thy ===== *)
theory StrategyIO
  imports LogStream Lifecycle
begin

text \<open>
  The pipe between the engine and the process of a strategy: the messages (\<open>app/strategy/ipc.go\<close>),
  their framing and the process's own record (\<open>adapters/strategy/pythonipc/process.go\<close>), and what the
  engine does with a message of a strategy and with market updates for it (\<open>engine.go\<close>). Encoding a
  message as JSON and decoding a line are the arguments \<open>encode\<close> and \<open>decode\<close>; an object is the list
  of its members in the order in which \<open>Marshal\<close> writes them (the keys of a map sorted).
\<close>

subsection \<open>Messages\<close>

record ipc_message =
  im_version :: string
  im_type :: string
  im_timestamp :: int
  im_data :: "(string \<times> gval) list"

definition new_ipc_message :: "go_time \<Rightarrow> string \<Rightarrow> (string \<times> gval) list \<Rightarrow> ipc_message" where
  "new_ipc_message now ty data =
     \<lparr>im_version = ''1.0'', im_type = ty, im_timestamp = now div second, im_data = data\<rparr>"

definition ticker_object :: "ticker \<Rightarrow> gval" where
  "ticker_object t = GObj
     [(''contract'', GStr (tv_contract t)), (''last'', GStr (tv_last t)), (''mark_price'', GStr (tv_mark t)),
      (''index_price'', GStr (tv_index t)), (''funding_rate'', GStr (tv_funding t)),
      (''change_pct_24h'', GStr (tv_change t)), (''volume_24h'', GStr (tv_volume t)),
      (''volume_24h_base'', GStr (tv_volume_base t)), (''volume_24h_quote'', GStr (tv_volume_quote t)),
      (''open_interest'', GStr (tv_open_interest t)), (''low_24h'', GStr (tv_low t)), (''high_24h'', GStr (tv_high t)),
      (''timestamp_millis'', GInt (tv_millis t))]"

definition series_object :: "kline_series \<Rightarrow> gval" where
  "series_object s = GObj [(''contract'', GStr (ks_contract s)), (''bars'', GArr (map kline_object (ks_bars s)))]"

subsection \<open>The process\<close>

text \<open>\<open>pr_stdin\<close> is what has been written to the process, \<open>pr_done\<close> its cancelled context. A write
  fails when the pipe says so.\<close>

record process =
  pr_name :: string
  pr_stdin :: string
  pr_heartbeat :: go_time
  pr_crashes :: "go_time list"
  pr_started :: bool
  pr_done :: bool

definition newline :: char where "newline = CHR 0x0A"

definition new_strategy_process :: "go_time \<Rightarrow> strategy_cfg \<Rightarrow> (string \<times> go_error) option \<Rightarrow> process result" where
  "new_strategy_process now st failure =
     (case failure of
        Some (what, e) \<Rightarrow> Inl (Wrapf (''failed to '' @ what @ '': '') e)
      | None \<Rightarrow> Inr \<lparr>pr_name = st_name st, pr_stdin = [], pr_heartbeat = now, pr_crashes = [],
                     pr_started = True, pr_done = False\<rparr>)"

record pipe =
  pi_encode :: "ipc_message \<Rightarrow> string result"
  pi_write :: "string \<Rightarrow> go_error option"

definition send_message :: "pipe \<Rightarrow> ipc_message \<Rightarrow> process \<Rightarrow> go_error option \<times> process" where
  "send_message pp m p =
     (case pi_encode pp m of
        Inl e \<Rightarrow> (Some (Wrapf ''failed to marshal message: '' e), p)
      | Inr s \<Rightarrow> (case pi_write pp (s @ [newline]) of
          Some e \<Rightarrow> (Some (Wrapf ''failed to write message: '' e), p)
        | None \<Rightarrow> (None, p\<lparr>pr_stdin := pr_stdin p @ s @ [newline]\<rparr>)))"

text \<open>\<open>params\<close> are the parameters of the strategy's configuration, decoded YAML.\<close>

definition send_init :: "pipe \<Rightarrow> go_time \<Rightarrow> strategy_cfg \<Rightarrow> gval \<Rightarrow> process \<Rightarrow> go_error option \<times> process" where
  "send_init pp now st params = send_message pp (new_ipc_message now ''init''
     [(''parameters'', params), (''strategy_name'', GStr (st_name st)),
      (''symbols'', GArr (map GStr (st_symbols st)))])"

definition send_tick :: "pipe \<Rightarrow> go_time \<Rightarrow> ticker \<Rightarrow> string \<Rightarrow> process \<Rightarrow> go_error option \<times> process" where
  "send_tick pp now t trace = send_message pp (new_ipc_message now ''tick''
     [(''ticker'', ticker_object t), (''trace_id'', GStr trace)])"

definition send_kline :: "pipe \<Rightarrow> go_time \<Rightarrow> kline \<Rightarrow> string \<Rightarrow> process \<Rightarrow> go_error option \<times> process" where
  "send_kline pp now k trace = send_message pp (new_ipc_message now ''kline''
     [(''kline'', kline_object k), (''trace_id'', GStr trace)])"

definition send_history :: "pipe \<Rightarrow> go_time \<Rightarrow> history_payload option \<Rightarrow> process \<Rightarrow> go_error option \<times> process" where
  "send_history pp now ho p =
     (case ho of None \<Rightarrow> (None, p)
      | Some h \<Rightarrow> send_message pp (new_ipc_message now ''history''
          [(''interval'', GStr (h_interval h)), (''series'', GArr (map series_object (h_series h)))]) p)"

definition send_stop :: "pipe \<Rightarrow> go_time \<Rightarrow> process \<Rightarrow> go_error option \<times> process" where
  "send_stop pp now = send_message pp (new_ipc_message now ''stop'' [])"

definition send_rpc_response :: "pipe \<Rightarrow> go_time \<Rightarrow> string \<Rightarrow> gval result \<Rightarrow> process \<Rightarrow> go_error option \<times> process" where
  "send_rpc_response pp now rid r = send_message pp (new_ipc_message now ''rpc_response'' (rpc_response rid r))"

definition update_heartbeat :: "go_time \<Rightarrow> process \<Rightarrow> process" where
  "update_heartbeat now p = p\<lparr>pr_heartbeat := now\<rparr>"

definition record_crash_local :: "go_time \<Rightarrow> process \<Rightarrow> process" where
  "record_crash_local now p = p\<lparr>pr_crashes := pr_crashes p @ [now]\<rparr>"

text \<open>Here the pruned slice is stored.\<close>

definition prune_crashes_local :: "duration \<Rightarrow> go_time \<Rightarrow> process \<Rightarrow> process" where
  "prune_crashes_local window now p =
     p\<lparr>pr_crashes := (if window \<le> 0 \<or> pr_crashes p = [] then pr_crashes p
                      else filter (\<lambda>t. \<not> t < now - window) (pr_crashes p))\<rparr>"

text \<open>\<open>Stop\<close>: the stop message, whose error is only logged, two seconds, then the context is cancelled
  and \<open>waited\<close> is the answer of \<open>Wait\<close>.\<close>

definition stop_process :: "pipe \<Rightarrow> go_time \<Rightarrow> go_error option \<Rightarrow> process \<Rightarrow> go_error option \<times> process" where
  "stop_process pp now waited p =
     (map_option (Wrapf ''process exit with error: '') waited, (snd (send_stop pp now p))\<lparr>pr_done := True\<rparr>)"

definition kill_process :: "go_error option \<Rightarrow> process \<Rightarrow> go_error option \<times> process" where
  "kill_process killed p = (killed, p\<lparr>pr_done := True\<rparr>)"

definition is_running :: "process \<Rightarrow> bool" where
  "is_running p \<longleftrightarrow> pr_started p \<and> \<not> pr_done p"

subsection \<open>Reading\<close>

text \<open>The scanner: lines up to the next newline, a carriage return at the end dropped; the buffer holds
  a mebibyte, and a line that does not fit with its newline ends the scan. The flag says whether it
  did.\<close>

definition max_line :: nat where "max_line = 1048576"

definition drop_cr :: "string \<Rightarrow> string" where
  "drop_cr s = (if s \<noteq> [] \<and> List.last s = CHR 0x0D then butlast s else s)"

function scan_lines :: "nat \<Rightarrow> string \<Rightarrow> string list \<times> bool" where
  "scan_lines most bs =
     (if bs = [] then ([], False)
      else let l = takeWhile (\<lambda>c. c \<noteq> newline) bs; rest = dropWhile (\<lambda>c. c \<noteq> newline) bs
           in if most \<le> length l then ([], True)
              else if rest = [] then ([drop_cr l], False)
              else case scan_lines most (tl rest) of (ls, e) \<Rightarrow> (drop_cr l # ls, e))"
  by pat_completeness auto
termination
proof (relation "measure (\<lambda>(most, bs). length bs)")
  fix most :: nat and bs :: string and l rest
  assume "bs \<noteq> []" "rest = dropWhile (\<lambda>c. c \<noteq> newline) bs" "rest \<noteq> []"
  then show "((most, tl rest), most, bs) \<in> measure (\<lambda>(most, bs). length bs)"
    using length_dropWhile_le [of "\<lambda>c. c \<noteq> newline" bs] by (auto simp: neq_Nil_conv)
qed simp

declare scan_lines.simps [simp del]

text \<open>\<open>ReadMessages\<close>: the messages given to the handler and the error. A line that does not decode is
  skipped; \<open>done n\<close> says that the context is cancelled when the n-th line has been scanned.\<close>

fun read_lines :: "(string \<Rightarrow> 'm option) \<Rightarrow> (nat \<Rightarrow> bool) \<Rightarrow> nat \<Rightarrow> string list \<Rightarrow> 'm list \<times> bool" where
  "read_lines decode cancelled n [] = ([], False)"
| "read_lines decode cancelled n (l # ls) =
     (if cancelled n then ([], True)
      else case read_lines decode cancelled (n + 1) ls of
        (ms, c) \<Rightarrow> (case decode l of None \<Rightarrow> ms | Some m \<Rightarrow> m # ms, c))"

definition read_messages :: "(string \<Rightarrow> 'm option) \<Rightarrow> (nat \<Rightarrow> bool) \<Rightarrow> string \<Rightarrow> 'm list \<times> go_error option" where
  "read_messages decode cancelled bs =
     (case scan_lines max_line bs of (ls, long) \<Rightarrow>
       (case read_lines decode cancelled 0 ls of
          (ms, True) \<Rightarrow> (ms, Some (Errorf ''context canceled''))
        | (ms, False) \<Rightarrow> (ms, if long then Some (Wrapf ''scanner error: '' (Errorf ''bufio.Scanner: token too long'')) else None)))"


subsection \<open>Framing\<close>

definition framed :: "string list \<Rightarrow> string" where
  "framed ls = concat (map (\<lambda>l. l @ [newline]) ls)"

definition line_ok :: "string \<Rightarrow> bool" where
  "line_ok l \<longleftrightarrow> newline \<notin> set l \<and> length l < max_line"

lemma split_line:
  assumes "newline \<notin> set l"
  shows "takeWhile (\<lambda>c. c \<noteq> newline) (l @ newline # rest) = l" "dropWhile (\<lambda>c. c \<noteq> newline) (l @ newline # rest) = newline # rest"
  using assms by (induction l) auto

lemma scan_lines_line:
  assumes "newline \<notin> set l" "length l < most"
  shows "scan_lines most (l @ newline # rest) = (case scan_lines most rest of (ls, e) \<Rightarrow> (drop_cr l # ls, e))"
  using assms by (subst scan_lines.simps) (simp add: split_line Let_def)

lemma scan_lines_framed:
  "\<forall>l \<in> set ls. line_ok l \<Longrightarrow>
   scan_lines max_line (framed ls @ rest) = (case scan_lines max_line rest of (ls', e) \<Rightarrow> (map drop_cr ls @ ls', e))"
proof (induction ls)
  case (Cons l ls)
  have "framed (l # ls) @ rest = l @ newline # (framed ls @ rest)" by (simp add: framed_def)
  then show ?case
    using Cons scan_lines_line [of l max_line "framed ls @ rest"] by (simp add: line_ok_def split: prod.splits)
qed (simp add: framed_def)

lemma scan_lines_long:
  assumes "newline \<notin> set l" "max_line \<le> length l"
  shows "scan_lines max_line (l @ rest) = ([], True)"
proof -
  have "takeWhile (\<lambda>c. c \<noteq> newline) (l @ rest) = l @ takeWhile (\<lambda>c. c \<noteq> newline) rest"
    using assms(1) by (intro takeWhile_append2) auto
  then show ?thesis using assms by (subst scan_lines.simps) (auto simp: Let_def max_line_def)
qed

lemma read_lines_all: "read_lines decode (\<lambda>_. False) n ls = (List.map_filter decode ls, False)"
  by (induction ls arbitrary: n) (simp_all add: List.map_filter_simps split: option.split)

text \<open>C37. Framing. What a process writes line by line, each line free of newlines and shorter than the
  scanner's mebibyte, is read back as the messages of its lines, in order and each once, the lines that
  do not decode skipped; messages written one to a line by an encoder that the decoder inverts are all
  read back. The first line that is too long ends the reading: every message before it has been
  handled, nothing after it ever is, and the error is reported.\<close>

theorem messages_roundtrip:
  assumes "\<forall>l \<in> set ls. line_ok l" "\<forall>m \<in> set ms. line_ok (encode m) \<and> decode (drop_cr (encode m)) = Some m"
    and "newline \<notin> set long" "max_line \<le> length long"
  shows "read_messages decode (\<lambda>_. False) (framed ls) = (List.map_filter (\<lambda>l. decode (drop_cr l)) ls, None) \<and>
    read_messages decode (\<lambda>_. False) (framed (map encode ms)) = (ms, None) \<and>
    read_messages decode (\<lambda>_. False) (framed (map encode ms) @ long @ rest) =
      (ms, Some (Wrapf ''scanner error: '' (Errorf ''bufio.Scanner: token too long'')))"
proof -
  have nil: "scan_lines max_line [] = ([], False)" by (subst scan_lines.simps) simp
  have lines: "List.map_filter decode (map drop_cr ls') = List.map_filter (\<lambda>l. decode (drop_cr l)) ls'" for ls'
    by (induction ls') (auto simp: List.map_filter_simps split: option.split)
  have readback: "List.map_filter (\<lambda>l. decode (drop_cr l)) (map encode ms) = ms"
    using assms(2) by (induction ms) (auto simp: List.map_filter_simps)
  have enc: "\<forall>l \<in> set (map encode ms). line_ok l" using assms(2) by auto
  show ?thesis
    using scan_lines_framed [OF assms(1), of "[]"] scan_lines_framed [OF enc, of "[]"]
      scan_lines_framed [OF enc, of "long @ rest"] scan_lines_long [OF assms(3,4), of rest] readback
    by (simp add: read_messages_def read_lines_all nil lines del: map_map)
qed

theorem messages_roundtrip_witness:
  "read_messages (\<lambda>s. if s = ''?'' then None else Some s) (\<lambda>_. False) (framed [''a'', ''?'', ''b'']) = ([''a'', ''b''], None) \<and>
   fst (read_messages (\<lambda>s. if s = ''?'' then None else Some s) (\<lambda>_. False)
     (framed [''a''] @ replicate max_line CHR ''x'' @ framed [''b''])) = [''a'']"
proof -
  let ?d = "\<lambda>s. if s = ''?'' then None else Some s"
  have ok: "line_ok ''a''" "line_ok ''?''" "line_ok ''b''" by (simp_all add: line_ok_def max_line_def newline_def)
  have cr: "drop_cr ''a'' = ''a''" "drop_cr ''?'' = ''?''" "drop_cr ''b'' = ''b''" by (simp_all add: drop_cr_def)
  have "newline \<notin> set (replicate max_line CHR ''x'')" by (simp add: newline_def)
  from messages_roundtrip [of "[''a'', ''?'', ''b'']" "[''a'']" "\<lambda>s. s" ?d, OF _ _ this, of "framed [''b'']"]
  show ?thesis by (simp add: ok cr List.map_filter_simps)
qed

end
