(* ===== verification/StrategyMessages.thy ===== *)
theory StrategyMessages
  imports StrategyIO
begin

text \<open>
  What the engine does with the messages of the strategies and with the market updates for them:
  \<open>handleStrategyMessage\<close>, the goroutine of an RPC request, \<open>SendTick\<close>, \<open>SendKline\<close> and the
  dispatch of updates (\<open>engine.go\<close>, \<open>market_dispatch.go\<close>).
\<close>

subsection \<open>Decoding a signal\<close>

definition direction_of_str :: "string \<Rightarrow> direction" where
  "direction_of_str s =
     (if s = ''Long'' then Long else if s = ''Short'' then Short else if s = ''Flat'' then Flat else OtherDirection s)"

definition sizing_of_str :: "string \<Rightarrow> sizing_mode" where
  "sizing_of_str s =
     (if s = ''Percent'' then Percent else if s = ''Fixed'' then Fixed else if s = ''Custom'' then Custom else OtherSizing s)"

definition zero_signal :: signal where
  "zero_signal = \<lparr>sig_symbol = [], sig_direction = OtherDirection [], sig_strength = 0, sig_price = None,
     sig_sizing = None, sig_value = None, sig_reason = [], sig_timestamp = 0\<rparr>"

text \<open>One member: \<open>null\<close> leaves a plain field and clears a pointer, a value of another type is
  remembered as the error and the decoding goes on. A number goes into an integer field if its text
  is an integer literal in range. The flag is the remembered error.\<close>

definition set_string :: "(string \<Rightarrow> signal \<Rightarrow> signal) \<Rightarrow> gval \<Rightarrow> signal \<times> bool \<Rightarrow> signal \<times> bool" where
  "set_string upd v sb =
     (case v of GStr x \<Rightarrow> (upd x (fst sb), snd sb) | GNull \<Rightarrow> sb | _ \<Rightarrow> (fst sb, True))"

definition set_pointer :: "(string option \<Rightarrow> signal \<Rightarrow> signal) \<Rightarrow> gval \<Rightarrow> signal \<times> bool \<Rightarrow> signal \<times> bool" where
  "set_pointer upd v sb =
     (case v of GStr x \<Rightarrow> (upd (Some x) (fst sb), snd sb) | GNull \<Rightarrow> (upd None (fst sb), snd sb)
      | _ \<Rightarrow> (fst sb, True))"

definition set_strength :: "gval \<Rightarrow> signal \<times> bool \<Rightarrow> signal \<times> bool" where
  "set_strength v sb =
     (case v of GNum (Fin q) \<Rightarrow> ((fst sb)\<lparr>sig_strength := q\<rparr>, snd sb) | GNull \<Rightarrow> sb | _ \<Rightarrow> (fst sb, True))"

definition set_timestamp :: "gval \<Rightarrow> signal \<times> bool \<Rightarrow> signal \<times> bool" where
  "set_timestamp v sb =
     (case v of GNum f \<Rightarrow> (case parse_int 64 (format_float f) of
          Some i \<Rightarrow> ((fst sb)\<lparr>sig_timestamp := i\<rparr>, snd sb) | None \<Rightarrow> (fst sb, True))
      | GNull \<Rightarrow> sb | _ \<Rightarrow> (fst sb, True))"

definition signal_field :: "string \<times> gval \<Rightarrow> signal \<times> bool \<Rightarrow> signal \<times> bool" where
  "signal_field kv sb =
     (let k = to_lower (fst kv); v = snd kv
      in if k = ''symbol'' then set_string (\<lambda>x s. s\<lparr>sig_symbol := x\<rparr>) v sb
         else if k = ''direction'' then set_string (\<lambda>x s. s\<lparr>sig_direction := direction_of_str x\<rparr>) v sb
         else if k = ''strength'' then set_strength v sb
         else if k = ''price'' then set_pointer (\<lambda>x s. s\<lparr>sig_price := x\<rparr>) v sb
         else if k = ''sizing_mode'' then set_pointer (\<lambda>x s. s\<lparr>sig_sizing := map_option sizing_of_str x\<rparr>) v sb
         else if k = ''value'' then set_pointer (\<lambda>x s. s\<lparr>sig_value := x\<rparr>) v sb
         else if k = ''reason'' then set_string (\<lambda>x s. s\<lparr>sig_reason := x\<rparr>) v sb
         else if k = ''timestamp'' then set_timestamp v sb
         else sb)"

text \<open>The data is marshalled, its keys sorted, and unmarshalled into the structure; names match up to
  the case of ASCII letters, a later member overrides an earlier one.\<close>

definition decode_signal :: "(string \<times> gval) list \<Rightarrow> signal option" where
  "decode_signal data =
     (case fold signal_field (sort_key fst data) (zero_signal, False) of
        (s, bad) \<Rightarrow> if bad then None else Some s)"

subsection \<open>Handling a message\<close>

record engine_io =
  ei_view :: engine_view
  ei_logs :: log_stream
  ei_signals :: "strategy_signal chan"
  ei_procs :: "nat \<rightharpoonup> process"
  ei_running :: "string \<rightharpoonup> nat"
  ei_requests :: "(nat \<times> row) list"
  ei_done :: bool

datatype io_outcome = Handled engine_io | Waits | IoPanic

text \<open>A \<open>select\<close> between the send of the signal and the end of the engine: \<open>drop_it\<close> is the choice when
  both are possible; it waits when neither is.\<close>

definition offer_signal :: "bool \<Rightarrow> strategy_signal \<Rightarrow> engine_io \<Rightarrow> io_outcome" where
  "offer_signal drop_it x s =
     (if ei_done s \<and> drop_it then Handled s
      else case offer x (ei_signals s) of
             Sent c \<Rightarrow> Handled (s\<lparr>ei_signals := c\<rparr>)
           | Full \<Rightarrow> if ei_done s then Handled s else Waits
           | SendPanic \<Rightarrow> IoPanic)"

definition handle_strategy_message ::
  "go_time \<Rightarrow> bool \<Rightarrow> nat \<Rightarrow> ipc_message \<Rightarrow> engine_io \<Rightarrow> io_outcome" where
  "handle_strategy_message now drop_it i m s =
     (case ei_procs s i of None \<Rightarrow> Handled s
      | Some p \<Rightarrow>
        if im_type m = ''heartbeat'' then Handled (s\<lparr>ei_procs := (ei_procs s)(i \<mapsto> update_heartbeat now p)\<rparr>)
        else if im_type m = ''init_ack'' then Handled s
        else if im_type m = ''signal'' then
          (case decode_signal (im_data m) of None \<Rightarrow> Handled s
           | Some sg \<Rightarrow> offer_signal drop_it \<lparr>ss_strategy = pr_name p, ss_signal = sg, ss_timestamp = now\<rparr> s)
        else if im_type m = ''rpc_request'' then
          Handled (s\<lparr>ei_requests := ei_requests s @ [(i, map_of (im_data m))]\<rparr>)
        else if im_type m = ''log'' then
          (case enqueue_log now (pr_name p) (str_member (map_of (im_data m) ''level''))
                  (str_member (map_of (im_data m) ''message'')) (ei_logs s) of
             None \<Rightarrow> IoPanic | Some l \<Rightarrow> Handled (s\<lparr>ei_logs := l\<rparr>))
        else Handled s)"

text \<open>The goroutine of the n-th request that is still to be answered; a response that cannot be written
  is logged.\<close>

definition answer_request ::
  "(go_float \<Rightarrow> int) \<Rightarrow> (gval \<Rightarrow> string result) \<Rightarrow> pipe \<Rightarrow> go_time \<Rightarrow> nat \<Rightarrow> engine_io \<Rightarrow> engine_io" where
  "answer_request impl marshal pp now n s =
     (if length (ei_requests s) \<le> n then s
      else case ei_requests s ! n of (i, req) \<Rightarrow>
        (case ei_procs s i of None \<Rightarrow> s
         | Some p \<Rightarrow> (case handle_rpc_request impl marshal (pr_name p) req (ei_view s) of (resp, view) \<Rightarrow>
             s\<lparr>ei_view := view, ei_requests := take n (ei_requests s) @ drop (Suc n) (ei_requests s),
               ei_procs := (ei_procs s)(i \<mapsto> snd (send_message pp (new_ipc_message now ''rpc_response'' resp) p))\<rparr>)))"

subsection \<open>Market updates\<close>

definition strategy_missing :: "string \<Rightarrow> go_error" where
  "strategy_missing name = Errorf (''strategy not found: '' @ name)"

definition engine_send_tick :: "pipe \<Rightarrow> go_time \<Rightarrow> string \<Rightarrow> ticker \<Rightarrow> string \<Rightarrow> engine_io \<Rightarrow> go_error option \<times> engine_io" where
  "engine_send_tick pp now name t trace s =
     (case Option.bind (ei_running s name) (\<lambda>i. map_option (Pair i) (ei_procs s i)) of
        None \<Rightarrow> (Some (strategy_missing name), s)
      | Some (i, p) \<Rightarrow> (case send_tick pp now t trace p of (e, p') \<Rightarrow> (e, s\<lparr>ei_procs := (ei_procs s)(i \<mapsto> p')\<rparr>)))"

definition engine_send_kline :: "pipe \<Rightarrow> go_time \<Rightarrow> string \<Rightarrow> kline \<Rightarrow> string \<Rightarrow> engine_io \<Rightarrow> go_error option \<times> engine_io" where
  "engine_send_kline pp now name k trace s =
     (case Option.bind (ei_running s name) (\<lambda>i. map_option (Pair i) (ei_procs s i)) of
        None \<Rightarrow> (Some (strategy_missing name), s)
      | Some (i, p) \<Rightarrow> (case send_kline pp now k trace p of (e, p') \<Rightarrow> (e, s\<lparr>ei_procs := (ei_procs s)(i \<mapsto> p')\<rparr>)))"

definition dispatch_ticker_update :: "pipe \<Rightarrow> go_time \<Rightarrow> string \<Rightarrow> market_update \<Rightarrow> engine_io \<Rightarrow> engine_io" where
  "dispatch_ticker_update pp now trace u s =
     (case mu_ticker u of None \<Rightarrow> s
      | Some t \<Rightarrow> if tv_contract t = [] then s else snd (engine_send_tick pp now (mu_strategy u) t trace s))"

definition dispatch_kline_update :: "pipe \<Rightarrow> go_time \<Rightarrow> string \<Rightarrow> market_update \<Rightarrow> engine_io \<Rightarrow> engine_io" where
  "dispatch_kline_update pp now trace u s =
     (case mu_kline u of None \<Rightarrow> s
      | Some k \<Rightarrow> if k_contract k = [] then s else snd (engine_send_kline pp now (mu_strategy u) k trace s))"

text \<open>One round of \<open>pumpMarketUpdates\<close>.\<close>

definition pump_market_update :: "pipe \<Rightarrow> go_time \<Rightarrow> string \<Rightarrow> market_update \<Rightarrow> engine_io \<Rightarrow> engine_io" where
  "pump_market_update pp now trace u s =
     (case mu_kind u of UpdTicker \<Rightarrow> dispatch_ticker_update pp now trace u s
      | UpdKline \<Rightarrow> dispatch_kline_update pp now trace u s)"

subsection \<open>Interleavings\<close>

datatype io_input =
    Message go_time bool nat ipc_message
  | Answer go_time nat
  | Update go_time string market_update

fun io_step ::
  "(go_float \<Rightarrow> int) \<Rightarrow> (gval \<Rightarrow> string result) \<Rightarrow> pipe \<Rightarrow> io_input \<Rightarrow> engine_io \<Rightarrow> engine_io option" where
  "io_step impl marshal pp (Message now drop_it i m) s =
     (case handle_strategy_message now drop_it i m s of Handled s' \<Rightarrow> Some s' | _ \<Rightarrow> None)"
| "io_step impl marshal pp (Answer now n) s = Some (answer_request impl marshal pp now n s)"
| "io_step impl marshal pp (Update now trace u) s = Some (pump_market_update pp now trace u s)"

fun io_run ::
  "(go_float \<Rightarrow> int) \<Rightarrow> (gval \<Rightarrow> string result) \<Rightarrow> pipe \<Rightarrow> io_input list \<Rightarrow> engine_io \<Rightarrow> engine_io option" where
  "io_run impl marshal pp [] s = Some s"
| "io_run impl marshal pp (x # xs) s = Option.bind (io_step impl marshal pp x s) (io_run impl marshal pp xs)"

definition log_queue :: "log_stream \<Rightarrow> strategy_log list" where
  "log_queue l = (case lo_chan l of None \<Rightarrow> [] | Some c \<Rightarrow> ch_buf c)"

text \<open>What stands in the name of strategy \<open>n\<close>: its custom state, its queued signals, its queued logs.\<close>

definition voice_of :: "string \<Rightarrow> engine_io \<Rightarrow> (string \<rightharpoonup> gval) \<times> strategy_signal list \<times> strategy_log list" where
  "voice_of n s = (ev_states (ei_view s) n, filter (\<lambda>x. ss_strategy x = n) (ch_buf (ei_signals s)),
     filter (\<lambda>r. sl_strategy r = n) (log_queue (ei_logs s)))"

definition named :: "nat \<Rightarrow> engine_io \<Rightarrow> string option" where
  "named i s = map_option pr_name (ei_procs s i)"

fun sender_ok :: "string \<Rightarrow> engine_io \<Rightarrow> io_input \<Rightarrow> bool" where
  "sender_ok n s (Message now d i m) \<longleftrightarrow> named i s \<noteq> Some n"
| "sender_ok n s _ \<longleftrightarrow> True"

definition silent :: "string \<Rightarrow> engine_io \<Rightarrow> bool" where
  "silent n s \<longleftrightarrow> (\<forall>(i, req) \<in> set (ei_requests s). named i s \<noteq> Some n)"


subsection \<open>Nobody speaks for another\<close>

lemma send_message_name [simp]: "pr_name (snd (send_message pp m p)) = pr_name p"
  by (simp add: send_message_def split: sum.split option.split)

lemma engine_send_frame:
  "ei_view (snd (engine_send_tick pp now name t trace s)) = ei_view s \<and>
   ei_logs (snd (engine_send_tick pp now name t trace s)) = ei_logs s \<and>
   ei_signals (snd (engine_send_tick pp now name t trace s)) = ei_signals s \<and>
   ei_requests (snd (engine_send_tick pp now name t trace s)) = ei_requests s \<and>
   named i (snd (engine_send_tick pp now name t trace s)) = named i s"
  "ei_view (snd (engine_send_kline pp now name k trace s)) = ei_view s \<and>
   ei_logs (snd (engine_send_kline pp now name k trace s)) = ei_logs s \<and>
   ei_signals (snd (engine_send_kline pp now name k trace s)) = ei_signals s \<and>
   ei_requests (snd (engine_send_kline pp now name k trace s)) = ei_requests s \<and>
   named i (snd (engine_send_kline pp now name k trace s)) = named i s"
  by (auto simp: engine_send_tick_def engine_send_kline_def send_tick_def send_kline_def named_def case_prod_beta
      split: option.split bind_splits)

lemma update_frame:
  "voice_of n (pump_market_update pp now trace u s) = voice_of n s"
  "named i (pump_market_update pp now trace u s) = named i s"
  "ei_requests (pump_market_update pp now trace u s) = ei_requests s"
  by (simp_all add: pump_market_update_def dispatch_ticker_update_def dispatch_kline_update_def voice_of_def
      engine_send_frame split: update_kind.split option.split)

lemma answer_frame:
  assumes "s' = answer_request impl marshal pp now j s"
  shows "named i s' = named i s" "set (ei_requests s') \<subseteq> set (ei_requests s)"
    "silent n s \<Longrightarrow> voice_of n s' = voice_of n s"
proof -
  have "named i s' = named i s \<and> set (ei_requests s') \<subseteq> set (ei_requests s) \<and>
      (silent n s \<longrightarrow> voice_of n s' = voice_of n s)"
  proof (cases "j < length (ei_requests s) \<and> ei_procs s (fst (ei_requests s ! j)) \<noteq> None")
    case False
    then have "s' = s" using assms by (auto simp: answer_request_def split: prod.split)
    then show ?thesis by simp
  next
    case True
    obtain k req where r: "ei_requests s ! j = (k, req)" by (cases "ei_requests s ! j")
    then obtain p where p: "ei_procs s k = Some p" using True by auto
    obtain resp view where h: "handle_rpc_request impl marshal (pr_name p) req (ei_view s) = (resp, view)"
      by (cases "handle_rpc_request impl marshal (pr_name p) req (ei_view s)")
    have s': "s' = s\<lparr>ei_view := view, ei_requests := take j (ei_requests s) @ drop (Suc j) (ei_requests s),
        ei_procs := (ei_procs s)(k \<mapsto> snd (send_message pp (new_ipc_message now ''rpc_response'' resp) p))\<rparr>"
      using assms True r p h by (simp add: answer_request_def)
    have view: "\<forall>other. other \<noteq> pr_name p \<longrightarrow> ev_states view other = ev_states (ei_view s) other"
      using rpc_call_effect [of impl marshal "pr_name p" "str_member (req ''method'')" "obj_row (req ''params'')" "ei_view s"] h
      by (auto simp: handle_rpc_request_def set_custom_state_effect split: prod.splits)
    have "(k, req) \<in> set (ei_requests s)" using r True by (metis nth_mem)
    then have "pr_name p \<noteq> n" if "silent n s" using that p by (auto simp: silent_def named_def)
    then show ?thesis
      unfolding s' using view p
      by (auto simp: named_def voice_of_def dest: in_set_takeD in_set_dropD)
  qed
  then show "named i s' = named i s" "set (ei_requests s') \<subseteq> set (ei_requests s)"
    "silent n s \<Longrightarrow> voice_of n s' = voice_of n s" by simp_all
qed

lemma enqueue_voice:
  "enqueue_log now name level msg l = Some l' \<Longrightarrow> name \<noteq> n \<Longrightarrow>
   filter (\<lambda>r. sl_strategy r = n) (log_queue l') = filter (\<lambda>r. sl_strategy r = n) (log_queue l)"
  by (auto simp: enqueue_log_def offer_def log_queue_def split: option.splits if_splits)

lemma offer_signal_frame:
  assumes "offer_signal drop_it x s = Handled s'"
  shows "s' = s \<or> (\<exists>c. s' = s\<lparr>ei_signals := c\<rparr> \<and> ch_buf c = ch_buf (ei_signals s) @ [x])"
  using assms by (auto simp: offer_signal_def offer_def split: if_splits)

lemma message_frame:
  assumes "handle_strategy_message now drop_it j m s = Handled s'"
  shows "named i s' = named i s" "named j s \<noteq> Some n \<Longrightarrow> voice_of n s' = voice_of n s"
    "ei_requests s' = ei_requests s \<or> (\<exists>req. ei_requests s' = ei_requests s @ [(j, req)])"
proof -
  have "named i s' = named i s \<and> (named j s \<noteq> Some n \<longrightarrow> voice_of n s' = voice_of n s) \<and>
      (ei_requests s' = ei_requests s \<or> (\<exists>req. ei_requests s' = ei_requests s @ [(j, req)]))"
  proof (cases "ei_procs s j")
    case None
    then show ?thesis using assms by (simp add: handle_strategy_message_def)
  next
    case (Some p)
    then show ?thesis
      using assms offer_signal_frame [of drop_it "\<lparr>ss_strategy = pr_name p,
          ss_signal = the (decode_signal (im_data m)), ss_timestamp = now\<rparr>" s s'] enqueue_voice [of now "pr_name p" _ _ "ei_logs s" _ n]
      by (auto simp: handle_strategy_message_def named_def voice_of_def update_heartbeat_def
          split: if_splits option.splits)
  qed
  then show "named i s' = named i s" "named j s \<noteq> Some n \<Longrightarrow> voice_of n s' = voice_of n s"
    "ei_requests s' = ei_requests s \<or> (\<exists>req. ei_requests s' = ei_requests s @ [(j, req)])" by simp_all
qed

lemma silent_mono:
  "silent n s \<Longrightarrow> (\<And>i. named i s' = named i s) \<Longrightarrow> set (ei_requests s') \<subseteq> insert (j, req) (set (ei_requests s)) \<Longrightarrow>
   named j s \<noteq> Some n \<or> set (ei_requests s') \<subseteq> set (ei_requests s) \<Longrightarrow> silent n s'"
  by (force simp: silent_def)

lemma io_step_frame:
  assumes "io_step impl marshal pp x s = Some s'"
  shows "named i s' = named i s" "silent n s \<Longrightarrow> sender_ok n s x \<Longrightarrow> silent n s' \<and> voice_of n s' = voice_of n s"
proof -
  have "named i s' = named i s \<and> (silent n s \<and> sender_ok n s x \<longrightarrow> silent n s' \<and> voice_of n s' = voice_of n s)"
  proof (cases x)
    case (Message now d j m)
    then have h: "handle_strategy_message now d j m s = Handled s'" using assms by (auto split: io_outcome.splits)
    note f = message_frame [OF h]
    have "silent n s'" if ok: "silent n s" "named j s \<noteq> Some n"
      using f(3)
    proof
      assume "ei_requests s' = ei_requests s"
      then show ?thesis using ok(1) f(1) by (simp add: silent_def)
    next
      assume "\<exists>req. ei_requests s' = ei_requests s @ [(j, req)]"
      then obtain req where "ei_requests s' = ei_requests s @ [(j, req)]" ..
      then show ?thesis using ok f(1) by (simp add: silent_def)
    qed
    then show ?thesis using f Message by simp
  next
    case (Answer now j)
    then have "s' = answer_request impl marshal pp now j s" using assms by simp
    note f = answer_frame [OF this]
    have "silent n s'" if "silent n s" using that f(1,2) by (force simp: silent_def)
    then show ?thesis using f by simp
  next
    case (Update now trace u)
    then have "s' = pump_market_update pp now trace u s" using assms by simp
    then show ?thesis using update_frame by (simp add: silent_def)
  qed
  then show "named i s' = named i s" "silent n s \<Longrightarrow> sender_ok n s x \<Longrightarrow> silent n s' \<and> voice_of n s' = voice_of n s"
    by simp_all
qed

text \<open>C6. Nobody speaks for another. Over any interleaving of messages of the strategies, answers to
  their requests and market updates, a strategy none of whose processes has sent a message, and that
  has no request waiting, has nothing done in its name: its custom state, the queued signals that
  will be traded for it and the queued logs under its name are exactly what they were. The fields of
  a message cannot choose the name.\<close>

theorem nobody_speaks_for_another:
  assumes "io_run impl marshal pp xs s = Some s'" "silent n s" "\<forall>x \<in> set xs. sender_ok n s x"
  shows "voice_of n s' = voice_of n s"
  using assms
proof (induction xs arbitrary: s)
  case (Cons x xs)
  then obtain s1 where s1: "io_step impl marshal pp x s = Some s1" "io_run impl marshal pp xs s1 = Some s'"
    by (auto simp: bind_eq_Some_conv)
  note f = io_step_frame [OF s1(1)]
  have "\<forall>y \<in> set xs. sender_ok n s1 y"
  proof
    fix y assume "y \<in> set xs"
    then have "sender_ok n s y" using Cons.prems(3) by simp
    then show "sender_ok n s1 y" using f(1) by (cases y) simp_all
  qed
  moreover have "silent n s1 \<and> voice_of n s1 = voice_of n s" using f(2) Cons.prems(2,3) by simp
  ultimately show ?case using Cons.IH [OF s1(2)] by simp
qed simp


definition two_strategies :: engine_io where
  "two_strategies = \<lparr>ei_view = no_engine,
     ei_logs = \<lparr>lo_store = True, lo_chan = Some (make_chan 512), lo_subs = Map.empty, lo_next = 0, lo_db = empty_db\<rparr>,
     ei_signals = make_chan 100,
     ei_procs = [1 \<mapsto> \<lparr>pr_name = ''grid'', pr_stdin = [], pr_heartbeat = 0, pr_crashes = [], pr_started = True, pr_done = False\<rparr>,
                 2 \<mapsto> \<lparr>pr_name = ''dca'', pr_stdin = [], pr_heartbeat = 0, pr_crashes = [], pr_started = True, pr_done = False\<rparr>],
     ei_running = [''grid'' \<mapsto> 1, ''dca'' \<mapsto> 2], ei_requests = [], ei_done = False\<rparr>"

definition dca_messages :: "io_input list" where
  "dca_messages = [
     Message 5 False 2 (new_ipc_message 5 ''signal'' [(''strategy_name'', GStr ''grid''), (''symbol'', GStr ''BTC/USDT'')]),
     Message 6 False 2 (new_ipc_message 6 ''log'' [(''level'', GStr ''info''), (''message'', GStr ''up'')])]"

theorem nobody_speaks_for_another_witness:
  "\<exists>s'. io_run (\<lambda>_. 0) (\<lambda>_. Inr []) \<lparr>pi_encode = (\<lambda>_. Inr []), pi_write = (\<lambda>_. None)\<rparr> dca_messages two_strategies = Some s' \<and>
     voice_of ''grid'' s' = (Map.empty, [], []) \<and> map ss_strategy (ch_buf (ei_signals s')) = [''dca''] \<and>
     map sl_strategy (log_queue (ei_logs s')) = [''dca'']"
proof -
  let ?pp = "\<lparr>pi_encode = (\<lambda>_. Inr []), pi_write = (\<lambda>_. None)\<rparr>"
  have dec: "decode_signal [(''strategy_name'', GStr ''grid''), (''symbol'', GStr ''BTC/USDT'')] =
      Some (zero_signal\<lparr>sig_symbol := ''BTC/USDT''\<rparr>)" by code_simp
  obtain s' where s': "io_run (\<lambda>_. 0) (\<lambda>_. Inr []) ?pp dca_messages two_strategies = Some s'"
      "map ss_strategy (ch_buf (ei_signals s')) = [''dca'']" "map sl_strategy (log_queue (ei_logs s')) = [''dca'']"
    by (simp add: dca_messages_def two_strategies_def handle_strategy_message_def new_ipc_message_def dec
        offer_signal_def offer_def make_chan_def enqueue_log_def log_queue_def)
  have "voice_of ''grid'' s' = voice_of ''grid'' two_strategies"
    using nobody_speaks_for_another [OF s'(1), of "''grid''"]
    by (simp add: dca_messages_def two_strategies_def silent_def named_def)
  then show ?thesis
    using s' by (simp add: voice_of_def two_strategies_def no_engine_def log_queue_def make_chan_def)
qed

end
