(* ===== verification/EngineStatus.thy ===== *)
theory EngineStatus
  imports StrategyMessages RiskPipeline
begin

text \<open>
  The read-only reports of the engine: the health report (\<open>engine/health.go\<close>) and the state of the
  strategies (\<open>engine/strategy_status.go\<close>), with the catalogue they list.
\<close>

subsection \<open>Health\<close>

datatype health_status = HealthUnspecified | Healthy | Degraded | Unhealthy

datatype component_status = ComponentUnspecified | Pass | Failing

record health_check =
  hc_name :: string
  hc_status :: component_status
  hc_message :: string

record health_report =
  hr_status :: health_status
  hr_time :: go_time
  hr_checks :: "health_check list"
  hr_kill :: bool

definition bool_to_component_status :: "bool \<Rightarrow> component_status" where
  "bool_to_component_status ok = (if ok then Pass else Failing)"

definition aggregate_health :: "bool \<Rightarrow> bool \<Rightarrow> bool \<Rightarrow> bool \<Rightarrow> bool \<Rightarrow> health_status" where
  "aggregate_health engine_ok proj_ok exchange_ok killed skip =
     (if \<not> engine_ok \<or> \<not> proj_ok then Unhealthy
      else if \<not> skip \<and> \<not> exchange_ok then Degraded
      else if killed then Degraded
      else Healthy)"

text \<open>\<open>ping\<close> is the answer of the perpetual market's \<open>Ping\<close>; \<open>None\<close>: no such market.\<close>

definition check_exchange :: "go_error option option \<Rightarrow> bool \<times> string" where
  "check_exchange ping =
     (case ping of None \<Rightarrow> (False, ''not configured'')
      | Some (Some e) \<Rightarrow> (False, error_text e)
      | Some None \<Rightarrow> (True, []))"

record health_view =
  hv_running :: bool
  hv_projection :: "projection option"
  hv_kill :: kill_switch
  hv_ping :: "go_error option option"

definition projection_check :: "projection option \<Rightarrow> bool \<times> string" where
  "projection_check po =
     (case po of None \<Rightarrow> (False, ''not configured'')
      | Some p \<Rightarrow> if pj_ready p then (True, []) else (False, ''not ready''))"

definition health_of :: "health_view option \<Rightarrow> go_time \<Rightarrow> bool \<Rightarrow> health_report" where
  "health_of vo now skip =
     (case vo of
        None \<Rightarrow> \<lparr>hr_status = Unhealthy, hr_time = now,
                 hr_checks = [\<lparr>hc_name = ''engine'', hc_status = Failing, hc_message = ''nil engine''\<rparr>], hr_kill = False\<rparr>
      | Some v \<Rightarrow>
        let eng = hv_running v;
            proj = projection_check (hv_projection v);
            ex = (if skip then (True, []) else check_exchange (hv_ping v));
            checks =
              [\<lparr>hc_name = ''engine'', hc_status = bool_to_component_status eng,
                hc_message = (if eng then [] else ''engine not running'')\<rparr>,
               \<lparr>hc_name = ''account_projection'', hc_status = bool_to_component_status (fst proj), hc_message = snd proj\<rparr>] @
              (if skip then []
               else [\<lparr>hc_name = ''exchange'', hc_status = bool_to_component_status (fst ex), hc_message = snd ex\<rparr>])
        in \<lparr>hr_status = aggregate_health eng (fst proj) (fst ex) (ks_active (hv_kill v)) skip, hr_time = now,
            hr_checks = checks, hr_kill = ks_active (hv_kill v)\<rparr>)"

text \<open>C40. The health report means what it says. It is healthy exactly when every check it lists passes
  and the kill switch is off; it is unhealthy exactly when the check of the engine or of the account
  projection fails; otherwise it is degraded. A failed check has a message and a passed one none,
  when the errors of the exchange have a text.\<close>

theorem health_report_sound:
  assumes "health_of (Some v) now skip = r" and "\<forall>e. hv_ping v = Some (Some e) \<longrightarrow> error_text e \<noteq> []"
  shows "(hr_status r = Healthy \<longleftrightarrow> (\<forall>c \<in> set (hr_checks r). hc_status c = Pass) \<and> \<not> hr_kill r) \<and>
    (hr_status r = Unhealthy \<longleftrightarrow>
       (\<exists>c \<in> set (hr_checks r). hc_name c \<in> {''engine'', ''account_projection''} \<and> hc_status c = Failing)) \<and>
    hr_status r \<in> {Healthy, Degraded, Unhealthy} \<and>
    (\<forall>c \<in> set (hr_checks r). hc_status c = Failing \<longleftrightarrow> hc_message c \<noteq> [])"
  unfolding assms(1) [symmetric] using assms(2)
  by (cases "hv_running v"; cases "hv_projection v"; cases "hv_ping v"; cases skip; cases "ks_active (hv_kill v)")
     (auto simp: health_of_def aggregate_health_def bool_to_component_status_def projection_check_def check_exchange_def
       Let_def split: option.split)

theorem health_report_sound_witness:
  "hr_status (health_of (Some \<lparr>hv_running = True, hv_projection = None, hv_kill = kill_switch_off, hv_ping = Some None\<rparr>) 0 False)
     = Unhealthy"
  using health_report_sound [OF refl, of "\<lparr>hv_running = True, hv_projection = None, hv_kill = kill_switch_off, hv_ping = Some None\<rparr>" 0 False]
  by (simp add: health_of_def bool_to_component_status_def projection_check_def Let_def)

subsection \<open>Strategies\<close>

record runtime_snapshot =
  sn_name :: string
  sn_enabled :: bool
  sn_symbols :: "string list"
  sn_running :: bool
  sn_heartbeat :: "go_time option"
  sn_crashes :: int
  sn_in_window :: int
  sn_auto_restart :: bool
  sn_backoff :: duration
  sn_circuit :: bool

definition strategy_not_found :: go_error where
  "strategy_not_found = Errorf ''strategy not found''"

text \<open>\<open>buildRuntimeSnapshot\<close>: \<open>procs\<close> are the records of the registered processes. Counting prunes
  in place, so that the tracker is an answer too; the backoff is kept in nanoseconds.\<close>

definition build_runtime_snapshot ::
  "go_time \<Rightarrow> (string \<rightharpoonup> process) \<Rightarrow> strategy_cfg \<Rightarrow> lifecycle \<Rightarrow> runtime_snapshot \<times> lifecycle" where
  "build_runtime_snapshot now procs st lc =
     (let name = st_name st;
          (n, ct1) = count_in_window name (rs_crash_window (lc_restart lc)) now (lc_crashes lc);
          (opened, ct2) = circuit_open (lc_restart lc) name now ct1;
          p = procs name;
          running = (case p of None \<Rightarrow> False | Some q \<Rightarrow> is_running q)
      in (\<lparr>sn_name = name, sn_enabled = st_enabled st, sn_symbols = st_symbols st, sn_running = running,
           sn_heartbeat = (if running then map_option pr_heartbeat p else None),
           sn_crashes = (case p of None \<Rightarrow> 0 | Some q \<Rightarrow> int (length (pr_crashes q))),
           sn_in_window = n, sn_auto_restart = rs_enabled (lc_restart lc),
           sn_backoff = pending_restart_nanos name now lc, sn_circuit = opened\<rparr>,
          lc\<lparr>lc_crashes := ct2\<rparr>))"

definition strategy_runtime_snapshot ::
  "go_time \<Rightarrow> (string \<rightharpoonup> process) \<Rightarrow> string \<Rightarrow> lifecycle \<Rightarrow> runtime_snapshot result \<times> lifecycle" where
  "strategy_runtime_snapshot now procs name lc =
     (case lc_catalog lc name of
        None \<Rightarrow> (Inl strategy_not_found, lc)
      | Some st \<Rightarrow> (case build_runtime_snapshot now procs st lc of (s, lc') \<Rightarrow> (Inr s, lc')))"

text \<open>The catalogue sorted by name; \<open>names\<close> is its key set in any order.\<close>

definition list_strategy_catalog :: "string list \<Rightarrow> lifecycle \<Rightarrow> strategy_cfg list" where
  "list_strategy_catalog names lc = sort_key st_name (List.map_filter (lc_catalog lc) names)"

fun build_all_snapshots ::
  "go_time \<Rightarrow> (string \<rightharpoonup> process) \<Rightarrow> strategy_cfg list \<Rightarrow> lifecycle \<Rightarrow> runtime_snapshot list \<times> lifecycle" where
  "build_all_snapshots now procs [] lc = ([], lc)"
| "build_all_snapshots now procs (st # sts) lc =
     (case build_runtime_snapshot now procs st lc of (s, lc1) \<Rightarrow>
       (case build_all_snapshots now procs sts lc1 of (ss, lc2) \<Rightarrow> (s # ss, lc2)))"

definition list_runtime_snapshots ::
  "go_time \<Rightarrow> (string \<rightharpoonup> process) \<Rightarrow> string list \<Rightarrow> lifecycle \<Rightarrow> runtime_snapshot list \<times> lifecycle" where
  "list_runtime_snapshots now procs names lc = build_all_snapshots now procs (list_strategy_catalog names lc) lc"

text \<open>\<open>LoadStrategies\<close> and \<open>ReloadStrategiesCatalog\<close>: \<open>found\<close> is the answer of the discovery; running
  processes are left alone.\<close>

definition load_strategies :: "catalog result \<Rightarrow> lifecycle \<Rightarrow> go_error option \<times> lifecycle" where
  "load_strategies found lc =
     (case found of Inl e \<Rightarrow> (Some (Wrapf ''failed to load strategies: '' e), lc)
      | Inr cat \<Rightarrow> (None, lc\<lparr>lc_catalog := cat\<rparr>))"

definition reload_strategies_catalog :: "catalog result \<Rightarrow> lifecycle \<Rightarrow> int result \<times> lifecycle" where
  "reload_strategies_catalog found lc =
     (case load_strategies found lc of (Some e, lc') \<Rightarrow> (Inl e, lc')
      | (None, lc') \<Rightarrow> (Inr (int (card (dom (lc_catalog lc')))), lc'))"

text \<open>Reading the state of a strategy is not free of effects: the second count of one report runs on
  what the first has shifted.\<close>

definition crashed_lc :: "go_time list \<Rightarrow> int \<Rightarrow> lifecycle" where
  "crashed_lc ts most = \<lparr>lc_catalog = Map.empty, lc_feeds = Map.empty, lc_procs = Map.empty, lc_next = 0,
     lc_intervals = Map.empty, lc_crashes = [''grid'' \<mapsto> ts], lc_attempts = Map.empty, lc_pending = Map.empty,
     lc_killed = False, lc_closed = False,
     lc_restart = default_restart_settings\<lparr>rs_crash_window := 10, rs_max_crashes := most\<rparr>, lc_default_interval = []\<rparr>"

lemma status_reading_opens_circuit:
  assumes "st_name st = ''grid''"
  shows "sn_in_window (fst (build_runtime_snapshot 100 Map.empty st (crashed_lc [5, 95] 2))) = 1 \<and>
    sn_circuit (fst (build_runtime_snapshot 100 Map.empty st (crashed_lc [5, 95] 2)))"
  using assms
  by (simp add: build_runtime_snapshot_def crashed_lc_def count_in_window_def prune_crash_times_def circuit_open_def
      times_of_def Let_def)

end
