(* ===== verification/Scaffold.thy ===== *)
theory Scaffold
  imports GoStd StrategyConfig GateConvert
begin

text \<open>
  Creating a strategy from a template: \<open>app/strategy/scaffold\<close> (names, the embedded templates, the
  merge and \<open>Create\<close>) and the engine's part of it (\<open>engine/strategy_scaffold.go\<close>). The file system is
  a map from clean paths to nodes; encoding YAML and the failures of the operating system are
  arguments.
\<close>

subsection \<open>Names and templates\<close>

definition name_char :: "char \<Rightarrow> bool" where
  "name_char c \<longleftrightarrow> c \<in> set ''abcdefghijklmnopqrstuvwxyz0123456789_-''"

definition invalid_name :: go_error where "invalid_name = Errorf ''invalid strategy name''"
definition template_not_found :: go_error where "template_not_found = Errorf ''template not found''"
definition already_exists :: go_error where "already_exists = Errorf ''strategy directory already exists''"
definition invalid_scaffold_config :: go_error where "invalid_scaffold_config = Errorf ''invalid strategy config''"

text \<open>The length is counted in runes; a name with a byte that is not ASCII fails the pattern anyway.\<close>

definition validate_name :: "string \<Rightarrow> go_error option" where
  "validate_name name =
     (if name = [] then Some invalid_name
      else if 64 < length name then Some invalid_name
      else if \<not> list_all name_char name then Some invalid_name
      else None)"

type_synonym params = "string \<rightharpoonup> gval"

text \<open>The embedded \<open>templates/*/config.yaml\<close>, decoded.\<close>

definition template_config :: "string \<Rightarrow> (strategy_config \<times> params) option" where
  "template_config i =
     (if i = ''blank'' then Some
        (\<lparr>st_name = ''blank_placeholder'', st_enabled = False, st_symbols = [''BTC/USDT''], st_interval = ''5m'',
          st_history_bars = 0, st_subscribe_ticker = False, st_market_name = [], st_risk = None\<rparr>, Map.empty)
      else if i = ''trend'' then Some
        (\<lparr>st_name = ''trend_placeholder'', st_enabled = False, st_symbols = [''BTC/USDT''], st_interval = ''5m'',
          st_history_bars = 100, st_subscribe_ticker = False, st_market_name = [], st_risk = None\<rparr>,
         [''ma_fast'' \<mapsto> GInt 10, ''ma_slow'' \<mapsto> GInt 30, ''position_pct'' \<mapsto> GStr ''0.1''])
      else None)"

definition template_ids :: "string list" where
  "template_ids = [''blank'', ''trend'']"

definition template_exists :: "string \<Rightarrow> bool" where
  "template_exists i \<longleftrightarrow> template_config i \<noteq> None"

record template_meta =
  tm_id :: string
  tm_description :: string
  tm_symbols :: "string list"
  tm_interval :: string

definition template_description :: "string \<Rightarrow> string" where
  "template_description i =
     (if i = ''trend'' then ''Dual moving-average example (history warmup + closed klines)''
      else if i = ''blank'' then ''Minimal runnable strategy shell'' else [])"

definition list_templates :: "template_meta list" where
  "list_templates = map (\<lambda>i. case template_config i of
       None \<Rightarrow> \<lparr>tm_id = i, tm_description = i, tm_symbols = [], tm_interval = []\<rparr>
     | Some (cfg, _) \<Rightarrow>
         \<lparr>tm_id = i, tm_description = (let d = template_description i in if d = [] then i else d),
          tm_symbols = st_symbols cfg, tm_interval = st_interval cfg\<rparr>) template_ids"

subsection \<open>Create\<close>

record create_options =
  co_dir :: string
  co_name :: string
  co_template :: string
  co_symbols :: "string list"
  co_interval :: "string option"
  co_history_bars :: "int option"
  co_ticker :: "bool option"
  co_enabled :: "bool option"
  co_params :: params

definition or_else :: "'a option \<Rightarrow> 'a \<Rightarrow> 'a" where
  "or_else xo d = (case xo of None \<Rightarrow> d | Some x \<Rightarrow> x)"

definition merge_config :: "strategy_config \<times> params \<Rightarrow> create_options \<Rightarrow> strategy_config \<times> params" where
  "merge_config base opts =
     (let c = fst base
      in (c\<lparr>st_name := co_name opts, st_enabled := or_else (co_enabled opts) False,
            st_symbols := (if co_symbols opts \<noteq> [] then co_symbols opts else st_symbols c),
            st_interval := or_else (co_interval opts) (st_interval c),
            st_history_bars := or_else (co_history_bars opts) (st_history_bars c),
            st_subscribe_ticker := or_else (co_ticker opts) (st_subscribe_ticker c)\<rparr>,
          snd base ++ co_params opts))"

datatype node = Folder | File string

type_synonym files = "string \<rightharpoonup> node"

text \<open>What the operating system answers: failures of \<open>Stat\<close> (other than not existing), \<open>Mkdir\<close> and
  the two writes, the encoder, the script of a template, and \<open>Abs\<close>.\<close>

record scaffold_env =
  sx_stat :: "go_error option"
  sx_mkdir :: "go_error option"
  sx_write_config :: "go_error option"
  sx_write_script :: "go_error option"
  sx_encode :: "strategy_config \<times> params \<Rightarrow> string result"
  sx_script :: "string \<Rightarrow> string result"
  sx_abs :: "string \<Rightarrow> string result"

definition remove_all :: "string \<Rightarrow> files \<Rightarrow> files" where
  "remove_all dir fs = (\<lambda>p. if p = dir \<or> has_prefix p (dir @ [slash]) then None else fs p)"

text \<open>After \<open>Mkdir\<close>, any failure removes the directory again. A failed write may leave a part of the
  file, which goes with the directory.\<close>

definition fill_directory :: "scaffold_env \<Rightarrow> string \<Rightarrow> strategy_config \<times> params \<Rightarrow> string \<Rightarrow> files \<Rightarrow> string result \<times> files" where
  "fill_directory env dir cfg script fs0 =
     (let fs = fs0(dir \<mapsto> Folder)
      in case sx_encode env cfg of
           Inl e \<Rightarrow> (Inl e, remove_all dir fs)
         | Inr text_data \<Rightarrow>
           let fs1 = fs(join_path dir ''config.yaml'' \<mapsto> File text_data)
           in case sx_write_config env of Some e \<Rightarrow> (Inl e, remove_all dir fs1)
            | None \<Rightarrow>
              let fs2 = fs1(join_path dir ''strategy.py'' \<mapsto> File script)
              in case sx_write_script env of Some e \<Rightarrow> (Inl e, remove_all dir fs2)
               | None \<Rightarrow> (case sx_abs env dir of
                   Inl e \<Rightarrow> (Inl e, remove_all dir fs2)
                 | Inr p \<Rightarrow> (Inr p, fs2)))"

definition scaffold_create :: "scaffold_env \<Rightarrow> create_options \<Rightarrow> files \<Rightarrow> string result \<times> files" where
  "scaffold_create env opts fs =
     (case validate_name (co_name opts) of Some e \<Rightarrow> (Inl e, fs)
      | None \<Rightarrow>
        if co_template opts = [] then (Inl (Errorf ''template_id is required''), fs)
        else (case template_config (co_template opts) of
          None \<Rightarrow> (Inl (WrapAfter template_not_found (co_template opts)), fs)
        | Some base \<Rightarrow>
          if co_dir opts = [] then (Inl (Errorf ''strategies dir is required''), fs)
          else let cfg = merge_config base opts
               in case validate_config (fst cfg) of
                    Some e \<Rightarrow> (Inl (WrapAfter invalid_scaffold_config (error_text e)), fs)
                  | None \<Rightarrow> (case sx_script env (co_template opts) of
                      Inl e \<Rightarrow> (Inl e, fs)
                    | Inr script \<Rightarrow>
                      let dir = join_path (co_dir opts) (co_name opts)
                      in case sx_stat env of Some e \<Rightarrow> (Inl e, fs)
                       | None \<Rightarrow>
                         if fs dir \<noteq> None then (Inl (WrapAfter already_exists (co_name opts)), fs)
                         else (case sx_mkdir env of Some e \<Rightarrow> (Inl e, fs)
                           | None \<Rightarrow> fill_directory env dir cfg script fs))))"

text \<open>\<open>CreateStrategyScaffold\<close>: \<open>reload\<close> is what reloading the catalogue from the files answers.\<close>

definition create_strategy_scaffold ::
  "scaffold_env \<Rightarrow> string option \<Rightarrow> (files \<Rightarrow> int result) \<Rightarrow> create_options \<Rightarrow> files \<Rightarrow> (string \<times> int) result \<times> files" where
  "create_strategy_scaffold env loader reload opts fs =
     (case loader of None \<Rightarrow> (Inl (Errorf ''strategy loader not configured''), fs)
      | Some d \<Rightarrow> (case scaffold_create env (opts\<lparr>co_dir := d\<rparr>) fs of
          (Inl e, fs') \<Rightarrow> (Inl e, fs')
        | (Inr p, fs') \<Rightarrow> (case reload fs' of
            Inl e \<Rightarrow> (Inl (Wrapf ''reload catalog: '' e), fs')
          | Inr n \<Rightarrow> (Inr (p, n), fs'))))"

subsection \<open>All or nothing\<close>

text \<open>Nothing lies under a directory that is not there.\<close>

definition tree :: "files \<Rightarrow> bool" where
  "tree fs \<longleftrightarrow> (\<forall>p d. d \<noteq> [] \<and> fs p \<noteq> None \<and> has_prefix p (d @ [slash]) \<longrightarrow> fs d \<noteq> None)"

text \<open>The path of a file in a directory: an element of its own after the directory's.\<close>

definition plain_elem :: "string \<Rightarrow> bool" where
  "plain_elem e \<longleftrightarrow> e \<noteq> [] \<and> e \<noteq> ''.'' \<and> e \<noteq> ''..'' \<and> slash \<notin> set e"

lemma split_on_snoc: "slash \<notin> set n \<Longrightarrow> split_on slash (a @ slash # n) = split_on slash a @ [n]"
  by (induction a) (auto simp: split_on_nosep split: list.splits)

lemma join_with_snoc: "xs \<noteq> [] \<Longrightarrow> join_with d (xs @ [y]) = join_with d xs @ d @ y"
  by (induction d xs rule: join_with.induct) auto

lemma clean_elems_snoc: "plain_elem n \<Longrightarrow> clean_elems r (xs @ [n]) = clean_elems r xs @ [n]"
  by (simp add: clean_elems_def clean_elem_def plain_elem_def)

lemma clean_elems_skip: "clean_elems r ([] # es) = clean_elems r es"
  by (simp add: clean_elems_def clean_elem_def)

definition path_of :: "bool \<Rightarrow> string list \<Rightarrow> string" where
  "path_of r es = (if r then slash # join_with [slash] es else if es = [] then ''.'' else join_with [slash] es)"

lemma join_path_elems:
  assumes "a \<noteq> []" "plain_elem n"
  shows "join_path a n = path_of (is_abs a) (clean_elems (is_abs a) (split_on slash a) @ [n])"
proof -
  have "is_abs (a @ slash # n) = is_abs a" using assms(1) by (simp add: is_abs_def)
  then show ?thesis
    using assms split_on_snoc [of n a]
    by (simp add: join_path_def clean_path_def path_of_def clean_elems_snoc Let_def plain_elem_def)
qed

lemma join_path_nonempty:
  assumes "a \<noteq> []" "plain_elem n"
  shows "join_path a n \<noteq> []"
  using join_with_snoc [of "clean_elems (is_abs a) (split_on slash a)" "[slash]" n] assms
  by (cases "clean_elems (is_abs a) (split_on slash a)") (auto simp: join_path_elems path_of_def plain_elem_def)

lemma join_path_child:
  assumes "a \<noteq> []" "plain_elem n" "plain_elem f"
  shows "join_path (join_path a n) f = join_path a n @ slash # f"
proof -
  let ?r = "is_abs a" and ?es = "clean_elems (is_abs a) (split_on slash a) @ [n]"
  have dir: "join_path a n = path_of ?r ?es" using assms by (simp add: join_path_elems)
  have parts: "\<forall>e \<in> set ?es. slash \<notin> set e" using clean_elems_parts assms(2) by (auto simp: plain_elem_def)
  have idem: "clean_elems ?r ?es = ?es"
    using assms(2) clean_elems_idem [of "split_on slash a" ?r] by (auto simp: clean_elems_snoc dest: split_on_parts)
  have "split_on slash (join_with [slash] ?es) = ?es" by (rule split_join [OF _ parts]) simp
  then have "clean_elems ?r (split_on slash (path_of ?r ?es)) = ?es"
    using idem by (cases ?r) (simp_all add: path_of_def clean_elems_skip)
  moreover have "is_abs (join_path a n) = ?r"
    using assms(1) by (simp add: join_path_def is_abs_def [of "a @ _"]) (simp add: is_abs_def)
  moreover have "join_path a n \<noteq> []" using assms(1,2) by (rule join_path_nonempty)
  ultimately have "join_path (join_path a n) f = path_of ?r (?es @ [f])"
    using join_path_elems [OF _ assms(3), of "join_path a n"] by (simp add: dir)
  also have "\<dots> = path_of ?r ?es @ slash # f"
    using join_with_snoc [of ?es "[slash]" f] by (cases ?r) (simp_all add: path_of_def)
  finally show ?thesis by (simp add: dir)
qed

lemma valid_name_plain:
  assumes "validate_name n = None" shows "plain_elem n"
proof -
  have n: "n \<noteq> []" "\<forall>c \<in> set n. name_char c" using assms by (auto simp: validate_name_def list_all_iff split: if_splits)
  have "\<not> name_char slash" "\<not> name_char CHR ''.''" by (simp_all add: name_char_def slash_def)
  then show ?thesis using n by (auto simp: plain_elem_def)
qed

lemma script_names: "plain_elem ''config.yaml''" "plain_elem ''strategy.py''"
  by (simp_all add: plain_elem_def slash_def)


lemma fill_directory_effect:
  assumes "fill_directory env dir cfg script fs = (res, fs')" "fs dir = None" "tree fs" "dir \<noteq> []"
    and "join_path dir ''config.yaml'' = dir @ slash # ''config.yaml''" "join_path dir ''strategy.py'' = dir @ slash # ''strategy.py''"
  shows "(\<exists>e. res = Inl e) \<and> fs' = fs \<or>
    (\<exists>p data. res = Inr p \<and> sx_abs env dir = Inr p \<and> sx_encode env cfg = Inr data \<and>
       fs' = fs(dir \<mapsto> Folder, dir @ slash # ''config.yaml'' \<mapsto> File data, dir @ slash # ''strategy.py'' \<mapsto> File script))"
proof -
  have below: "fs p = None" if "has_prefix p (dir @ [slash])" for p
    using assms(2-4) that unfolding tree_def by (metis (full_types))
  have undo: "remove_all dir g = fs" if "\<And>p. p \<noteq> dir \<Longrightarrow> \<not> has_prefix p (dir @ [slash]) \<Longrightarrow> g p = fs p" for g
    using that below assms(2) by (auto simp: remove_all_def fun_eq_iff)
  have pre: "has_prefix (dir @ slash # x) (dir @ [slash])" for x by (simp add: has_prefix_def)
  have gone: "remove_all dir (fs(dir \<mapsto> Folder)) = fs"
    "remove_all dir (fs(dir \<mapsto> Folder, dir @ slash # ''config.yaml'' \<mapsto> File d)) = fs"
    "remove_all dir (fs(dir \<mapsto> Folder, dir @ slash # ''config.yaml'' \<mapsto> File d, dir @ slash # ''strategy.py'' \<mapsto> File script)) = fs" for d
    by (rule undo; use pre in auto)+
  note fill = assms(1) [unfolded fill_directory_def assms(5,6) Let_def]
  show ?thesis
  proof (cases "sx_encode env cfg")
    case (Inl e)
    then have "res = Inl e \<and> fs' = fs" using fill gone(1) by simp
    then show ?thesis by blast
  next
    case (Inr data)
    show ?thesis
    proof (cases "sx_abs env dir")
      case (Inl e)
      note abs_err = this
      have "\<exists>x. (res, fs') = (Inl x, fs)"
      proof (cases "sx_write_config env")
        case (Some x)
        then have "(res, fs') = (Inl x, fs)" using fill Inr gone(2) by simp
        then show ?thesis by blast
      next
        case None
        note wc = this
        show ?thesis
        proof (cases "sx_write_script env")
          case (Some x)
          then have "(res, fs') = (Inl x, fs)" using fill Inr wc gone(3) by simp
          then show ?thesis by blast
        next
          case None
          then have "(res, fs') = (Inl e, fs)" using fill Inr wc abs_err gone(3) by simp
          then show ?thesis by blast
        qed
      qed
      then show ?thesis by blast
    next
      case (Inr p)
      then show ?thesis using fill \<open>sx_encode env cfg = Inr data\<close> gone by (auto split: option.splits)
    qed
  qed
qed


definition scaffold_ok_env :: scaffold_env where
  "scaffold_ok_env = \<lparr>sx_stat = None, sx_mkdir = None, sx_write_config = None, sx_write_script = None,
     sx_encode = (\<lambda>c. Inr (st_name (fst c))), sx_script = (\<lambda>i. Inr i), sx_abs = Inr\<rparr>"

definition blank_options :: create_options where
  "blank_options = \<lparr>co_dir = ''/s'', co_name = ''alpha'', co_template = ''blank'', co_symbols = [], co_interval = None,
     co_history_bars = None, co_ticker = None, co_enabled = None, co_params = Map.empty\<rparr>"


end
