(* ===== verification/GrpcProto.thy ===== *)
theory GrpcProto
  imports EngineStatus
begin

text \<open>
  The gRPC messages of the service and their conversions: \<open>adapters/grpc/*_proto.go\<close> and
  \<open>orderToProto\<close>, \<open>killSwitchStatusToProto\<close> of \<open>engine_service.go\<close>. The generated message types
  are records of the fields the conversions fill; a 32-bit field is a word.
\<close>

subsection \<open>Messages\<close>

definition unix_ms :: "go_time \<Rightarrow> int" where
  "unix_ms t = t div 1000000"

record order_proto =
  op_id :: string
  op_exchange_id :: string
  op_symbol :: string
  op_side :: string
  op_type :: string
  op_size :: string
  op_filled :: string
  op_status :: string
  op_strategy :: string
  op_created :: int
  op_updated :: int
  op_price :: string
  op_stop_price :: string

definition order_to_proto :: "order \<Rightarrow> order_proto" where
  "order_to_proto ob =
     \<lparr>op_id = ord_id ob, op_exchange_id = ord_exchange_id ob, op_symbol = ord_symbol ob, op_side = side_str (ord_side ob),
      op_type = type_str (ord_type ob), op_size = ord_size ob, op_filled = ord_filled ob,
      op_status = status_str (ord_status ob), op_strategy = ord_strategy ob, op_created = unix_ms (ord_created ob),
      op_updated = unix_ms (ord_updated ob), op_price = (case ord_price ob of None \<Rightarrow> [] | Some p \<Rightarrow> p),
      op_stop_price = (case ord_stop_price ob of None \<Rightarrow> [] | Some p \<Rightarrow> p)\<rparr>"

record balance_proto =
  bp_currency :: string
  bp_total :: string
  bp_available :: string
  bp_frozen :: string
  bp_updated :: int

definition balance_to_proto :: "balance_view \<Rightarrow> balance_proto" where
  "balance_to_proto b =
     \<lparr>bp_currency = bv_currency b, bp_total = bv_total b, bp_available = bv_available b, bp_frozen = bv_frozen b,
      bp_updated = unix_ms (bv_updated b)\<rparr>"

text \<open>The digits accumulate in an \<open>int64\<close>, which wraps, and the result is cut to 32 bits.\<close>

definition leverage_digits :: "string \<Rightarrow> 64 word" where
  "leverage_digits s = fold (\<lambda>c n. n * 10 + word_of_int (int (of_char c) - 48)) s 0"

definition parse_leverage_int32 :: "string \<Rightarrow> 32 word option" where
  "parse_leverage_int32 s = (if list_all is_digit s then Some (ucast (leverage_digits s)) else None)"

record position_proto =
  pp_symbol :: string
  pp_side :: string
  pp_size :: string
  pp_entry :: string
  pp_mark :: string
  pp_pnl :: string
  pp_leverage :: "32 word"
  pp_updated :: int

definition position_to_proto :: "position_view \<Rightarrow> position_proto" where
  "position_to_proto p =
     \<lparr>pp_symbol = pv_symbol p, pp_side = pv_side p, pp_size = pv_size p, pp_entry = pv_entry p, pp_mark = pv_mark p,
      pp_pnl = pv_pnl p,
      pp_leverage = (if pv_leverage p \<noteq> [] then (case parse_leverage_int32 (pv_leverage p) of None \<Rightarrow> 0 | Some n \<Rightarrow> n) else 0),
      pp_updated = unix_ms (pv_updated p)\<rparr>"

record ticker_proto =
  tp_symbol :: string
  tp_last :: string
  tp_mark :: string
  tp_index :: string
  tp_funding :: string
  tp_change :: string
  tp_volume :: string
  tp_volume_base :: string
  tp_volume_quote :: string
  tp_open_interest :: string
  tp_low :: string
  tp_high :: string
  tp_millis :: int

definition ticker_to_proto :: "ticker \<Rightarrow> ticker_proto" where
  "ticker_to_proto t =
     \<lparr>tp_symbol = tv_contract t, tp_last = tv_last t, tp_mark = tv_mark t, tp_index = tv_index t,
      tp_funding = tv_funding t, tp_change = tv_change t, tp_volume = tv_volume t, tp_volume_base = tv_volume_base t,
      tp_volume_quote = tv_volume_quote t, tp_open_interest = tv_open_interest t, tp_low = tv_low t,
      tp_high = tv_high t, tp_millis = tv_millis t\<rparr>"

record kline_proto =
  kp_symbol :: string
  kp_interval :: string
  kp_open :: string
  kp_high :: string
  kp_low :: string
  kp_close :: string
  kp_volume :: string
  kp_volume_base :: string
  kp_sec :: int
  kp_closed :: bool

definition kline_to_proto :: "kline \<Rightarrow> kline_proto" where
  "kline_to_proto k =
     \<lparr>kp_symbol = k_contract k, kp_interval = k_interval k, kp_open = k_open k, kp_high = k_high k, kp_low = k_low k,
      kp_close = k_close k, kp_volume = k_volume k, kp_volume_base = k_volume_base k, kp_sec = k_sec k,
      kp_closed = k_closed k\<rparr>"

record strategy_proto =
  yp_name :: string
  yp_enabled :: bool
  yp_symbols :: "string list"
  yp_running :: bool
  yp_heartbeat :: int
  yp_crashes :: "32 word"
  yp_in_window :: "32 word"
  yp_auto_restart :: bool
  yp_backoff :: duration
  yp_circuit :: bool

definition strategy_summary_to_proto :: "runtime_snapshot \<Rightarrow> strategy_proto" where
  "strategy_summary_to_proto s =
     \<lparr>yp_name = sn_name s, yp_enabled = sn_enabled s, yp_symbols = sn_symbols s, yp_running = sn_running s,
      yp_heartbeat = (case sn_heartbeat s of None \<Rightarrow> 0 | Some t \<Rightarrow> unix_ms t),
      yp_crashes = word_of_int (sn_crashes s), yp_in_window = word_of_int (sn_in_window s),
      yp_auto_restart = sn_auto_restart s, yp_backoff = sn_backoff s, yp_circuit = sn_circuit s\<rparr>"

record kill_proto =
  kl_active :: bool
  kl_reason :: string
  kl_at :: int

definition kill_switch_to_proto :: "kill_switch \<Rightarrow> kill_proto" where
  "kill_switch_to_proto k =
     \<lparr>kl_active = ks_active k, kl_reason = ks_reason k, kl_at = (if ks_active k then unix_ms (ks_at k) else 0)\<rparr>"

record log_proto =
  gp_id :: int
  gp_strategy :: string
  gp_level :: string
  gp_message :: string
  gp_created :: int

definition strategy_log_to_proto :: "strategy_log \<Rightarrow> log_proto" where
  "strategy_log_to_proto r =
     \<lparr>gp_id = sl_id r, gp_strategy = sl_strategy r, gp_level = sl_level r, gp_message = sl_message r,
      gp_created = unix_ms (sl_created r)\<rparr>"

subsection \<open>Persisted snapshots\<close>

text \<open>\<open>show_any\<close> is what \<open>fmt.Sprint\<close> makes of a value of another type.\<close>

definition string_field :: "(gval \<Rightarrow> string) \<Rightarrow> (string \<times> gval) list \<Rightarrow> string \<Rightarrow> string" where
  "string_field show_any m k =
     (case map_of m k of None \<Rightarrow> [] | Some v \<Rightarrow>
        (case v of GNull \<Rightarrow> [] | GStr s \<Rightarrow> s | GNum f \<Rightarrow> format_float f | GInt i \<Rightarrow> show_int i | _ \<Rightarrow> show_any v))"

definition int64_field :: "(go_float \<Rightarrow> int) \<Rightarrow> (string \<times> gval) list \<Rightarrow> string \<Rightarrow> int" where
  "int64_field impl m k =
     (case map_of m k of None \<Rightarrow> 0 | Some v \<Rightarrow>
        (case v of GNum f \<Rightarrow> to_int64 impl f | GInt i \<Rightarrow> i | GStr s \<Rightarrow> atoi_or (trim_space s) | _ \<Rightarrow> 0))"

definition decoded_time :: "int \<Rightarrow> go_time" where
  "decoded_time ts = (if 0 < ts then ts * second else zero_time)"

record json_env =
  je_unmarshal :: "string \<Rightarrow> gval option"
  je_show_any :: "gval \<Rightarrow> string"
  je_impl :: "go_float \<Rightarrow> int"

definition decode_balance :: "json_env \<Rightarrow> string \<Rightarrow> balance_view result" where
  "decode_balance je raw =
     (if raw = [] then Inl (Errorf ''empty balance json'')
      else (case (case je_unmarshal je raw of Some (GObj m) \<Rightarrow> Some m | Some GNull \<Rightarrow> Some [] | _ \<Rightarrow> None) of
          None \<Rightarrow> Inl (Errorf ''json'')
        | Some m \<Rightarrow> Inr \<lparr>bv_currency = string_field (je_show_any je) m ''currency'', bv_total = string_field (je_show_any je) m ''total'',
            bv_available = string_field (je_show_any je) m ''available'', bv_frozen = string_field (je_show_any je) m ''frozen'',
            bv_updated = decoded_time (int64_field (je_impl je) m ''updated_at'')\<rparr>))"

definition decode_position :: "json_env \<Rightarrow> (string \<times> gval) list \<Rightarrow> position_view" where
  "decode_position je m =
     (let lv = int64_field (je_impl je) m ''leverage''
      in \<lparr>pv_market = Perp, pv_symbol = string_field (je_show_any je) m ''contract'', pv_side = string_field (je_show_any je) m ''side'',
          pv_size = string_field (je_show_any je) m ''size'', pv_entry = string_field (je_show_any je) m ''entry_price'',
          pv_mark = string_field (je_show_any je) m ''mark_price'', pv_pnl = string_field (je_show_any je) m ''unrealized_pnl'',
          pv_leverage = (if 0 < lv then show_int lv else []),
          pv_updated = decoded_time (int64_field (je_impl je) m ''updated_at'')\<rparr>)"

text \<open>A list of objects; \<open>null\<close> elements are skipped, anything else is an error.\<close>

fun object_items :: "gval list \<Rightarrow> (string \<times> gval) list list option" where
  "object_items [] = Some []"
| "object_items (GObj m # vs) = map_option (Cons m) (object_items vs)"
| "object_items (GNull # vs) = object_items vs"
| "object_items (_ # vs) = None"

definition decode_positions :: "json_env \<Rightarrow> string \<Rightarrow> position_view list result" where
  "decode_positions je raw =
     (if raw = [] then Inr []
      else (case (case je_unmarshal je raw of Some (GArr vs) \<Rightarrow> object_items vs | Some GNull \<Rightarrow> Some [] | _ \<Rightarrow> None) of
          None \<Rightarrow> Inl (Errorf ''json'') | Some ms \<Rightarrow> Inr (map (decode_position je) ms)))"

record snapshot_proto =
  xp_id :: int
  xp_at :: int
  xp_revision :: "64 word"
  xp_currency :: string
  xp_equity :: string
  xp_balance :: "balance_proto option"
  xp_positions :: "position_proto list"

definition account_snapshot_to_proto :: "json_env \<Rightarrow> bool \<Rightarrow> saved_snapshot \<Rightarrow> snapshot_proto" where
  "account_snapshot_to_proto je details row =
     (let base = \<lparr>xp_id = ss_id row, xp_at = unix_ms (sr_at row), xp_revision = sr_revision row,
                  xp_currency = sr_currency row, xp_equity = sr_equity row, xp_balance = None, xp_positions = []\<rparr>
      in if \<not> details then base
         else base\<lparr>xp_balance := (case decode_balance je (sr_balance row) of Inl e \<Rightarrow> None | Inr b \<Rightarrow> Some (balance_to_proto b)),
                   xp_positions := (case decode_positions je (sr_positions row) of Inl e \<Rightarrow> []
                                    | Inr ps \<Rightarrow> map position_to_proto ps)\<rparr>)"


subsection \<open>Leverage\<close>

lemma leverage_digits_nat:
  assumes "list_all is_digit s"
  shows "leverage_digits s = of_nat (nat_of_digits s)"
proof -
  have digit: "word_of_int (int (of_char c) - 48) = (of_nat (digit_val c) :: 64 word)" if "is_digit c" for c
  proof -
    have "int (of_char c) - 48 = int (digit_val c)" using that by (simp add: is_digit_def digit_val_def)
    then show ?thesis by (simp only: of_int_of_nat_eq)
  qed
  have "fold (\<lambda>c n. n * 10 + word_of_int (int (of_char c) - 48)) s (of_nat a :: 64 word) =
      of_nat (foldl (\<lambda>a c. 10 * a + digit_val c) a s)" for a
    using assms
  proof (induction s arbitrary: a)
    case (Cons c s)
    have "of_nat a * 10 + word_of_int (int (of_char c) - 48) = (of_nat (10 * a + digit_val c) :: 64 word)"
      using Cons.prems digit [of c] by (simp del: of_int_diff of_int_of_nat_eq)
    then show ?case using Cons.IH [of "10 * a + digit_val c"] Cons.prems by (simp del: of_int_diff of_nat_add of_nat_mult)
  qed simp
  from this [of 0] show ?thesis by (simp add: leverage_digits_def nat_of_digits_def)
qed

lemma parse_leverage_nat: "parse_leverage_int32 (show_nat n) = Some (of_nat n)"
proof -
  have "list_all is_digit (show_nat n)" by (auto simp: list_all_iff dest: show_nat_digits)
  then show ?thesis
    by (simp add: parse_leverage_int32_def leverage_digits_nat unsigned_of_nat word_of_nat_eq_iff)
qed

text \<open>A leverage beyond 32 bits is cut.\<close>

lemma leverage_wraps: "parse_leverage_int32 ''4294967306'' = Some 10"
proof -
  have "list_all is_digit ''4294967306''" "nat_of_digits ''4294967306'' = 4294967306"
    by (simp_all add: is_digit_def nat_of_digits_def digit_val_def)
  then show ?thesis by (simp add: parse_leverage_int32_def leverage_digits_nat unsigned_of_nat)
qed

subsection \<open>A snapshot on its way to a client\<close>

primrec as_decoded :: "gval \<Rightarrow> gval" where
  "as_decoded GNull = GNull"
| "as_decoded (GBool b) = GBool b"
| "as_decoded (GNum f) = GNum f"
| "as_decoded (GInt i) = GNum (f64 (of_int i))"
| "as_decoded (GStr s) = GStr s"
| "as_decoded (GArr vs) = GArr (map as_decoded vs)"
| "as_decoded (GObj m) = GObj (map (map_prod id as_decoded) m)"

lemma f64_of_int:
  assumes "0 \<le> i" "i \<le> 2 ^ 53"
  shows "f64 (of_int i) = Fin (of_int i)"
proof (cases "i = 0")
  case False
  then have "0 < i" using assms(1) by simp
  have exact: "round_pos (of_int i) = of_int i"
    using representable_exact [OF \<open>0 < i\<close> assms(2), of 0] by (simp add: pow2_def)
  have "(of_int i :: rat) \<le> of_int (2 ^ 53)" using assms(2) by (simp only: of_int_le_iff)
  also have "\<dots> < pow2 1024" by (simp add: pow2_def)
  finally show ?thesis using exact \<open>0 < i\<close> by (simp add: f64_def Let_def)
qed (simp add: f64_def)

lemma int64_of_f64: "0 \<le> i \<Longrightarrow> i \<le> 2 ^ 53 \<Longrightarrow> to_int64 impl (f64 (of_int i)) = i"
  by (simp add: f64_of_int to_int64_def Let_def)

definition whole_second :: "go_time \<Rightarrow> go_time" where
  "whole_second t = t div second * second"

definition storable_time :: "go_time \<Rightarrow> bool" where
  "storable_time t \<longleftrightarrow> second \<le> t \<and> t div second \<le> 2 ^ 53"

lemma storable_sec: "storable_time t \<Longrightarrow> 0 < t div second"
  by (simp add: storable_time_def second_def pos_imp_zdiv_pos_iff)

definition plain_leverage :: "string \<Rightarrow> bool" where
  "plain_leverage s \<longleftrightarrow> s = [] \<or> (\<exists>n. 0 < n \<and> n < 2 ^ 31 \<and> s = show_nat n)"

lemma decoded_balance:
  assumes "je_unmarshal je raw = Some (as_decoded (balance_to_rpc (Some b)))" "raw \<noteq> []" "storable_time (bv_updated b)"
  shows "decode_balance je raw = Inr (b\<lparr>bv_updated := whole_second (bv_updated b)\<rparr>)"
proof -
  have "to_int64 (je_impl je) (f64 (of_int (bv_updated b div second))) = bv_updated b div second"
    using assms(3) storable_sec [OF assms(3)] by (intro int64_of_f64) (auto simp: storable_time_def)
  then show ?thesis
    using assms storable_sec [OF assms(3)]
    by (simp add: decode_balance_def balance_to_rpc_def string_field_def int64_field_def decoded_time_def unix_sec_def
        whole_second_def)
qed


definition storable_position :: "position_view \<Rightarrow> bool" where
  "storable_position p \<longleftrightarrow> pv_market p = Perp \<and> storable_time (pv_updated p) \<and> plain_leverage (pv_leverage p)"

lemma decoded_position:
  assumes "storable_position p" "position_to_rpc (Some p) = GObj m"
  shows "decode_position je (map (map_prod id as_decoded) m) = p\<lparr>pv_updated := whole_second (pv_updated p)\<rparr>"
proof -
  have p: "pv_market p = Perp" "storable_time (pv_updated p)" "plain_leverage (pv_leverage p)"
    using assms(1) by (simp_all add: storable_position_def)
  have sec: "to_int64 (je_impl je) (f64 (of_int (pv_updated p div second))) = pv_updated p div second"
    using p(2) storable_sec [OF p(2)] by (intro int64_of_f64) (auto simp: storable_time_def)
  define i where "i = (if pv_leverage p \<noteq> [] then atoi_or (trim_space (pv_leverage p)) else 0)"
  have lev: "0 \<le> i \<and> i \<le> 2 ^ 53 \<and> (if 0 < i then show_int i else []) = pv_leverage p"
  proof (cases "pv_leverage p = []")
    case False
    then obtain n where n: "0 < n" "n < 2 ^ 31" "pv_leverage p = show_nat n"
      using p(3) by (auto simp: plain_leverage_def)
    have int: "show_nat n = show_int (int n)" by (simp add: show_int_def)
    have "i = int n" using n False atoi_show_int [of "int n"]
      by (simp add: i_def trim_space_show_nat) (simp add: int)
    then show ?thesis using n by (simp add: show_int_def)
  qed (simp add: i_def)
  have m: "m = [(''contract'', GStr (pv_symbol p)), (''entry_price'', GStr (pv_entry p)), (''leverage'', GInt i),
      (''mark_price'', GStr (pv_mark p)), (''side'', GStr (pv_side p)), (''size'', GStr (pv_size p)),
      (''unrealized_pnl'', GStr (pv_pnl p)), (''updated_at'', unix_sec (pv_updated p))]"
    using assms(2) by (simp add: position_to_rpc_def position_object_def i_def)
  show ?thesis
    using lev sec storable_sec [OF p(2)] p(1) int64_of_f64 [of i "je_impl je"]
    by (simp add: m decode_position_def string_field_def int64_field_def decoded_time_def unix_sec_def whole_second_def Let_def)
qed

lemma decoded_positions:
  assumes "je_unmarshal je raw = Some (as_decoded (GArr (map (\<lambda>p. position_to_rpc (Some p)) ps)))" "raw \<noteq> []"
    and "\<forall>p \<in> set ps. storable_position p"
  shows "decode_positions je raw = Inr (map (\<lambda>p. p\<lparr>pv_updated := whole_second (pv_updated p)\<rparr>) ps)"
proof -
  have "\<exists>ms. object_items (map (\<lambda>p. as_decoded (position_to_rpc (Some p))) ps) = Some ms \<and>
      map (decode_position je) ms = map (\<lambda>p. p\<lparr>pv_updated := whole_second (pv_updated p)\<rparr>) ps"
    using assms(3)
  proof (induction ps)
    case (Cons p ps)
    obtain m where m: "position_to_rpc (Some p) = GObj m" by (simp add: position_to_rpc_def position_object_def)
    then show ?case using Cons decoded_position [OF _ m, of je] by auto
  qed simp
  then show ?thesis using assms(1,2) by (auto simp: decode_positions_def comp_def)
qed

text \<open>C36. An account snapshot reaches the client as it was taken. What the refresh hook persists,
  stored in the database, scanned again and converted for a client that asks for details is the
  conversion of the very balance and positions of the refresh, with its currency, equity, revision
  and time; only the two update times are cut to their second. It holds for positions whose leverage
  is empty or a positive 32-bit number and a decoder of JSON that gives a number as a float.\<close>

theorem account_snapshot_roundtrip:
  assumes "persist_account_snapshot True marshal (Some b) ps revision t = Some row"
    and "save_account_snapshot (Some row) d = (None, d')" "scan_snapshot (List.last (db_snaps d')) = Inr saved"
    and "\<forall>v raw. marshal v = Inr raw \<longrightarrow> raw \<noteq> [] \<and> je_unmarshal je raw = Some (as_decoded v)"
    and "time_in_range t" "storable_time (bv_updated b)" "\<forall>p. Some p \<in> set ps \<longrightarrow> storable_position p"
  shows "account_snapshot_to_proto je True saved =
    \<lparr>xp_id = db_snap_seq d + 1, xp_at = unix_ms t, xp_revision = revision, xp_currency = bv_currency b,
     xp_equity = bv_total b, xp_balance = Some (balance_to_proto (b\<lparr>bv_updated := whole_second (bv_updated b)\<rparr>)),
     xp_positions = map (\<lambda>p. position_to_proto (p\<lparr>pv_updated := whole_second (pv_updated p)\<rparr>)) (List.map_filter id ps)\<rparr>"
proof -
  obtain bj pj where row: "marshal (balance_to_rpc (Some b)) = Inr bj"
      "marshal (GArr (map (\<lambda>p. position_to_rpc (Some p)) (List.map_filter id ps))) = Inr pj"
      "row = \<lparr>sr_at = t, sr_revision = revision, sr_currency = bv_currency b, sr_equity = bv_total b,
              sr_balance = bj, sr_positions = pj\<rparr>"
    using assms(1) by (auto simp: persist_account_snapshot_def encode_account_snapshot_row_def split: sum.splits)
  have saved: "saved = \<lparr>sr_at = t, sr_revision = revision, sr_currency = bv_currency b, sr_equity = bv_total b,
      sr_balance = bj, sr_positions = pj, ss_id = db_snap_seq d + 1\<rparr>"
    using assms(2,3) row(3) parse_format_time [OF assms(5)]
    by (auto simp: save_account_snapshot_def scan_snapshot_def)
  have "\<forall>p \<in> set (List.map_filter id ps). storable_position p"
    using assms(7) by (auto simp: List.map_filter_def)
  then show ?thesis
    using decoded_balance [of je bj b] decoded_positions [of je pj "List.map_filter id ps"] assms(4,6) row(1,2)
    by (simp add: account_snapshot_to_proto_def saved Let_def)
qed

definition snapshot_position :: position_view where
  "snapshot_position = \<lparr>pv_market = Perp, pv_symbol = ''BTC/USDT'', pv_side = ''Long'', pv_size = ''1'', pv_entry = ''5'',
     pv_mark = ''6'', pv_pnl = ''1'', pv_leverage = ''9'', pv_updated = second\<rparr>"

definition snapshot_balance :: balance_view where
  "snapshot_balance = \<lparr>bv_currency = ''USDT'', bv_total = ''7'', bv_available = ''7'', bv_frozen = ''0'', bv_updated = second + 5\<rparr>"

text \<open>An encoder that names the two values of the example, and its decoder.\<close>

definition toy_marshal :: "gval \<Rightarrow> string result" where
  "toy_marshal v = (if v = balance_to_rpc (Some snapshot_balance) then Inr ''b''
     else if v = GArr [position_to_rpc (Some snapshot_position)] then Inr ''p'' else Inl (Errorf []))"

definition toy_json :: json_env where
  "toy_json = \<lparr>je_unmarshal = (\<lambda>s. if s = ''b'' then Some (as_decoded (balance_to_rpc (Some snapshot_balance)))
      else Some (as_decoded (GArr [position_to_rpc (Some snapshot_position)]))), je_show_any = (\<lambda>_. []), je_impl = (\<lambda>_. 0)\<rparr>"

theorem account_snapshot_roundtrip_witness:
  "\<exists>row d' saved. persist_account_snapshot True toy_marshal (Some snapshot_balance) [Some snapshot_position] 3 second = Some row \<and>
     save_account_snapshot (Some row) empty_db = (None, d') \<and> scan_snapshot (List.last (db_snaps d')) = Inr saved \<and>
     map pp_leverage (xp_positions (account_snapshot_to_proto toy_json True saved)) = [9] \<and>
     map_option bp_updated (xp_balance (account_snapshot_to_proto toy_json True saved)) = Some 1000"
proof -
  have ne: "GArr [position_to_rpc (Some snapshot_position)] \<noteq> balance_to_rpc (Some snapshot_balance)"
    by (simp add: balance_to_rpc_def)
  have filt: "List.map_filter id [Some snapshot_position] = [snapshot_position]" by (simp add: List.map_filter_simps)
  have t: "time_in_range second" using epoch_in_range [of second] by (simp add: second_def)
  obtain row where row: "persist_account_snapshot True toy_marshal (Some snapshot_balance) [Some snapshot_position] 3 second = Some row"
      "sr_at row = second"
    using ne by (simp add: persist_account_snapshot_def encode_account_snapshot_row_def filt toy_marshal_def)
  obtain d' where d': "save_account_snapshot (Some row) empty_db = (None, d')"
    by (simp add: save_account_snapshot_def)
  obtain saved where saved: "scan_snapshot (List.last (db_snaps d')) = Inr saved"
    using d' row(2) parse_format_time [OF t] by (auto simp: save_account_snapshot_def scan_snapshot_def)
  have json: "\<forall>v raw. toy_marshal v = Inr raw \<longrightarrow> raw \<noteq> [] \<and> je_unmarshal toy_json raw = Some (as_decoded v)"
    using ne by (auto simp: toy_marshal_def toy_json_def)
  have nine: "show_nat 9 = ''9''" by (simp add: show_nat.simps digit_chars)
  have ok: "storable_time (bv_updated snapshot_balance)" "storable_position snapshot_position"
    using nine by (auto simp: snapshot_balance_def snapshot_position_def storable_time_def storable_position_def
        plain_leverage_def second_def intro!: exI [of _ 9])
  have "account_snapshot_to_proto toy_json True saved =
      \<lparr>xp_id = db_snap_seq empty_db + 1, xp_at = unix_ms second, xp_revision = 3, xp_currency = bv_currency snapshot_balance,
       xp_equity = bv_total snapshot_balance,
       xp_balance = Some (balance_to_proto (snapshot_balance\<lparr>bv_updated := whole_second (bv_updated snapshot_balance)\<rparr>)),
       xp_positions = [position_to_proto (snapshot_position\<lparr>pv_updated := whole_second (pv_updated snapshot_position)\<rparr>)]\<rparr>"
    using account_snapshot_roundtrip [OF row(1) d' saved json t ok(1)] ok(2) by (simp add: filt)
  moreover have "parse_leverage_int32 ''9'' = Some 9" using parse_leverage_nat [of 9] by (simp add: nine)
  ultimately have out: "map pp_leverage (xp_positions (account_snapshot_to_proto toy_json True saved)) = [9] \<and>
     map_option bp_updated (xp_balance (account_snapshot_to_proto toy_json True saved)) = Some 1000"
    by (simp add: position_to_proto_def balance_to_proto_def snapshot_position_def snapshot_balance_def whole_second_def
        unix_ms_def second_def)
  show ?thesis
    by (rule exI [of _ row], rule exI [of _ d'], rule exI [of _ saved]) (use row(1) d' saved out in metis)
qed

end
