(* ===== verification/Spec2Isabelle.thy ===== *)
theory Spec2Isabelle
  imports Prelude GoStrings Decimals RefDecimal PerpTypes Models RiskDomain EquityTracker Instrument
    Projection KlineHistory MarketRouter Decision PerpRisk OMS RiskPipeline GoFloat StrategyConfig CrashTracker Lifecycle GoNum
    Sha256 Sha512 GoStd Reconcile Executor ContractNames GateConvert GateWS GateClient
    Config PerpMarket EngineIPC GoClock SqlStore SqlRecovery
    Channels LogStream Retention StrategyIO StrategyMessages
    EngineStatus Scaffold GrpcProto
begin

text \<open>Signalix.\<close>

end
